(* ===== verification/Go_Prelude.thy ===== *)
theory Go_Prelude
  imports Main "HOL-Library.Word" "HOL-Library.State_Monad" "HOL-Library.Sublist"
begin

text \<open>
  The part of Go and of its standard library that the three services use, and the lemmas the
  component theories share.

  \<^item> \<open>int64\<close> values and \<open>time.Duration\<close> values are 64-bit words read as two's complement;
  \<^item> an \<open>error\<close> value is a package-level variable (compared by identity), a \<open>fmt.Errorf\<close>
    text, a wrapped error (\<open>%w\<close>), a gRPC status error or a context error;
  \<^item> strings are byte lists, as in Go; \<open>strings.TrimSpace\<close> works on UTF-8 encodings;
  \<^item> effects are in the state monad; a service that is not part of the repository (PostgreSQL,
    Redis, RabbitMQ, the network) answers a call, or loses it before or after it took effect:
    \<open>driver\<close> draws one outcome per call from a queue in the world, which is arbitrary in the
    theorems.
\<close>

named_theorems go_defs \<open>definitions a component's proofs unfold\<close>
named_theorems go_frame \<open>what an operation leaves unchanged\<close>

type_synonym int64 = "64 word"
type_synonym duration = "64 word"

lemmas go_int_order = word_sle_eq word_sless_alt

section \<open>Errors\<close>

text \<open>The status codes of gRPC (google.golang.org/grpc/codes).\<close>

datatype code =
    OK | Canceled | Unknown | InvalidArgument | DeadlineExceeded | NotFound | AlreadyExists
  | PermissionDenied | ResourceExhausted | FailedPrecondition | Aborted | OutOfRange
  | Unimplemented | Internal | Unavailable | DataLoss | Unauthenticated

text \<open>The two errors of a done context (package context).\<close>

datatype ctx_err = CtxCanceled | CtxDeadlineExceeded

text \<open>
  \<open>'s\<close> is the type of a service's package-level error variables. \<open>Wrapf pre e post\<close> is
  \<open>fmt.Errorf\<close> with one \<open>%w\<close> verb, \<open>Status\<close> is \<open>status.Error(code, msg)\<close>.
\<close>

datatype 's error =
    Sentinel 's
  | Errorf string
  | Wrapf string "'s error" string
  | Status code string
  | CtxErr ctx_err

fun code_string :: "code \<Rightarrow> string" where
  "code_string OK = ''OK''"
| "code_string Canceled = ''Canceled''"
| "code_string Unknown = ''Unknown''"
| "code_string InvalidArgument = ''InvalidArgument''"
| "code_string DeadlineExceeded = ''DeadlineExceeded''"
| "code_string NotFound = ''NotFound''"
| "code_string AlreadyExists = ''AlreadyExists''"
| "code_string PermissionDenied = ''PermissionDenied''"
| "code_string ResourceExhausted = ''ResourceExhausted''"
| "code_string FailedPrecondition = ''FailedPrecondition''"
| "code_string Aborted = ''Aborted''"
| "code_string OutOfRange = ''OutOfRange''"
| "code_string Unimplemented = ''Unimplemented''"
| "code_string Internal = ''Internal''"
| "code_string Unavailable = ''Unavailable''"
| "code_string DataLoss = ''DataLoss''"
| "code_string Unauthenticated = ''Unauthenticated''"

fun ctx_err_string :: "ctx_err \<Rightarrow> string" where
  "ctx_err_string CtxCanceled = ''context canceled''"
| "ctx_err_string CtxDeadlineExceeded = ''context deadline exceeded''"

text \<open>\<open>err.Error()\<close>, given the texts of the package-level variables.\<close>

fun error_text :: "('s \<Rightarrow> string) \<Rightarrow> 's error \<Rightarrow> string" where
  "error_text txt (Sentinel s) = txt s"
| "error_text txt (Errorf m) = m"
| "error_text txt (Wrapf pre e post) = pre @ error_text txt e @ post"
| "error_text txt (Status c m) = ''rpc error: code = '' @ code_string c @ '' desc = '' @ m"
| "error_text txt (CtxErr c) = ctx_err_string c"

text \<open>\<open>errors.Is(err, target)\<close> for a package-level \<open>target\<close>: the chain of wrapped errors.\<close>

fun errors_Is :: "'s error \<Rightarrow> 's \<Rightarrow> bool" where
  "errors_Is (Sentinel s) t = (s = t)"
| "errors_Is (Wrapf pre e post) t = errors_Is e t"
| "errors_Is _ t = False"

section \<open>Strings\<close>

text \<open>
  The UTF-8 encodings of the code points that \<open>unicode.IsSpace\<close> accepts: the ASCII ones,
  U+0085, U+00A0, U+1680, U+2000 to U+200A, U+2028, U+2029, U+202F, U+205F and U+3000.
\<close>

definition space_runes :: "string list" where
  "space_runes =
     [[CHR 0x09], [CHR 0x0A], [CHR 0x0B], [CHR 0x0C], [CHR 0x0D], [CHR 0x20],
      [CHR 0xC2, CHR 0x85], [CHR 0xC2, CHR 0xA0], [CHR 0xE1, CHR 0x9A, CHR 0x80],
      [CHR 0xE2, CHR 0x80, CHR 0x80], [CHR 0xE2, CHR 0x80, CHR 0x81],
      [CHR 0xE2, CHR 0x80, CHR 0x82], [CHR 0xE2, CHR 0x80, CHR 0x83],
      [CHR 0xE2, CHR 0x80, CHR 0x84], [CHR 0xE2, CHR 0x80, CHR 0x85],
      [CHR 0xE2, CHR 0x80, CHR 0x86], [CHR 0xE2, CHR 0x80, CHR 0x87],
      [CHR 0xE2, CHR 0x80, CHR 0x88], [CHR 0xE2, CHR 0x80, CHR 0x89],
      [CHR 0xE2, CHR 0x80, CHR 0x8A], [CHR 0xE2, CHR 0x80, CHR 0xA8],
      [CHR 0xE2, CHR 0x80, CHR 0xA9], [CHR 0xE2, CHR 0x80, CHR 0xAF],
      [CHR 0xE2, CHR 0x81, CHR 0x9F], [CHR 0xE3, CHR 0x80, CHR 0x80]]"

text \<open>Removes from the front of a list, as long as one is there, any of the given words.\<close>

definition leading :: "'a list list \<Rightarrow> 'a list \<Rightarrow> 'a list option" where
  "leading ps s = find (\<lambda>p. p \<noteq> [] \<and> prefix p s) ps"

lemma leading_Some:
  assumes "leading ps s = Some p"
  shows "p \<in> set ps" and "p \<noteq> []" and "prefix p s" and "s \<noteq> []"
  using assms by (auto simp: leading_def find_Some_iff)

lemma leading_None_iff: "leading ps s = None \<longleftrightarrow> (\<forall>p \<in> set ps. p = [] \<or> \<not> prefix p s)"
  by (auto simp: leading_def find_None_iff)

lemma leading_shorter: "leading ps s = Some p \<Longrightarrow> length s - length p < length s"
  using leading_Some(2,4) [of ps s p] by (cases s; cases p) auto

function strip_words :: "'a list list \<Rightarrow> 'a list \<Rightarrow> 'a list" where
  "strip_words ps s =
     (case leading ps s of None \<Rightarrow> s | Some p \<Rightarrow> strip_words ps (drop (length p) s))"
  by pat_completeness auto
termination
  by (relation "measure (\<lambda>(ps, s). length s)") (auto intro: leading_shorter)

declare strip_words.simps [simp del]

definition TrimLeftSpace :: "string \<Rightarrow> string" where
  "TrimLeftSpace s = strip_words space_runes s"

definition TrimRightSpace :: "string \<Rightarrow> string" where
  "TrimRightSpace s = rev (strip_words (map rev space_runes) (rev s))"

definition TrimSpace :: "string \<Rightarrow> string" where
  "TrimSpace s = TrimRightSpace (TrimLeftSpace s)"

lemma strip_words_id: "leading ps s = None \<Longrightarrow> strip_words ps s = s"
  by (simp add: strip_words.simps [of ps s])

lemma leading_strip_words: "leading ps (strip_words ps s) = None"
proof (induction ps s rule: strip_words.induct)
  case (1 ps s)
  then show ?case
    by (cases "leading ps s") (simp_all add: strip_words.simps [of ps s])
qed

lemma suffix_strip_words: "suffix (strip_words ps s) s"
proof (induction ps s rule: strip_words.induct)
  case (1 ps s)
  show ?case
  proof (cases "leading ps s")
    case None
    then show ?thesis by (simp add: strip_words.simps [of ps s])
  next
    case (Some p)
    with 1 have "suffix (strip_words ps (drop (length p) s)) (drop (length p) s)" by blast
    then have "suffix (strip_words ps (drop (length p) s)) s"
      using suffix_drop suffix_order.trans by blast
    with Some show ?thesis by (simp add: strip_words.simps [of ps s])
  qed
qed

lemma leading_prefix: "leading ps s = None \<Longrightarrow> prefix t s \<Longrightarrow> leading ps t = None"
  by (meson leading_None_iff prefix_order.trans)

lemma TrimRightSpace_prefix: "prefix (TrimRightSpace s) s"
  using suffix_strip_words [of "map rev space_runes" "rev s"]
  by (simp add: TrimRightSpace_def suffix_to_prefix)

text \<open>Trimming twice is trimming once.\<close>

lemma TrimSpace_idem [simp]: "TrimSpace (TrimSpace s) = TrimSpace s"
proof -
  let ?t = "TrimSpace s"
  have "leading space_runes (TrimLeftSpace s) = None"
    by (simp add: TrimLeftSpace_def leading_strip_words)
  then have "leading space_runes ?t = None"
    unfolding TrimSpace_def by (rule leading_prefix) (rule TrimRightSpace_prefix)
  then have "TrimLeftSpace ?t = ?t"
    by (simp add: TrimLeftSpace_def strip_words_id)
  moreover have "TrimRightSpace ?t = ?t"
    by (simp add: TrimSpace_def TrimRightSpace_def leading_strip_words strip_words_id)
  ultimately show ?thesis by (simp add: TrimSpace_def)
qed

lemma TrimSpace_Nil [simp]: "TrimSpace [] = []"
  by (simp add: TrimSpace_def TrimLeftSpace_def TrimRightSpace_def strip_words_id leading_None_iff)

text \<open>\<open>strings.Contains(s, sub)\<close>.\<close>

fun Contains :: "string \<Rightarrow> string \<Rightarrow> bool" where
  "Contains [] sub = (sub = [])"
| "Contains (c # s) sub = (prefix sub (c # s) \<or> Contains s sub)"

lemma Contains_prefix: "prefix sub s \<Longrightarrow> Contains s sub"
  by (cases s) auto

lemma Contains_append: "Contains s sub \<Longrightarrow> Contains (t @ s) sub"
  by (induction t) auto

section \<open>Times\<close>

text \<open>
  A \<open>time.Time\<close> by its calendar fields in its own zone; \<open>tZone\<close> is the zone's offset in
  minutes east of UTC.
\<close>

record gotime =
  tYear :: nat
  tMonth :: nat
  tDay :: nat
  tHour :: nat
  tMin :: nat
  tSec :: nat
  tNsec :: nat
  tZone :: int

section \<open>Calls that leave the process\<close>

text \<open>
  A call to a service outside the repository takes effect and is answered, or is lost: before it
  took effect, or after (the effect is there, the caller sees an error). \<open>faults\<close> holds the
  outcomes of the calls to come, in order; an empty queue means that every call is answered.
\<close>

datatype fault = Lost_before string | Lost_after string

record env =
  faults :: "fault option list"

definition driver :: "('w env_scheme \<Rightarrow> (string + 'a) \<times> 'w env_scheme) \<Rightarrow>
    ('w env_scheme, string + 'a) state" where
  "driver act = State (\<lambda>w.
     let w' = w\<lparr>faults := tl (faults w)\<rparr>
     in case faults w of
          Some (Lost_before m) # _ \<Rightarrow> (Inl m, w')
        | Some (Lost_after m) # _ \<Rightarrow> (Inl m, snd (act w'))
        | _ \<Rightarrow> act w')"

lemma run_driver_ok [simp]:
  "faults w = [] \<Longrightarrow> run_state (driver act) w = act w"
  by (cases w) (simp add: driver_def)

text \<open>Every outcome of a call, as a rule: the three ways it can end.\<close>

lemma driver_cases:
  assumes "run_state (driver act) w = (r, w')"
  obtains (answered) "act (w\<lparr>faults := tl (faults w)\<rparr>) = (r, w')"
    | (lost_before) m where "r = Inl m" and "w' = w\<lparr>faults := tl (faults w)\<rparr>"
    | (lost_after) m r' where "r = Inl m" and "act (w\<lparr>faults := tl (faults w)\<rparr>) = (r', w')"
proof (cases "faults w")
  case Nil
  with assms have "act (w\<lparr>faults := tl (faults w)\<rparr>) = (r, w')"
    by (simp add: driver_def)
  then show thesis by (rule answered)
next
  case (Cons f fs)
  note q = Cons
  show thesis
  proof (cases f)
    case None
    with q assms have "act (w\<lparr>faults := tl (faults w)\<rparr>) = (r, w')"
      by (simp add: driver_def)
    then show thesis by (rule answered)
  next
    case (Some x)
    show thesis
    proof (cases x)
      case (Lost_before m)
      with q Some assms show thesis by (intro lost_before [of m]) (simp_all add: driver_def)
    next
      case (Lost_after m)
      with q Some assms show thesis
        by (intro lost_after [of m "fst (act (w\<lparr>faults := tl (faults w)\<rparr>))"])
          (simp_all add: driver_def prod_eq_iff)
    qed
  qed
qed

text \<open>A computation on a part of the state, run on the whole.\<close>

definition zoom :: "('s \<Rightarrow> 'w) \<Rightarrow> ('w \<Rightarrow> 's \<Rightarrow> 's) \<Rightarrow> ('w, 'a) state \<Rightarrow> ('s, 'a) state" where
  "zoom g p m = State (\<lambda>s. case run_state m (g s) of (a, w) \<Rightarrow> (a, p w s))"

lemma run_zoom [simp]:
  "run_state (zoom g p m) s = (case run_state m (g s) of (a, w) \<Rightarrow> (a, p w s))"
  by (simp add: zoom_def)

section \<open>Weakest preconditions\<close>

text \<open>
  \<open>wp m Q w\<close>: running \<open>m\<close> from \<open>w\<close> ends with a result and a state that satisfy
  \<open>Q\<close>. The equations push it through the monad; a law of a port becomes a rule for its call.
\<close>

definition wp :: "('w, 'a) state \<Rightarrow> ('a \<Rightarrow> 'w \<Rightarrow> bool) \<Rightarrow> 'w \<Rightarrow> bool" where
  "wp m Q w \<longleftrightarrow> Q (fst (run_state m w)) (snd (run_state m w))"

lemma wp_return [simp]: "wp (State_Monad.return a) Q w = Q a w"
  by (simp add: wp_def)

lemma wp_bind [simp]: "wp (State_Monad.bind m f) Q w = wp m (\<lambda>a. wp (f a) Q) w"
  by (simp add: wp_def split: prod.splits)

lemma wpI: "(\<And>a w'. run_state m w = (a, w') \<Longrightarrow> Q a w') \<Longrightarrow> wp m Q w"
  by (simp add: wp_def)

lemma wpD: "wp m Q w \<Longrightarrow> run_state m w = (a, w') \<Longrightarrow> Q a w'"
  by (simp add: wp_def)

lemma wp_mono: "wp m P w \<Longrightarrow> (\<And>a w'. P a w' \<Longrightarrow> Q a w') \<Longrightarrow> wp m Q w"
  by (simp add: wp_def)

text \<open>A call that may be lost: its effect is there or not, and an error says nothing.\<close>

lemma driver_wp:
  assumes "\<And>m. Q (Inl m) (w\<lparr>faults := tl (faults w)\<rparr>)"
    and "\<And>r w'. act (w\<lparr>faults := tl (faults w)\<rparr>) = (r, w') \<Longrightarrow> Q r w' \<and> (\<forall>m. Q (Inl m) w')"
  shows "wp (driver act) Q w"
  using assms by (intro wpI) (auto elim!: driver_cases)

text \<open>A statement that only reads.\<close>

lemma driver_read_wp:
  assumes "\<And>w. snd (act w) = w"
    and "\<And>m. Q (Inl m) (w\<lparr>faults := tl (faults w)\<rparr>)"
    and "Q (fst (act (w\<lparr>faults := tl (faults w)\<rparr>))) (w\<lparr>faults := tl (faults w)\<rparr>)"
  shows "wp (driver act) Q w"
  using assms by (intro driver_wp) (auto simp: prod_eq_iff)

section \<open>What a computation leaves alone\<close>

text \<open>
  \<open>keeps f m\<close>: running \<open>m\<close> does not change the part \<open>f\<close> of the state. The rules of
  \<open>go_frame\<close> follow the structure of a program.
\<close>

definition keeps :: "('w \<Rightarrow> 'b) \<Rightarrow> ('w, 'a) state \<Rightarrow> bool" where
  "keeps f m \<longleftrightarrow> (\<forall>w. f (snd (run_state m w)) = f w)"

lemma keepsD: "keeps f m \<Longrightarrow> run_state m w = (a, w') \<Longrightarrow> f w' = f w"
  unfolding keeps_def by (metis snd_conv)

lemma keeps_return [go_frame]: "keeps f (State_Monad.return a)"
  by (simp add: keeps_def)

lemma keeps_bind [go_frame]: "keeps f m \<Longrightarrow> (\<And>a. keeps f (k a)) \<Longrightarrow> keeps f (State_Monad.bind m k)"
  unfolding keeps_def by (simp split: prod.splits) (metis snd_conv)

lemma keeps_driver [go_frame]:
  assumes "\<And>w. f (snd (act w)) = f w" and "\<And>w q. f (w\<lparr>faults := q\<rparr>) = f w"
  shows "keeps f (driver act)"
  unfolding keeps_def using assms
  by (auto simp: driver_def Let_def split: list.splits option.splits fault.splits)

lemma keeps_if [go_frame]: "(b \<Longrightarrow> keeps f m) \<Longrightarrow> (\<not> b \<Longrightarrow> keeps f n) \<Longrightarrow> keeps f (if b then m else n)"
  by simp

lemma keeps_option [go_frame]:
  "keeps f m \<Longrightarrow> (\<And>a. keeps f (k a)) \<Longrightarrow> keeps f (case x of None \<Rightarrow> m | Some a \<Rightarrow> k a)"
  by (cases x) simp_all

lemma keeps_sum [go_frame]:
  "(\<And>a. keeps f (m a)) \<Longrightarrow> (\<And>a. keeps f (k a)) \<Longrightarrow> keeps f (case x of Inl a \<Rightarrow> m a | Inr a \<Rightarrow> k a)"
  by (cases x) simp_all

lemma keeps_bool [go_frame]:
  "keeps f m \<Longrightarrow> keeps f n \<Longrightarrow> keeps f (case b of True \<Rightarrow> m | False \<Rightarrow> n)"
  by (cases b) simp_all

lemma keeps_prod [go_frame]:
  "(\<And>a b. keeps f (k a b)) \<Longrightarrow> keeps f (case x of (a, b) \<Rightarrow> k a b)"
  by (cases x) simp

end
