(* ===== verification/Go_Json.thy ===== *)
theory Go_Json
  imports Go_Prelude
begin

text \<open>
  What the services use of \<open>encoding/json\<close>, \<open>strconv\<close> and the \<open>fmt\<close> verb \<open>%d\<close>:
  decimal numbers, the text of a JSON value as \<open>json.Marshal\<close> writes it, and the reading of a
  JSON text as \<open>json.Unmarshal\<close> does it. Strings are UTF-8 bytes: bytes that are not UTF-8
  become U+FFFD, in both directions, as in Go. The theory's result is the round trip: a value
  whose text Marshal writes is read back, with \<open>to_valid\<close> applied to its strings.
\<close>

section \<open>Decimal numbers\<close>

definition digit :: "nat \<Rightarrow> char" where
  "digit d = char_of (48 + d)"

fun nat_text :: "nat \<Rightarrow> string" where
  "nat_text n = (if n < 10 then [digit n] else nat_text (n div 10) @ [digit (n mod 10)])"

declare nat_text.simps [simp del]

definition int_text :: "int \<Rightarrow> string" where
  "int_text i = (if i < 0 then CHR ''-'' # nat_text (nat (- i)) else nat_text (nat i))"

definition is_digit :: "char \<Rightarrow> bool" where
  "is_digit c \<longleftrightarrow> 48 \<le> (of_char c :: nat) \<and> (of_char c :: nat) \<le> 57"

definition digit_value :: "char \<Rightarrow> nat" where
  "digit_value c = of_char c - 48"

definition nat_value :: "string \<Rightarrow> nat" where
  "nat_value s = foldl (\<lambda>n c. 10 * n + digit_value c) 0 s"

lemma digit_roundtrip [simp]: "d < 10 \<Longrightarrow> is_digit (digit d) \<and> digit_value (digit d) = d"
  by (simp add: digit_def is_digit_def digit_value_def)

lemma nat_text_digits: "list_all is_digit (nat_text n)"
proof (induction n rule: nat_text.induct)
  case (1 n)
  then show ?case by (cases "n < 10") (simp_all add: nat_text.simps [of n])
qed

lemma nat_text_not_Nil [simp]: "nat_text n \<noteq> []"
  by (simp add: nat_text.simps [of n])

lemma nat_value_nat_text [simp]: "nat_value (nat_text n) = n"
proof (induction n rule: nat_text.induct)
  case (1 n)
  then show ?case
    by (cases "n < 10") (simp_all add: nat_text.simps [of n] nat_value_def)
qed

text \<open>A number of more than one digit does not start with a zero.\<close>

lemma nat_text_hd: "10 \<le> n \<Longrightarrow> hd (nat_text n) \<noteq> CHR ''0''"
proof (induction n rule: nat_text.induct)
  case (1 n)
  show ?case
  proof (cases "n div 10 < 10")
    case True
    with 1 have "n div 10 \<noteq> 0" by auto
    have "digit (n div 10) \<noteq> CHR ''0''"
    proof
      assume "digit (n div 10) = CHR ''0''"
      then have "digit_value (digit (n div 10)) = digit_value (CHR ''0'')" by simp
      also have "\<dots> = 0" by (simp add: digit_value_def)
      finally show False using True \<open>n div 10 \<noteq> 0\<close> digit_roundtrip by simp
    qed
    with 1 True show ?thesis
      by (simp add: nat_text.simps [of n] nat_text.simps [of "n div 10"])
  next
    case False
    with 1 show ?thesis by (simp add: nat_text.simps [of n])
  qed
qed

text \<open>\<open>strconv.ParseInt(s, 10, 64)\<close> and \<open>strconv.Atoi\<close>: an optional sign and digits, in range.\<close>

definition ParseInt64 :: "string \<Rightarrow> int64 option" where
  "ParseInt64 s =
     (let neg = (case s of c # _ \<Rightarrow> c = CHR ''-'' | [] \<Rightarrow> False);
          ds = (case s of c # r \<Rightarrow> if c = CHR ''-'' \<or> c = CHR ''+'' then r else s | [] \<Rightarrow> []);
          v = (if neg then - int (nat_value ds) else int (nat_value ds))
      in if ds \<noteq> [] \<and> list_all is_digit ds \<and> - (2 ^ 63) \<le> v \<and> v < 2 ^ 63
         then Some (word_of_int v) else None)"

lemma is_digit_not_sign: "is_digit c \<Longrightarrow> c \<noteq> CHR ''-'' \<and> c \<noteq> CHR ''+''"
  by (auto simp: is_digit_def)

lemma nat_text_no_sign:
  obtains c r where "nat_text n = c # r" and "c \<noteq> CHR ''-''" and "c \<noteq> CHR ''+''"
proof (cases "nat_text n")
  case (Cons c r)
  with nat_text_digits [of n] have "is_digit c" by simp
  with Cons that show thesis using is_digit_not_sign by blast
qed simp

theorem ParseInt64_int_text: "ParseInt64 (int_text (sint x)) = Some x"
proof -
  have r: "- (2 ^ 63) \<le> sint x" "sint x < 2 ^ 63"
    using sint_ge [of x] sint_lt [of x] by simp_all
  show ?thesis
  proof (cases "sint x < 0")
    case True
    with r show ?thesis
      by (simp add: ParseInt64_def int_text_def Let_def nat_text_digits)
  next
    case False
    obtain c s where t: "nat_text (nat (sint x)) = c # s" "c \<noteq> CHR ''-''" "c \<noteq> CHR ''+''"
      by (rule nat_text_no_sign)
    have "nat_value (c # s) = nat (sint x)" and "list_all is_digit (c # s)"
      using nat_value_nat_text [of "nat (sint x)"] nat_text_digits [of "nat (sint x)"] t(1) by simp_all
    with False r t show ?thesis
      by (simp add: ParseInt64_def int_text_def Let_def)
  qed
qed

section \<open>UTF-8\<close>

definition byte :: "char \<Rightarrow> nat" where
  "byte c = of_char c"

definition within :: "nat \<Rightarrow> nat \<Rightarrow> char \<Rightarrow> bool" where
  "within lo hi c \<longleftrightarrow> lo \<le> byte c \<and> byte c \<le> hi"

text \<open>
  The length of the UTF-8 encoding at the head of a byte list, as \<open>utf8.DecodeRune\<close> accepts
  it: 0 where the head is no encoding.
\<close>

fun utf8_len :: "string \<Rightarrow> nat" where
  "utf8_len [] = 0"
| "utf8_len (a # s) =
     (if byte a < 0x80 then 1
      else case s of
        [] \<Rightarrow> 0
      | b # s' \<Rightarrow>
          if within 0xC2 0xDF a then (if within 0x80 0xBF b then 2 else 0)
          else case s' of
            [] \<Rightarrow> 0
          | c # s'' \<Rightarrow>
              if within 0xE0 0xEF a then
                (if (if byte a = 0xE0 then within 0xA0 0xBF b
                     else if byte a = 0xED then within 0x80 0x9F b
                     else within 0x80 0xBF b) \<and> within 0x80 0xBF c then 3 else 0)
              else case s'' of
                [] \<Rightarrow> 0
              | d # _ \<Rightarrow>
                  if within 0xF0 0xF4 a \<and>
                     (if byte a = 0xF0 then within 0x90 0xBF b
                      else if byte a = 0xF4 then within 0x80 0x8F b
                      else within 0x80 0xBF b) \<and> within 0x80 0xBF c \<and> within 0x80 0xBF d
                  then 4 else 0)"

text \<open>The UTF-8 encoding of a code point.\<close>

definition utf8_enc :: "nat \<Rightarrow> string" where
  "utf8_enc r =
     (if r < 0x80 then [char_of r]
      else if r < 0x800 then [char_of (0xC0 + r div 64), char_of (0x80 + r mod 64)]
      else if r < 0x10000 then
        [char_of (0xE0 + r div 4096), char_of (0x80 + r div 64 mod 64), char_of (0x80 + r mod 64)]
      else
        [char_of (0xF0 + r div 262144), char_of (0x80 + r div 4096 mod 64),
         char_of (0x80 + r div 64 mod 64), char_of (0x80 + r mod 64)])"

definition replacement :: string where
  "replacement = [CHR 0xEF, CHR 0xBF, CHR 0xBD]"

text \<open>A byte list with every byte that starts no encoding replaced by U+FFFD.\<close>

function to_valid :: "string \<Rightarrow> string" where
  "to_valid [] = []"
| "to_valid (c # s) =
     (if utf8_len (c # s) = 0 then replacement @ to_valid s
      else take (utf8_len (c # s)) (c # s) @ to_valid (drop (utf8_len (c # s) - 1) s))"
  by pat_completeness auto
termination
  by (relation "measure length") auto

function valid_utf8 :: "string \<Rightarrow> bool" where
  "valid_utf8 [] = True"
| "valid_utf8 (c # s) =
     (utf8_len (c # s) \<noteq> 0 \<and> valid_utf8 (drop (utf8_len (c # s) - 1) s))"
  by pat_completeness auto
termination
  by (relation "measure length") auto

declare to_valid.simps(2) [simp del] valid_utf8.simps(2) [simp del] utf8_len.simps(2) [simp del]

lemma utf8_len_le: "utf8_len s \<le> length s"
  by (cases s) (auto simp: utf8_len.simps(2) split: list.splits)

lemma take_utf8_len:
  "utf8_len (c # s) \<noteq> 0 \<Longrightarrow> take (utf8_len (c # s)) (c # s) @ drop (utf8_len (c # s) - 1) s = c # s"
  by (cases "utf8_len (c # s)") simp_all

text \<open>Whether the head is an encoding is decided by the encoding itself.\<close>

lemma utf8_len_take: "utf8_len s = n \<Longrightarrow> n \<noteq> 0 \<Longrightarrow> utf8_len (take n s @ t) = n"
  by (cases s) (auto simp: utf8_len.simps(2) split: list.splits if_splits)

lemma to_valid_valid: "valid_utf8 s \<Longrightarrow> to_valid s = s"
proof (induction s rule: valid_utf8.induct)
  case (2 c s)
  then show ?case
    using take_utf8_len [of c s] by (simp add: valid_utf8.simps(2) to_valid.simps(2))
qed simp

lemma ascii_valid: "\<forall>c \<in> set s. byte c < 0x80 \<Longrightarrow> valid_utf8 s"
  by (induction s) (simp_all add: valid_utf8.simps(2) utf8_len.simps(2))

section \<open>Strings\<close>

definition hex_digits :: string where
  "hex_digits = ''0123456789abcdef''"

definition hex_digit :: "nat \<Rightarrow> char" where
  "hex_digit d = hex_digits ! d"

definition hex_value :: "char \<Rightarrow> nat option" where
  "hex_value c =
     (if is_digit c then Some (byte c - 48)
      else if within 97 102 c then Some (byte c - 87)
      else if within 65 70 c then Some (byte c - 55)
      else None)"

text \<open>Four hexadecimal digits, as after \<open>\u\<close>.\<close>

fun hex4 :: "string \<Rightarrow> (nat \<times> string) option" where
  "hex4 (a # b # c # d # r) =
     (case (hex_value a, hex_value b, hex_value c, hex_value d) of
        (Some p, Some q, Some s, Some t) \<Rightarrow> Some (((p * 16 + q) * 16 + s) * 16 + t, r)
      | _ \<Rightarrow> None)"
| "hex4 _ = None"

abbreviation (input) quote_char :: char where "quote_char \<equiv> CHR 0x22"
abbreviation (input) backslash :: char where "backslash \<equiv> CHR 0x5C"

text \<open>An ASCII byte as Marshal writes it inside a string (HTML characters are escaped).\<close>

definition esc_ascii :: "char \<Rightarrow> string" where
  "esc_ascii c =
     (if c = quote_char \<or> c = backslash then [backslash, c]
      else if byte c = 8 then [backslash, CHR ''b'']
      else if byte c = 12 then [backslash, CHR ''f'']
      else if byte c = 10 then [backslash, CHR ''n'']
      else if byte c = 13 then [backslash, CHR ''r'']
      else if byte c = 9 then [backslash, CHR ''t'']
      else if byte c < 0x20 \<or> c = CHR ''<'' \<or> c = CHR ''>'' \<or> c = CHR ''&''
      then [backslash, CHR ''u'', CHR ''0'', CHR ''0'', hex_digit (byte c div 16),
            hex_digit (byte c mod 16)]
      else [c])"

function json_esc :: "string \<Rightarrow> string" where
  "json_esc [] = []"
| "json_esc (c # s) =
     (if byte c < 0x80 then esc_ascii c @ json_esc s
      else if utf8_len (c # s) = 0 then backslash # ''ufffd'' @ json_esc s
      else if take 3 (c # s) = [CHR 0xE2, CHR 0x80, CHR 0xA8]
      then backslash # ''u2028'' @ json_esc (drop 2 s)
      else if take 3 (c # s) = [CHR 0xE2, CHR 0x80, CHR 0xA9]
      then backslash # ''u2029'' @ json_esc (drop 2 s)
      else take (utf8_len (c # s)) (c # s) @ json_esc (drop (utf8_len (c # s) - 1) s))"
  by pat_completeness auto
termination
  by (relation "measure length") auto

declare json_esc.simps(2) [simp del]

definition json_string :: "string \<Rightarrow> string" where
  "json_string s = quote_char # json_esc s @ [quote_char]"

text \<open>Reading: what follows a backslash, and a whole string up to its closing quote.\<close>

definition scan_escape :: "string \<Rightarrow> (string \<times> string) option" where
  "scan_escape s =
     (case s of
        [] \<Rightarrow> None
      | c # r \<Rightarrow>
          if c = quote_char \<or> c = backslash \<or> c = CHR ''/'' then Some ([c], r)
          else if c = CHR ''b'' then Some ([CHR 0x08], r)
          else if c = CHR ''f'' then Some ([CHR 0x0C], r)
          else if c = CHR ''n'' then Some ([CHR 0x0A], r)
          else if c = CHR ''r'' then Some ([CHR 0x0D], r)
          else if c = CHR ''t'' then Some ([CHR 0x09], r)
          else if c = CHR ''u'' then
            (case hex4 r of
               None \<Rightarrow> None
             | Some (x, r1) \<Rightarrow>
                 if 0xD800 \<le> x \<and> x < 0xE000 then
                   (case r1 of
                      b # u # r2 \<Rightarrow>
                        (case hex4 r2 of
                           Some (y, r3) \<Rightarrow>
                             if b = backslash \<and> u = CHR ''u'' \<and> x < 0xDC00 \<and> 0xDC00 \<le> y \<and> y < 0xE000
                             then Some (utf8_enc (0x10000 + (x - 0xD800) * 0x400 + (y - 0xDC00)), r3)
                             else Some (replacement, r1)
                         | None \<Rightarrow> Some (replacement, r1))
                    | _ \<Rightarrow> Some (replacement, r1))
                 else Some (utf8_enc x, r1))
          else None)"

lemma hex4_shorter: "hex4 s = Some (x, r) \<Longrightarrow> length r < length s"
  by (induction s rule: hex4.induct) (auto split: option.splits)

lemma scan_escape_shorter: "scan_escape s = Some (t, r) \<Longrightarrow> length r < length s"
  by (auto simp: scan_escape_def dest!: hex4_shorter split: list.splits if_splits option.splits)

function scan_string :: "string \<Rightarrow> (string \<times> string) option" where
  "scan_string [] = None"
| "scan_string (c # s) =
     (if c = quote_char then Some ([], s)
      else if c = backslash then
        (case scan_escape s of
           None \<Rightarrow> None
         | Some (t, r) \<Rightarrow> map_option (apfst (\<lambda>u. t @ u)) (scan_string r))
      else if byte c < 0x20 then None
      else if utf8_len (c # s) = 0
      then map_option (apfst (\<lambda>u. replacement @ u)) (scan_string s)
      else map_option (apfst (\<lambda>u. take (utf8_len (c # s)) (c # s) @ u))
             (scan_string (drop (utf8_len (c # s) - 1) s)))"
  by pat_completeness auto
termination
  by (relation "measure length") (auto dest!: scan_escape_shorter)

declare scan_string.simps(2) [simp del]

lemma scan_string_end [simp]: "scan_string (quote_char # r) = Some ([], r)"
  by (simp add: scan_string.simps(2))

lemma scan_string_escape:
  "scan_escape s = Some (t, r) \<Longrightarrow>
   scan_string (backslash # s) = map_option (apfst (\<lambda>u. t @ u)) (scan_string r)"
  by (simp add: scan_string.simps(2))

lemma hex_digit_value: "d < 16 \<Longrightarrow> hex_value (hex_digit d) = Some d"
proof -
  have "list_all (\<lambda>d. hex_value (hex_digit d) = Some d) [0..<16]"
    by code_simp
  then show "d < 16 \<Longrightarrow> hex_value (hex_digit d) = Some d" by (simp add: list_all_iff)
qed

lemma char_of_byte [simp]: "char_of (byte c) = c"
  by (simp add: byte_def)

lemma byte_code: "byte c = n \<Longrightarrow> c = char_of n"
  by auto

lemma append_Cons_fun: "(@) (x # xs) = (\<lambda>u. x # xs @ u)"
  by auto

lemma scan_escape_ctrl:
  assumes "byte c < 0x80"
  shows "scan_escape (CHR ''u'' # CHR ''0'' # CHR ''0'' # hex_digit (byte c div 16) #
    hex_digit (byte c mod 16) # r) = Some ([c], r)"
proof -
  have "hex_value (CHR ''0'') = Some 0" by code_simp
  then have "hex4 (CHR ''0'' # CHR ''0'' # hex_digit (byte c div 16) # hex_digit (byte c mod 16) # r)
      = Some (byte c, r)"
    using assms by (simp add: hex_digit_value)
  with assms show ?thesis by (simp add: scan_escape_def utf8_enc_def)
qed

lemma scan_esc_ascii:
  assumes "byte c < 0x80"
  shows "scan_string (esc_ascii c @ r) = map_option (apfst (\<lambda>u. c # u)) (scan_string r)"
proof -
  have eqs: "byte c = 8 \<Longrightarrow> c = CHR 0x08" "byte c = 12 \<Longrightarrow> c = CHR 0x0C" "byte c = 10 \<Longrightarrow> c = CHR 0x0A"
    "byte c = 13 \<Longrightarrow> c = CHR 0x0D" "byte c = 9 \<Longrightarrow> c = CHR 0x09"
    by (drule byte_code, simp add: char_of_def bit_0)+
  note esc = scan_string_escape [where t = "[c]" and r = r]
  show ?thesis
  proof (cases "esc_ascii c = [c]")
    case True
    then have "c \<noteq> quote_char" "c \<noteq> backslash" "\<not> byte c < 0x20"
      by (auto simp: esc_ascii_def split: if_splits)
    with True assms show ?thesis
      by (simp add: scan_string.simps(2) utf8_len.simps(2) append_Cons_fun)
  next
    case False
    then show ?thesis
      using assms eqs scan_escape_ctrl [OF assms, of r]
      by (auto simp: esc_ascii_def esc scan_escape_def [of "_ # r"] split: if_splits)
  qed
qed

lemma scan_utf8:
  assumes "byte c \<ge> 0x80" and "utf8_len (c # s) = n" and "n \<noteq> 0"
  shows "scan_string (take n (c # s) @ r) = map_option (apfst (\<lambda>u. take n (c # s) @ u)) (scan_string r)"
proof -
  obtain m where n: "n = Suc m" using assms(3) by (cases n) auto
  have "m \<le> length s" using utf8_len_le [of "c # s"] assms(2) n by simp
  moreover have "utf8_len (c # take m s @ r) = Suc m"
    using utf8_len_take [OF assms(2,3), of r] n by simp
  moreover have "c \<noteq> quote_char" "c \<noteq> backslash" using assms(1) by (auto simp: byte_def)
  ultimately show ?thesis using assms(1) n by (simp add: scan_string.simps(2) append_Cons_fun)
qed

text \<open>The escapes Marshal writes for U+FFFD, U+2028 and U+2029.\<close>

lemma hex_values:
  "hex_value (CHR ''f'') = Some 15" "hex_value (CHR ''d'') = Some 13" "hex_value (CHR ''2'') = Some 2"
  "hex_value (CHR ''0'') = Some 0" "hex_value (CHR ''8'') = Some 8" "hex_value (CHR ''9'') = Some 9"
  by code_simp+

lemma utf8_enc_escapes:
  "utf8_enc 0xFFFD = replacement" "utf8_enc 0x2028 = [CHR 0xE2, CHR 0x80, CHR 0xA8]"
  "utf8_enc 0x2029 = [CHR 0xE2, CHR 0x80, CHR 0xA9]"
  by (simp_all add: utf8_enc_def replacement_def char_of_def bit_0)

lemma scan_escape_fffd:
  "scan_escape (CHR ''u'' # CHR ''f'' # CHR ''f'' # CHR ''f'' # CHR ''d'' # r) = Some (replacement, r)"
  using utf8_enc_escapes(1) by (simp add: scan_escape_def hex_values)

lemma scan_escape_2028:
  "scan_escape (CHR ''u'' # CHR ''2'' # CHR ''0'' # CHR ''2'' # CHR ''8'' # r)
   = Some ([CHR 0xE2, CHR 0x80, CHR 0xA8], r)"
  using utf8_enc_escapes(2) by (simp add: scan_escape_def hex_values)

lemma scan_escape_2029:
  "scan_escape (CHR ''u'' # CHR ''2'' # CHR ''0'' # CHR ''2'' # CHR ''9'' # r)
   = Some ([CHR 0xE2, CHR 0x80, CHR 0xA9], r)"
  using utf8_enc_escapes(3) by (simp add: scan_escape_def hex_values)

lemma utf8_len_2028: "utf8_len (CHR 0xE2 # CHR 0x80 # CHR 0xA8 # t) = 3"
  and utf8_len_2029: "utf8_len (CHR 0xE2 # CHR 0x80 # CHR 0xA9 # t) = 3"
  by (simp_all add: utf8_len.simps(2) within_def byte_def)

lemma json_esc_ascii: "byte c < 0x80 \<Longrightarrow> json_esc (c # s) = esc_ascii c @ json_esc s"
  by (simp add: json_esc.simps(2))

lemma json_esc_bad:
  "byte c \<ge> 0x80 \<Longrightarrow> utf8_len (c # s) = 0 \<Longrightarrow> json_esc (c # s) = backslash # ''ufffd'' @ json_esc s"
  by (simp add: json_esc.simps(2))

lemma json_esc_2028:
  "json_esc (CHR 0xE2 # CHR 0x80 # CHR 0xA8 # t) = backslash # ''u2028'' @ json_esc t"
  and json_esc_2029:
  "json_esc (CHR 0xE2 # CHR 0x80 # CHR 0xA9 # t) = backslash # ''u2029'' @ json_esc t"
  by (simp_all add: json_esc.simps(2) [of "CHR 0xE2"] utf8_len_2028 utf8_len_2029)
    (simp_all add: byte_def)

lemma json_esc_multi:
  "byte c \<ge> 0x80 \<Longrightarrow> utf8_len (c # s) \<noteq> 0 \<Longrightarrow>
   take 3 (c # s) \<noteq> [CHR 0xE2, CHR 0x80, CHR 0xA8] \<Longrightarrow>
   take 3 (c # s) \<noteq> [CHR 0xE2, CHR 0x80, CHR 0xA9] \<Longrightarrow>
   json_esc (c # s) = take (utf8_len (c # s)) (c # s) @ json_esc (drop (utf8_len (c # s) - 1) s)"
  by (subst json_esc.simps(2)) (simp only: not_less [symmetric] if_False simp_thms)

text \<open>A string that Marshal wrote is read back, with its invalid bytes replaced.\<close>

theorem scan_json_esc: "scan_string (json_esc s @ quote_char # r) = Some (to_valid s, r)"
proof (induction s rule: json_esc.induct)
  case (2 c s)
  consider (ascii) "byte c < 0x80"
    | (bad) "byte c \<ge> 0x80" "utf8_len (c # s) = 0"
    | (ls) "byte c \<ge> 0x80" "utf8_len (c # s) \<noteq> 0" "take 3 (c # s) = [CHR 0xE2, CHR 0x80, CHR 0xA8]"
    | (ps) "byte c \<ge> 0x80" "utf8_len (c # s) \<noteq> 0" "take 3 (c # s) = [CHR 0xE2, CHR 0x80, CHR 0xA9]"
    | (multi) "byte c \<ge> 0x80" "utf8_len (c # s) \<noteq> 0" "take 3 (c # s) \<noteq> [CHR 0xE2, CHR 0x80, CHR 0xA8]"
        "take 3 (c # s) \<noteq> [CHR 0xE2, CHR 0x80, CHR 0xA9]"
    by force
  then show ?case
  proof cases
    case ascii
    then show ?thesis
      using 2 by (simp add: json_esc_ascii scan_esc_ascii to_valid.simps(2) utf8_len.simps(2))
  next
    case bad
    with 2 show ?thesis
      by (simp add: json_esc_bad scan_string_escape [OF scan_escape_fffd] to_valid.simps(2))
  next
    case ls
    then obtain t where s: "c = CHR 0xE2" "s = CHR 0x80 # CHR 0xA8 # t"
      by (cases s; cases "tl s") auto
    have "byte c \<ge> 0x80" "utf8_len (c # s) \<noteq> 0"
      using ls(1,2) by simp_all
    then have "scan_string (json_esc t @ quote_char # r) = Some (to_valid t, r)"
      using 2(3) ls(3) s by simp
    then show ?thesis
      by (simp add: s json_esc_2028 scan_string_escape [OF scan_escape_2028] to_valid.simps(2)
          utf8_len_2028 append_Cons_fun)
  next
    case ps
    then obtain t where s: "c = CHR 0xE2" "s = CHR 0x80 # CHR 0xA9 # t"
      by (cases s; cases "tl s") auto
    have "byte c \<ge> 0x80" "utf8_len (c # s) \<noteq> 0"
      using ps(1,2) by simp_all
    then have "scan_string (json_esc t @ quote_char # r) = Some (to_valid t, r)"
      using 2(4) ps(3) s by simp
    then show ?thesis
      by (simp add: s json_esc_2029 scan_string_escape [OF scan_escape_2029] to_valid.simps(2)
          utf8_len_2029 append_Cons_fun)
  next
    case multi
    have "scan_string (json_esc (drop (utf8_len (c # s) - 1) s) @ quote_char # r)
        = Some (to_valid (drop (utf8_len (c # s) - 1) s), r)"
      using 2(5) multi by simp
    then show ?thesis
      by (simp add: json_esc_multi [OF multi] scan_utf8 [OF multi(1) refl multi(2)] to_valid.simps(2)
          multi(2) del: take_Suc_Cons)
  qed
qed simp

section \<open>Values\<close>

text \<open>A JSON value; a number is kept as its literal, as \<open>json.Number\<close> does.\<close>

datatype json =
    JNull | JBool bool | JNum string | JStr string | JArr "json list" | JObj "(string \<times> json) list"

fun join :: "string list \<Rightarrow> string" where
  "join [] = []"
| "join [t] = t"
| "join (t # ts) = t @ CHR '','' # join ts"

text \<open>\<open>json.Marshal\<close>: the compact text of a value.\<close>

fun render :: "json \<Rightarrow> string" where
  "render JNull = ''null''"
| "render (JBool b) = (if b then ''true'' else ''false'')"
| "render (JNum t) = t"
| "render (JStr s) = json_string s"
| "render (JArr vs) = CHR ''['' # join (map render vs) @ '']''"
| "render (JObj kvs) =
     CHR ''{'' # join (map (\<lambda>(k, v). json_string k @ CHR '':'' # render v) kvs) @ ''}''"

definition is_ws :: "char \<Rightarrow> bool" where
  "is_ws c \<longleftrightarrow> c = CHR 0x20 \<or> c = CHR 0x09 \<or> c = CHR 0x0D \<or> c = CHR 0x0A"

definition skip_ws :: "string \<Rightarrow> string" where
  "skip_ws s = dropWhile is_ws s"

text \<open>A number literal: sign, integer part without leading zeros, fraction, exponent.\<close>

definition scan_int_part :: "string \<Rightarrow> (string \<times> string) option" where
  "scan_int_part s =
     (case s of
        [] \<Rightarrow> None
      | c # r \<Rightarrow>
          if c = CHR ''0'' then Some ([c], r)
          else if is_digit c then Some (takeWhile is_digit s, dropWhile is_digit s)
          else None)"

definition scan_frac :: "string \<Rightarrow> (string \<times> string) option" where
  "scan_frac s =
     (case s of
        [] \<Rightarrow> Some ([], s)
      | c # r \<Rightarrow>
          if c = CHR ''.'' then
            (if takeWhile is_digit r = [] then None
             else Some (c # takeWhile is_digit r, dropWhile is_digit r))
          else Some ([], s))"

definition scan_exp :: "string \<Rightarrow> (string \<times> string) option" where
  "scan_exp s =
     (case s of
        [] \<Rightarrow> Some ([], s)
      | c # r \<Rightarrow>
          if c = CHR ''e'' \<or> c = CHR ''E'' then
            (let sign = (case r of d # _ \<Rightarrow> if d = CHR ''+'' \<or> d = CHR ''-'' then [d] else [] | [] \<Rightarrow> []);
                 r' = drop (length sign) r
             in if takeWhile is_digit r' = [] then None
                else Some (c # sign @ takeWhile is_digit r', dropWhile is_digit r'))
          else Some ([], s))"

definition scan_number :: "string \<Rightarrow> (string \<times> string) option" where
  "scan_number s =
     (let sign = (case s of c # _ \<Rightarrow> if c = CHR ''-'' then [c] else [] | [] \<Rightarrow> [])
      in case scan_int_part (drop (length sign) s) of
           None \<Rightarrow> None
         | Some (i, r) \<Rightarrow>
             (case scan_frac r of
                None \<Rightarrow> None
              | Some (f, r') \<Rightarrow>
                  (case scan_exp r' of
                     None \<Rightarrow> None
                   | Some (e, r'') \<Rightarrow> Some (sign @ i @ f @ e, r''))))"

definition scan_literal :: "string \<Rightarrow> (json \<times> string) option" where
  "scan_literal s =
     (if prefix ''true'' s then Some (JBool True, drop 4 s)
      else if prefix ''false'' s then Some (JBool False, drop 5 s)
      else if prefix ''null'' s then Some (JNull, drop 4 s)
      else map_option (apfst JNum) (scan_number s))"

text \<open>An object's key and its colon.\<close>

definition read_key :: "string \<Rightarrow> (string \<times> string) option" where
  "read_key s =
     (case skip_ws s of
        [] \<Rightarrow> None
      | c # r \<Rightarrow>
          if c \<noteq> quote_char then None
          else
            (case scan_string r of
               None \<Rightarrow> None
             | Some (k, r1) \<Rightarrow>
                 (case skip_ws r1 of
                    [] \<Rightarrow> None
                  | d # r2 \<Rightarrow> if d = CHR '':'' then Some (k, r2) else None)))"

lemma skip_ws_le: "length (skip_ws s) \<le> length s"
  by (simp add: skip_ws_def length_dropWhile_le)

lemma skip_ws_Cons: "skip_ws s = c # r \<Longrightarrow> length r < length s"
  using skip_ws_le [of s] by simp

lemma scan_string_shorter: "scan_string s = Some (t, r) \<Longrightarrow> length r < length s"
proof (induction s arbitrary: t r rule: length_induct)
  case (1 s)
  then have IH: "\<And>s' t' r'. length s' < length s \<Longrightarrow> scan_string s' = Some (t', r') \<Longrightarrow> length r' < length s"
    by (meson less_trans)
  show ?case
  proof (cases s)
    case (Cons c s')
    have "length r' < Suc (length s')" if "scan_string x = Some (t', r')" "length x \<le> length s'" for x t' r'
      using IH [of x t' r'] that Cons by simp
    with 1(2) Cons show ?thesis
      by (auto simp: scan_string.simps(2) split: if_splits option.splits
          dest!: scan_escape_shorter intro: less_imp_le)
  qed (use 1 in simp)
qed

lemma read_key_shorter: "read_key s = Some (k, r) \<Longrightarrow> length r < length s"
  by (auto simp: read_key_def split: list.splits option.splits if_splits
      dest!: skip_ws_Cons scan_string_shorter)

lemma dropWhile_shorter: "takeWhile p s \<noteq> [] \<Longrightarrow> length (dropWhile p s) < length s"
  by (cases s) (auto simp: le_imp_less_Suc length_dropWhile_le split: if_splits)

lemma scan_int_part_shorter: "scan_int_part s = Some (i, r) \<Longrightarrow> length r < length s"
  by (auto simp: scan_int_part_def le_imp_less_Suc length_dropWhile_le split: list.splits if_splits)

lemma scan_frac_le: "scan_frac s = Some (i, r) \<Longrightarrow> length r \<le> length s"
  by (auto simp: scan_frac_def le_SucI length_dropWhile_le split: list.splits if_splits)

lemma scan_exp_le: "scan_exp s = Some (i, r) \<Longrightarrow> length r \<le> length s"
  by (auto simp: scan_exp_def Let_def le_SucI length_dropWhile_le split: list.splits if_splits)

lemma scan_literal_shorter: "scan_literal s = Some (v, r) \<Longrightarrow> length r < length s"
  by (auto simp: scan_literal_def scan_number_def Let_def split: if_splits option.splits list.splits
      dest!: scan_int_part_shorter scan_frac_le scan_exp_le prefix_length_le)

text \<open>
  The scanner's stack: the arrays and objects that are open, with what they hold so far. Go
  refuses a text that nests deeper than 10000.
\<close>

datatype frame = InArr "json list" | InObj "(string \<times> json) list" string

function scan :: "frame list \<Rightarrow> json option \<Rightarrow> string \<Rightarrow> (json \<times> string) option" where
  "scan st None s =
     (case skip_ws s of
        [] \<Rightarrow> None
      | c # r \<Rightarrow>
          if c = CHR ''{'' then
            (if 10000 \<le> length st then None
             else
               (case skip_ws r of
                  [] \<Rightarrow> None
                | d # r' \<Rightarrow>
                    if d = CHR ''}'' then scan st (Some (JObj [])) r'
                    else (case read_key r of
                            None \<Rightarrow> None
                          | Some (k, r1) \<Rightarrow> scan (InObj [] k # st) None r1)))
          else if c = CHR ''['' then
            (if 10000 \<le> length st then None
             else
               (case skip_ws r of
                  [] \<Rightarrow> None
                | d # r' \<Rightarrow>
                    if d = CHR '']'' then scan st (Some (JArr [])) r'
                    else scan (InArr [] # st) None r))
          else if c = quote_char then
            (case scan_string r of
               None \<Rightarrow> None
             | Some (t, r1) \<Rightarrow> scan st (Some (JStr t)) r1)
          else
            (case scan_literal (c # r) of
               None \<Rightarrow> None
             | Some (v, r1) \<Rightarrow> scan st (Some v) r1))"
| "scan [] (Some v) s = Some (v, s)"
| "scan (InArr vs # st) (Some v) s =
     (case skip_ws s of
        [] \<Rightarrow> None
      | c # r \<Rightarrow>
          if c = CHR '','' then scan (InArr (vs @ [v]) # st) None r
          else if c = CHR '']'' then scan st (Some (JArr (vs @ [v]))) r
          else None)"
| "scan (InObj kvs k # st) (Some v) s =
     (case skip_ws s of
        [] \<Rightarrow> None
      | c # r \<Rightarrow>
          if c = CHR '','' then
            (case read_key r of
               None \<Rightarrow> None
             | Some (k', r1) \<Rightarrow> scan (InObj (kvs @ [(k, v)]) k' # st) None r1)
          else if c = CHR ''}'' then scan st (Some (JObj (kvs @ [(k, v)]))) r
          else None)"
  by pat_completeness auto
termination
  by (relation "measure (\<lambda>(st, m, s). length s)")
    (auto dest!: skip_ws_Cons read_key_shorter scan_string_shorter scan_literal_shorter)

declare scan.simps [simp del]

definition json_parse :: "string \<Rightarrow> json option" where
  "json_parse s =
     (case scan [] None s of
        None \<Rightarrow> None
      | Some (v, r) \<Rightarrow> if skip_ws r = [] then Some v else None)"

section \<open>The round trip\<close>

text \<open>A value as it is read rb: its strings and keys with invalid bytes replaced.\<close>

fun norm :: "json \<Rightarrow> json" where
  "norm (JStr s) = JStr (to_valid s)"
| "norm (JArr vs) = JArr (map norm vs)"
| "norm (JObj kvs) = JObj (map (\<lambda>(k, v). (to_valid k, norm v)) kvs)"
| "norm v = v"

text \<open>Numbers are integers, and the nesting stays below a bound.\<close>

fun plain :: "json \<Rightarrow> bool" where
  "plain (JNum t) = (\<exists>i. t = int_text i)"
| "plain (JArr vs) = list_all plain vs"
| "plain (JObj kvs) = list_all (\<lambda>(k, v). plain v) kvs"
| "plain v = True"

fun depth :: "json \<Rightarrow> nat" where
  "depth (JArr vs) = Suc (foldr max (map depth vs) 0)"
| "depth (JObj kvs) = Suc (foldr max (map (\<lambda>(k, v). depth v) kvs) 0)"
| "depth v = 0"

text \<open>What may follow a value: nothing, a comma or a closing bracket.\<close>

definition closes :: "string \<Rightarrow> bool" where
  "closes r \<longleftrightarrow> (case r of [] \<Rightarrow> True | c # _ \<Rightarrow> c = CHR '','' \<or> c = CHR '']'' \<or> c = CHR ''}'')"

lemma skip_ws_noop: "\<not> is_ws c \<Longrightarrow> skip_ws (c # r) = c # r"
  by (simp add: skip_ws_def)

lemma not_ws [simp]:
  "\<not> is_ws (CHR ''{'')" "\<not> is_ws (CHR ''}'')" "\<not> is_ws (CHR ''['')" "\<not> is_ws (CHR '']'')"
  "\<not> is_ws (CHR '','')" "\<not> is_ws (CHR '':'')" "\<not> is_ws quote_char" "\<not> is_ws (CHR ''t'')"
  "\<not> is_ws (CHR ''f'')" "\<not> is_ws (CHR ''n'')" "\<not> is_ws (CHR ''-'')"
  by (simp_all add: is_ws_def)

lemma digit_not_ws: "is_digit c \<Longrightarrow> \<not> is_ws c"
  by (auto simp: is_ws_def is_digit_def)

lemma read_key_render [simp]: "read_key (json_string k @ CHR '':'' # r) = Some (to_valid k, r)"
  by (simp add: read_key_def json_string_def skip_ws_noop scan_json_esc)

lemma closes_not_digit: "closes r \<Longrightarrow> takeWhile is_digit r = [] \<and> dropWhile is_digit r = r"
  by (cases r) (auto simp: closes_def is_digit_def)

lemma closes_scans: "closes r \<Longrightarrow> scan_frac r = Some ([], r) \<and> scan_exp r = Some ([], r)"
  by (cases r) (auto simp: closes_def scan_frac_def scan_exp_def)

lemma closes_Cons [simp]:
  "closes (CHR '','' # r)" "closes (CHR '']'' # r)" "closes (CHR ''}'' # r)" "closes []"
  by (simp_all add: closes_def)

lemma scan_int_part_nat_text:
  assumes "closes r"
  shows "scan_int_part (nat_text n @ r) = Some (nat_text n, r)"
proof -
  obtain c t where t: "nat_text n = c # t" by (cases "nat_text n") simp_all
  have d: "list_all is_digit (c # t)" using nat_text_digits [of n] t by simp
  have "t = []" if "c = CHR ''0''"
  proof -
    have "n < 10" using nat_text_hd [of n] that t by fastforce
    then show ?thesis using t by (simp add: nat_text.simps [of n])
  qed
  moreover have "takeWhile is_digit (c # t @ r) = c # t" "dropWhile is_digit (c # t @ r) = r"
    using d closes_not_digit [OF assms]
    by (simp_all add: takeWhile_append dropWhile_append list_all_iff)
  ultimately show ?thesis using t d by (auto simp: scan_int_part_def)
qed

lemma scan_number_int_text:
  assumes "closes r"
  shows "scan_number (int_text i @ r) = Some (int_text i, r)"
proof (cases "i < 0")
  case True
  then show ?thesis
    using scan_int_part_nat_text [OF assms] closes_scans [OF assms]
    by (simp add: scan_number_def int_text_def)
next
  case False
  obtain c t where t: "nat_text (nat i) = c # t" "c \<noteq> CHR ''-''" by (rule nat_text_no_sign)
  then show ?thesis
    using False scan_int_part_nat_text [OF assms, of "nat i"] closes_scans [OF assms]
    by (simp add: scan_number_def int_text_def)
qed

text \<open>The first byte of a number's text.\<close>

lemma int_text_hd:
  obtains c t where "int_text i = c # t" and "c = CHR ''-'' \<or> is_digit c"
proof (cases "int_text i")
  case (Cons c t)
  then have "c = CHR ''-'' \<or> is_digit c"
    using nat_text_digits [of "nat i"] by (auto simp: int_text_def split: if_splits)
  with Cons that show thesis by blast
qed (simp add: int_text_def split: if_splits)

lemma sign_or_digit:
  assumes "c = CHR ''-'' \<or> is_digit c"
  shows "c \<noteq> CHR ''{''" "c \<noteq> CHR ''[''" "c \<noteq> quote_char" "c \<noteq> CHR ''t''" "c \<noteq> CHR ''f''" "c \<noteq> CHR ''n''"
    "c \<noteq> CHR '']''" "c \<noteq> CHR ''}''" "\<not> is_ws c"
  using assms digit_not_ws by (auto simp: is_digit_def)

lemma scan_literal_int_text:
  assumes "closes r"
  shows "scan_literal (int_text i @ r) = Some (JNum (int_text i), r)"
proof -
  obtain c t where t: "int_text i = c # t" and c: "c = CHR ''-'' \<or> is_digit c" by (rule int_text_hd)
  then show ?thesis
    using scan_number_int_text [OF assms, of i] sign_or_digit [OF c] by (simp add: scan_literal_def)
qed

lemma render_hd:
  assumes "plain v"
  obtains c t where "render v = c # t" and "c \<noteq> CHR '']''" and "\<not> is_ws c"
proof (cases v)
  case (JNum n)
  with assms obtain i where "n = int_text i" by auto
  moreover obtain c t where "int_text i = c # t" "c = CHR ''-'' \<or> is_digit c" by (rule int_text_hd)
  ultimately show thesis using that JNum sign_or_digit [of c] by simp
next
  case (JBool b)
  then show thesis using that by (cases b) simp_all
qed (use that in \<open>simp_all add: json_string_def\<close>)

abbreviation reads_back :: "json \<Rightarrow> bool" where
  "reads_back v \<equiv> \<forall>st r. closes r \<longrightarrow> length st + depth v \<le> 10000 \<longrightarrow>
     scan st None (render v @ r) = scan st (Some (norm v)) r"

lemma scan_open_obj:
  assumes "length st < 10000"
  shows "scan st None (CHR ''{'' # json_string k @ CHR '':'' # r) = scan (InObj [] (to_valid k) # st) None r"
proof -
  obtain x where x: "json_string k @ CHR '':'' # r = quote_char # x" by (simp add: json_string_def)
  have "read_key (quote_char # x) = Some (to_valid k, r)"
    using read_key_render [of k r] x by simp
  with assms show ?thesis
    unfolding x by (subst scan.simps(1)) (simp add: skip_ws_noop)
qed

lemma scan_open_arr:
  assumes "length st < 10000" and "c \<noteq> CHR '']''" and "\<not> is_ws c"
  shows "scan st None (CHR ''['' # c # r) = scan (InArr [] # st) None (c # r)"
  using assms by (subst scan.simps(1)) (simp add: skip_ws_noop)

lemma scan_elems:
  assumes "\<forall>v \<in> set vs. reads_back v" and "vs \<noteq> []"
    and "\<forall>v \<in> set vs. Suc (length st) + depth v \<le> 10000"
  shows "scan (InArr acc # st) None (join (map render vs) @ CHR '']'' # r)
    = scan st (Some (JArr (acc @ map norm vs))) r"
  using assms
proof (induction vs arbitrary: acc)
  case (Cons v vs)
  show ?case
  proof (cases vs)
    case Nil
    with Cons.prems show ?thesis by (simp add: scan.simps(3) skip_ws_noop)
  next
    case (Cons v' vs')
    with Cons.prems Cons.IH [of "acc @ [norm v]"] show ?thesis
      by (simp add: scan.simps(3) skip_ws_noop)
  qed
qed simp

lemma scan_members:
  assumes "\<forall>(k, v) \<in> set kvs. reads_back v" and "\<forall>(k, v) \<in> set kvs. Suc (length st) + depth v \<le> 10000"
    and "reads_back v" and "Suc (length st) + depth v \<le> 10000"
  shows "scan (InObj acc k # st) None (render v @
      concat (map (\<lambda>(k, v). CHR '','' # json_string k @ CHR '':'' # render v) kvs) @ CHR ''}'' # r)
    = scan st (Some (JObj (acc @ (k, norm v) # map (\<lambda>(k, v). (to_valid k, norm v)) kvs))) r"
  using assms
proof (induction kvs arbitrary: acc k v)
  case Nil
  then show ?case by (simp add: scan.simps(4) skip_ws_noop)
next
  case (Cons kv kvs)
  obtain k' v' where kv: "kv = (k', v')" by (cases kv)
  with Cons.prems Cons.IH [of v' "acc @ [(k, norm v)]" "to_valid k'"] show ?case
    by (simp add: scan.simps(4) skip_ws_noop)
qed

lemma join_map_Cons:
  "join (map f (x # xs)) = f x @ concat (map (\<lambda>y. CHR '','' # f y) xs)"
  by (induction xs arbitrary: x) simp_all

lemma depth_member: "v \<in> set vs \<Longrightarrow> depth v \<le> foldr max (map depth vs) 0"
  by (induction vs) auto

lemma depth_field: "(k, v) \<in> set kvs \<Longrightarrow> depth v \<le> foldr max (map (\<lambda>(k, v). depth v) kvs) 0"
  by (induction kvs) auto

lemma scan_render: "plain v \<Longrightarrow> reads_back v"
proof (induction v)
  case JNull
  then show ?case by (simp add: scan.simps(1) skip_ws_noop scan_literal_def)
next
  case (JBool b)
  then show ?case by (simp add: scan.simps(1) skip_ws_noop scan_literal_def)
next
  case (JNum n)
  then obtain i where n: "n = int_text i" by auto
  obtain c t where t: "int_text i = c # t" and c: "c = CHR ''-'' \<or> is_digit c" by (rule int_text_hd)
  show ?case
    using scan_literal_int_text [of _ i] sign_or_digit [OF c]
    by (simp add: scan.simps(1) n t skip_ws_noop)
next
  case (JStr s)
  then show ?case by (simp add: scan.simps(1) json_string_def skip_ws_noop scan_json_esc)
next
  case (JArr vs)
  show ?case
  proof (cases vs)
    case Nil
    then show ?thesis by (simp add: scan.simps(1) skip_ws_noop)
  next
    case (Cons v vs')
    have rb: "\<forall>v \<in> set vs. reads_back v" and "plain v"
      using JArr Cons by (auto simp: list_all_iff)
    then obtain c t where c: "render v = c # t" "c \<noteq> CHR '']''" "\<not> is_ws c" by (blast elim: render_hd)
    have d: "\<forall>v \<in> set vs. Suc (length st) + depth v \<le> 10000"
      if "length st + depth (JArr vs) \<le> 10000" for st :: "frame list"
      using that depth_member [of _ vs] by fastforce
    have first: "join (map render vs) @ x = c # t @ concat (map (\<lambda>y. CHR '','' # render y) vs') @ x" for x
      using Cons c(1) join_map_Cons [of render v vs'] by simp
    have "scan st None (render (JArr vs) @ r) = scan (InArr [] # st) None (join (map render vs) @ CHR '']'' # r)"
      if "length st + depth (JArr vs) \<le> 10000" for st r
      using that first scan_open_arr [OF _ c(2,3)] by simp
    then show ?thesis using scan_elems [OF rb _ d] Cons by simp
  qed
next
  case (JObj kvs)
  show ?case
  proof (cases kvs)
    case Nil
    then show ?thesis by (simp add: scan.simps(1) skip_ws_noop)
  next
    case (Cons kv kvs')
    obtain k v where kv: "kv = (k, v)" by (cases kv)
    have rb: "\<forall>(k, v) \<in> set kvs. reads_back v"
      using JObj by (fastforce simp: list_all_iff)
    have d: "\<forall>(k, v) \<in> set kvs. Suc (length st) + depth v \<le> 10000"
      if "length st + depth (JObj kvs) \<le> 10000" for st :: "frame list"
      using that depth_field [of _ _ kvs] by fastforce
    let ?rest = "concat (map (\<lambda>(k, v). CHR '','' # json_string k @ CHR '':'' # render v) kvs')"
    have whole: "render (JObj kvs) @ r = CHR ''{'' # json_string k @ CHR '':'' # render v @ ?rest @ CHR ''}'' # r"
      for r
      using join_map_Cons [of "\<lambda>(k, v). json_string k @ CHR '':'' # render v" kv kvs'] Cons kv
      by (simp add: split_def)
    have "scan st None (render (JObj kvs) @ r)
        = scan (InObj [] (to_valid k) # st) None (render v @ ?rest @ CHR ''}'' # r)"
      if "length st + depth (JObj kvs) \<le> 10000" for st r
      using that whole scan_open_obj by simp
    then show ?thesis
      using scan_members [of kvs'] rb d Cons kv by simp
  qed
qed

theorem json_roundtrip:
  assumes "plain v" and "depth v \<le> 10000"
  shows "json_parse (render v) = Some (norm v)"
  using scan_render [OF assms(1), rule_format, of "[]" "[]"] assms(2)
  by (simp add: json_parse_def scan.simps(2) skip_ws_def)

section \<open>Unmarshal into a struct\<close>

text \<open>
  A member's key is matched to a field by name, ignoring case (the simple case folding of Go,
  which also folds the long s and the Kelvin sign). A string field takes a string, an
  \<open>int64\<close> field an integer in range; null leaves a field as it is; anything else is an error.
  Unknown members are ignored and a later member overwrites an earlier one.
\<close>

function fold_name :: "string \<Rightarrow> string" where
  "fold_name [] = []"
| "fold_name (c # s) =
     (if within 97 122 c then char_of (byte c - 32) # fold_name s
      else if take 2 (c # s) = [CHR 0xC5, CHR 0xBF] then CHR ''S'' # fold_name (drop 1 s)
      else if take 3 (c # s) = [CHR 0xE2, CHR 0x84, CHR 0xAA] then CHR ''K'' # fold_name (drop 2 s)
      else c # fold_name s)"
  by pat_completeness auto
termination
  by (relation "measure length") auto

definition same_name :: "string \<Rightarrow> string \<Rightarrow> bool" where
  "same_name k f \<longleftrightarrow> fold_name k = fold_name f"

definition as_string :: "string \<Rightarrow> json \<Rightarrow> string option" where
  "as_string old v = (case v of JStr s \<Rightarrow> Some s | JNull \<Rightarrow> Some old | _ \<Rightarrow> None)"

definition as_int64 :: "int64 \<Rightarrow> json \<Rightarrow> int64 option" where
  "as_int64 old v = (case v of JNum t \<Rightarrow> ParseInt64 t | JNull \<Rightarrow> Some old | _ \<Rightarrow> None)"

fun fold_members :: "('a \<Rightarrow> 'b \<Rightarrow> 'a option) \<Rightarrow> 'a \<Rightarrow> 'b list \<Rightarrow> 'a option" where
  "fold_members f a [] = Some a"
| "fold_members f a (x # xs) = (case f a x of None \<Rightarrow> None | Some b \<Rightarrow> fold_members f b xs)"

definition unmarshal_struct ::
    "('a \<Rightarrow> string \<times> json \<Rightarrow> 'a option) \<Rightarrow> 'a \<Rightarrow> string \<Rightarrow> 'a option" where
  "unmarshal_struct member zero text =
     (case json_parse text of
        Some (JObj kvs) \<Rightarrow> fold_members member zero kvs
      | Some JNull \<Rightarrow> Some zero
      | _ \<Rightarrow> None)"

lemma as_string_simps [simp]: "as_string old (JStr s) = Some s"
  by (simp add: as_string_def)

lemma as_int64_simps [simp]: "as_int64 old (JNum (int_text (sint x))) = Some x"
  by (simp add: as_int64_def ParseInt64_int_text)

lemma same_name_refl [simp]: "same_name k k"
  by (simp add: same_name_def)

end
