(* ===== verification/Http.thy ===== *)
theory Http
  imports Go_Json
begin

text \<open>
  Requests and responses of \<open>net/http\<close>, the status codes the services use, and the encodings of
  the standard library that the clients need (Base64, the escape of a path segment).
\<close>

record http_request =
  hqMethod :: string
  hqURL :: string
  hqHeader :: "(string \<times> string) list"
  hqBody :: string

record http_response =
  hrStatus :: int
  hrBody :: string

definition StatusOK :: int where "StatusOK = 200"
definition StatusBadRequest :: int where "StatusBadRequest = 400"
definition StatusNotFound :: int where "StatusNotFound = 404"
definition StatusConflict :: int where "StatusConflict = 409"
definition StatusInternalServerError :: int where "StatusInternalServerError = 500"
definition StatusBadGateway :: int where "StatusBadGateway = 502"
definition StatusServiceUnavailable :: int where "StatusServiceUnavailable = 503"
definition StatusGatewayTimeout :: int where "StatusGatewayTimeout = 504"

lemmas http_codes = StatusOK_def StatusBadRequest_def StatusNotFound_def StatusConflict_def
  StatusInternalServerError_def StatusBadGateway_def StatusServiceUnavailable_def StatusGatewayTimeout_def

text \<open>\<open>io.ReadAll(io.LimitReader(body, n))\<close>, its error dropped.\<close>

definition read_limited :: "nat \<Rightarrow> http_response \<Rightarrow> string" where
  "read_limited n r = take n (hrBody r)"

text \<open>\<open>Header.Get(name)\<close>: names are compared as \<open>CanonicalMIMEHeaderKey\<close> does, without case; no such header reads as empty.\<close>

definition ascii_lower :: "char \<Rightarrow> char" where
  "ascii_lower c = (if within 65 90 c then char_of (byte c + 32) else c)"

definition Header_Get :: "string \<Rightarrow> (string \<times> string) list \<Rightarrow> string" where
  "Header_Get name hs =
     (case find (\<lambda>(k, v). map ascii_lower k = map ascii_lower name) hs of None \<Rightarrow> [] | Some (k, v) \<Rightarrow> v)"

text \<open>
  \<open>strings.ToLower\<close> and \<open>strings.ToUpper\<close> as far as the result has ASCII letters: beside the ASCII
  letters themselves, U+0130 and U+212A have the lower case i and k, and U+0131 and U+017F the
  upper case I and S. The sources only compare the results with ASCII texts.
\<close>

function ToLower :: "string \<Rightarrow> string" where
  "ToLower [] = []"
| "ToLower (c # s) =
     (if take 2 (c # s) = [CHR 0xC4, CHR 0xB0] then CHR ''i'' # ToLower (drop 1 s)
      else if take 3 (c # s) = [CHR 0xE2, CHR 0x84, CHR 0xAA] then CHR ''k'' # ToLower (drop 2 s)
      else ascii_lower c # ToLower s)"
  by pat_completeness auto
termination
  by (relation "measure length") auto

function ToUpper :: "string \<Rightarrow> string" where
  "ToUpper [] = []"
| "ToUpper (c # s) =
     (if take 2 (c # s) = [CHR 0xC4, CHR 0xB1] then CHR ''I'' # ToUpper (drop 1 s)
      else if take 2 (c # s) = [CHR 0xC5, CHR 0xBF] then CHR ''S'' # ToUpper (drop 1 s)
      else (if within 97 122 c then char_of (byte c - 32) else c) # ToUpper s)"
  by pat_completeness auto
termination
  by (relation "measure length") auto

text \<open>A response of \<open>gin\<close>'s \<open>c.JSON(code, value)\<close>.\<close>

definition respond :: "int \<Rightarrow> json \<Rightarrow> http_response" where
  "respond code v = \<lparr>hrStatus = code, hrBody = render v\<rparr>"

definition error_body :: "string \<Rightarrow> json" where
  "error_body m = JObj [(''error'', JStr m)]"

section \<open>Routes\<close>

text \<open>A route: the method, the pattern, and the handler over the path parameters and the request.\<close>

type_synonym 'w route = "string \<times> string \<times> ((string \<rightharpoonup> string) \<Rightarrow> http_request \<Rightarrow> ('w, http_response) state)"

text \<open>\<open>c.Param(name)\<close> of a parameter that the route does not have is empty.\<close>

definition Param :: "(string \<rightharpoonup> string) \<Rightarrow> string \<Rightarrow> string" where
  "Param ps k = (case ps k of None \<Rightarrow> [] | Some v \<Rightarrow> v)"

text \<open>\<open>gin\<close> serves the route of the request's method that matches its path, and answers 404 when there is none.\<close>

fun serve :: "(string \<Rightarrow> string \<Rightarrow> (string \<rightharpoonup> string) option) \<Rightarrow> 'w route list \<Rightarrow> http_request \<Rightarrow>
    ('w, http_response) state" where
  "serve match [] q = State_Monad.return \<lparr>hrStatus = StatusNotFound, hrBody = ''404 page not found''\<rparr>"
| "serve match ((m, pat, h) # rs) q =
     (if m = hqMethod q then
        (case match pat (hqURL q) of Some ps \<Rightarrow> h ps q | None \<Rightarrow> serve match rs q)
      else serve match rs q)"

section \<open>Base64\<close>

definition b64_alphabet :: string where
  "b64_alphabet = ''ABCDEFGHIJKLMNOPQRSTUVWXYZabcdefghijklmnopqrstuvwxyz0123456789+/''"

definition b64_char :: "nat \<Rightarrow> char" where
  "b64_char n = b64_alphabet ! (n mod 64)"

fun b64_encode :: "string \<Rightarrow> string" where
  "b64_encode [] = []"
| "b64_encode [a] = [b64_char (byte a div 4), b64_char (byte a mod 4 * 16), CHR ''='', CHR ''='']"
| "b64_encode [a, b] =
     [b64_char (byte a div 4), b64_char (byte a mod 4 * 16 + byte b div 16),
      b64_char (byte b mod 16 * 4), CHR ''='']"
| "b64_encode (a # b # c # r) =
     b64_char (byte a div 4) # b64_char (byte a mod 4 * 16 + byte b div 16) #
     b64_char (byte b mod 16 * 4 + byte c div 64) # b64_char (byte c mod 64) # b64_encode r"

section \<open>Escaping a path segment\<close>

text \<open>\<open>url.PathEscape\<close>: unreserved characters and \<open>$&+=:@\<close> stay, every other byte is \<open>%XX\<close>.\<close>

definition path_plain :: "char \<Rightarrow> bool" where
  "path_plain c \<longleftrightarrow> c \<in> set ''ABCDEFGHIJKLMNOPQRSTUVWXYZabcdefghijklmnopqrstuvwxyz0123456789-_.~$&+=:@''"

definition upper_hex :: "nat \<Rightarrow> char" where
  "upper_hex d = ''0123456789ABCDEF'' ! (d mod 16)"

fun PathEscape :: "string \<Rightarrow> string" where
  "PathEscape [] = []"
| "PathEscape (c # s) =
     (if path_plain c then c # PathEscape s
      else CHR ''%'' # upper_hex (byte c div 16) # upper_hex (byte c mod 16) # PathEscape s)"

lemma PathEscape_plain: "list_all path_plain s \<Longrightarrow> PathEscape s = s"
  by (induction s) simp_all

end
