(* ===== verification/Boot.thy ===== *)
theory Boot
  imports Http
begin

text \<open>
  Starting a service. A \<open>main\<close> issues calls to the outside, in order; a call succeeds or fails with a
  text, and a failure that is passed to \<open>log.Fatalf\<close> ends the process at that point. The state
  keeps the calls that were issued and the results to come (an empty queue: every call succeeds).
  The broker's side of the calls is a topology of exchanges, queues and bindings, with the routing
  of RabbitMQ for the two kinds of exchange that the services declare.

  Configuration: an environment variable that is not set reads as empty.
\<close>

section \<open>Calls at startup\<close>

datatype call =
    SqlOpen string | SqlSetMaxOpenConns int | SqlSetConnMaxLifetime int64 | SqlPing | SqlExec string
  | RedisPing string | GrpcDial string | NetListen string
  | AmqpDial string | AmqpChannel | AmqpConfirm | AmqpQos int
  | ExchangeDeclare string string | QueueDeclare string "(string \<times> string) list" | QueueBind string string string
  | AmqpConsume string string | AmqpCancel string | AmqpCloseChannel | AmqpCloseConn | GrpcClose
  | GrpcSubscribe string

record boot =
  calls :: "call list"
  results :: "string option list"

definition attempt :: "call \<Rightarrow> (boot, string option) state" where
  "attempt c = State (\<lambda>b. (case results b of [] \<Rightarrow> None | r # _ \<Rightarrow> r,
     b\<lparr>calls := calls b @ [c], results := tl (results b)\<rparr>))"

text \<open>A call without a result.\<close>

definition issue :: "call \<Rightarrow> (boot, unit) state" where
  "issue c = State (\<lambda>b. ((), b\<lparr>calls := calls b @ [c]\<rparr>))"

text \<open>
  \<open>if err := c; err != nil { log.Fatalf("pre: %v", err) }\<close>, for calls in a row: \<open>Inl\<close> is the text of
  the fatal error.
\<close>

fun script :: "(string \<times> call) list \<Rightarrow> (boot, string + 'a) state \<Rightarrow> (boot, string + 'a) state" where
  "script [] k = k"
| "script ((pre, c) # cs) k = do {
     e \<leftarrow> attempt c;
     (case e of Some m \<Rightarrow> State_Monad.return (Inl (pre @ m)) | None \<Rightarrow> script cs k)
   }"

text \<open>All calls succeed and the program goes on, or one fails and is the last.\<close>

lemma script_cases:
  assumes "run_state (script cs k) b = (r, b')"
  obtains (ended) "run_state k (b\<lparr>calls := calls b @ map snd cs, results := drop (length cs) (results b)\<rparr>) = (r, b')"
      and "\<forall>x \<in> set (take (length cs) (results b)). x = None"
  | (fatal) n m where "n < length cs" and "n < length (results b)" and "results b ! n = Some m"
      and "r = Inl (fst (cs ! n) @ m)" and "calls b' = calls b @ map snd (take (Suc n) cs)"
  using assms
proof (induction cs arbitrary: b thesis)
  case Nil
  then show ?case by simp
next
  case (Cons pc cs)
  obtain pre c where pc: "pc = (pre, c)" by (cases pc)
  let ?b = "b\<lparr>calls := calls b @ [c], results := tl (results b)\<rparr>"
  show ?case
  proof (cases "results b \<noteq> [] \<and> hd (results b) \<noteq> None")
    case True
    then obtain m rs where rs: "results b = Some m # rs" by (cases "results b") auto
    with Cons.prems(3) pc have "r = Inl (pre @ m)" "calls b' = calls b @ [c]" by (auto simp: attempt_def)
    with rs pc show ?thesis by (intro Cons.prems(2) [of 0 m]) simp_all
  next
    case False
    then have run: "run_state (script cs k) ?b = (r, b')"
      using Cons.prems(3) pc by (cases "results b") (auto simp: attempt_def)
    show ?thesis
    proof (rule Cons.IH [OF _ _ run], goal_cases)
      case 1
      have "\<forall>x \<in> set (take (length (pc # cs)) (results b)). x = None"
        using 1(2) False by (cases "results b") auto
      then show ?case using 1(1) pc by (intro Cons.prems(1)) (auto simp: drop_Suc)
    next
      case (2 n m)
      then show ?case using pc by (intro Cons.prems(2) [of "Suc n" m]) (simp_all add: nth_tl)
    qed
  qed
qed

lemma run_attempt_ok: "results b = [] \<Longrightarrow> run_state (attempt c) b = (None, b\<lparr>calls := calls b @ [c]\<rparr>)"
  by (cases b) (simp add: attempt_def)

lemma script_ok:
  "results b = [] \<Longrightarrow> run_state (script cs k) b = run_state k (b\<lparr>calls := calls b @ map snd cs\<rparr>)"
proof (induction cs arbitrary: b)
  case (Cons pc cs)
  then show ?case by (cases pc) (simp add: run_attempt_ok)
qed simp

section \<open>Configuration\<close>

type_synonym environ = "string \<Rightarrow> string"

definition env_or :: "environ \<Rightarrow> string \<Rightarrow> string \<Rightarrow> string" where
  "env_or env name d = (if env name = [] then d else env name)"

text \<open>
  The pattern of the three mains for a positive number: a variable that is set, is a decimal
  \<open>int\<close> (\<open>strconv.Atoi\<close>) and is positive replaces the default; \<open>time.Duration(n) * unit\<close> wraps.
\<close>

definition positive_env :: "environ \<Rightarrow> string \<Rightarrow> int64 option" where
  "positive_env env name =
     (let v = TrimSpace (env name)
      in if v \<noteq> [] then (case ParseInt64 v of Some n \<Rightarrow> if 0 <s n then Some n else None | None \<Rightarrow> None) else None)"

definition env_duration :: "environ \<Rightarrow> string \<Rightarrow> duration \<Rightarrow> duration \<Rightarrow> duration" where
  "env_duration env name unit d = (case positive_env env name of Some n \<Rightarrow> n * unit | None \<Rightarrow> d)"

lemma positive_env_pos: "positive_env env name = Some n \<Longrightarrow> 0 <s n"
  by (auto simp: positive_env_def Let_def split: if_splits option.splits)

lemma sint_bounds: "- (2 ^ 63) \<le> sint (n :: int64)" "sint (n :: int64) < 2 ^ 63"
  using sint_ge [of n] sint_lt [of n] by simp_all

text \<open>The duration is the product exactly when the product fits; a positive number that is too large wraps.\<close>

lemma env_duration_exact:
  assumes "positive_env env name = Some n" and "0 <s unit"
  shows "sint (env_duration env name unit d) = sint n * sint unit \<longleftrightarrow> sint n * sint unit < 2 ^ 63"
    and "sint n * sint unit < 2 ^ 63 \<Longrightarrow> 0 <s env_duration env name unit d"
proof -
  have pos: "0 < sint n" "0 < sint unit"
    using positive_env_pos [OF assms(1)] assms(2) by (simp_all add: go_int_order)
  then have p: "0 < sint n * sint unit" by simp
  have eq: "sint (env_duration env name unit d) = sint n * sint unit" if "sint n * sint unit < 2 ^ 63"
  proof -
    have "sint (word_of_int (sint n * sint unit) :: int64) = sint n * sint unit"
      using that p by (subst sint_sbintrunc') (simp add: signed_take_bit_int_eq_self)
    then show ?thesis using assms(1) by (simp add: env_duration_def flip: wi_hom_mult)
  qed
  then show "sint (env_duration env name unit d) = sint n * sint unit \<longleftrightarrow> sint n * sint unit < 2 ^ 63"
    using sint_bounds(2) by metis
  show "sint n * sint unit < 2 ^ 63 \<Longrightarrow> 0 <s env_duration env name unit d"
    using eq p by (simp add: go_int_order)
qed

section \<open>The broker\<close>

record topology =
  exchanges :: "string \<rightharpoonup> string"
  queues :: "string \<rightharpoonup> (string \<times> string) list"
  bindings :: "(string \<times> string \<times> string) list"

definition no_topology :: topology where
  "no_topology = \<lparr>exchanges = Map.empty, queues = Map.empty, bindings = []\<rparr>"

text \<open>What a call that succeeded did; a declaration of what is there already changes nothing.\<close>

definition apply_call :: "call \<Rightarrow> topology \<Rightarrow> topology" where
  "apply_call c t =
     (case c of
        ExchangeDeclare x kind \<Rightarrow> (case exchanges t x of None \<Rightarrow> t\<lparr>exchanges := (exchanges t)(x \<mapsto> kind)\<rparr> | Some _ \<Rightarrow> t)
      | QueueDeclare q args \<Rightarrow> (case queues t q of None \<Rightarrow> t\<lparr>queues := (queues t)(q \<mapsto> args)\<rparr> | Some _ \<Rightarrow> t)
      | QueueBind q key x \<Rightarrow> if (q, key, x) \<in> set (bindings t) then t else t\<lparr>bindings := bindings t @ [(q, key, x)]\<rparr>
      | _ \<Rightarrow> t)"

fun split_dots :: "string \<Rightarrow> string list" where
  "split_dots [] = [[]]"
| "split_dots (c # s) =
     (if c = CHR ''.'' then [] # split_dots s
      else (case split_dots s of [] \<Rightarrow> [[c]] | w # ws \<Rightarrow> (c # w) # ws))"

text \<open>A binding key of a topic exchange: \<open>*\<close> is one word, \<open>#\<close> any number of words.\<close>

fun topic_words :: "string list \<Rightarrow> string list \<Rightarrow> bool" where
  "topic_words [] ws = (ws = [])"
| "topic_words (p # ps) [] = (p = ''#'' \<and> topic_words ps [])"
| "topic_words (p # ps) (w # ws) =
     (if p = ''#'' then topic_words ps (w # ws) \<or> topic_words (p # ps) ws
      else (p = ''*'' \<or> p = w) \<and> topic_words ps ws)"

definition binding_matches :: "string \<Rightarrow> string \<Rightarrow> string \<Rightarrow> bool" where
  "binding_matches kind bkey key \<longleftrightarrow>
     kind = ''direct'' \<and> bkey = key \<or> kind = ''topic'' \<and> topic_words (split_dots bkey) (split_dots key)"

text \<open>The queues that a message with this exchange and routing key reaches.\<close>

definition routed :: "topology \<Rightarrow> string \<Rightarrow> string \<Rightarrow> string list" where
  "routed t x key =
     (case exchanges t x of
        None \<Rightarrow> []
      | Some kind \<Rightarrow>
          remdups (map fst (filter (\<lambda>(q, bkey, y). y = x \<and> binding_matches kind bkey key) (bindings t))))"

text \<open>Where a message goes that a consumer of \<open>q\<close> rejects without requeueing.\<close>

definition dead_lettered :: "topology \<Rightarrow> string \<Rightarrow> string \<Rightarrow> string list" where
  "dead_lettered t q key =
     (case queues t q of
        None \<Rightarrow> []
      | Some args \<Rightarrow>
          (case map_of args ''x-dead-letter-exchange'' of
             None \<Rightarrow> []
           | Some dlx \<Rightarrow>
               routed t dlx (case map_of args ''x-dead-letter-routing-key'' of None \<Rightarrow> key | Some k \<Rightarrow> k)))"

end
