(* ===== verification/Redis.thy ===== *)
theory Redis
  imports Go_Prelude
begin

text \<open>
  The commands of Redis that the services issue: GET, SET with an expiry, DEL. The store maps a
  key to its value and the time it expires at, in milliseconds of the server's clock, which is
  part of the state and arbitrary. A command may be lost, as every call that leaves the process.
\<close>

type_synonym redis_store = "string \<rightharpoonup> string \<times> int option"

record redis_env = env +
  redis :: redis_store
  redis_clock :: int

definition live :: "int \<Rightarrow> redis_store \<Rightarrow> string \<Rightarrow> string option" where
  "live now m k =
     (case m k of
        None \<Rightarrow> None
      | Some (v, None) \<Rightarrow> Some v
      | Some (v, Some t) \<Rightarrow> if now < t then Some v else None)"

text \<open>
  The expiry the client sends: a positive duration in whole milliseconds, at least one; none for
  a duration that is not positive.
\<close>

definition expiry :: "int \<Rightarrow> duration \<Rightarrow> int option" where
  "expiry now ttl = (if 0 <s ttl then Some (now + max 1 (sint ttl div 1000000)) else None)"

definition redis_get :: "string \<Rightarrow> ('w redis_env_scheme, string + string option) state" where
  "redis_get k = driver (\<lambda>w. (Inr (live (redis_clock w) (redis w) k), w))"

definition redis_set :: "string \<Rightarrow> string \<Rightarrow> duration \<Rightarrow> ('w redis_env_scheme, string + unit) state" where
  "redis_set k v ttl =
     driver (\<lambda>w. (Inr (), w\<lparr>redis := (redis w)(k \<mapsto> (v, expiry (redis_clock w) ttl))\<rparr>))"

definition redis_del :: "string \<Rightarrow> ('w redis_env_scheme, string + unit) state" where
  "redis_del k = driver (\<lambda>w. (Inr (), w\<lparr>redis := (redis w)(k := None)\<rparr>))"

lemma live_set [simp]: "live now (m(k \<mapsto> (v, expiry now ttl))) k = Some v"
  by (simp add: live_def expiry_def max_def)

lemma live_other [simp]: "k \<noteq> k' \<Longrightarrow> live now (m(k \<mapsto> x)) k' = live now m k'"
  "k \<noteq> k' \<Longrightarrow> live now (m(k := None)) k' = live now m k'"
  by (simp_all add: live_def)

lemma live_del [simp]: "live now (m(k := None)) k = None"
  by (simp add: live_def)

text \<open>With no call lost.\<close>

lemma run_redis_ok [simp]:
  assumes "faults w = []"
  shows "run_state (redis_get k) w = (Inr (live (redis_clock w) (redis w) k), w)"
    and "run_state (redis_set k v ttl) w =
      (Inr (), w\<lparr>redis := (redis w)(k \<mapsto> (v, expiry (redis_clock w) ttl))\<rparr>)"
    and "run_state (redis_del k) w = (Inr (), w\<lparr>redis := (redis w)(k := None)\<rparr>)"
  using assms by (simp_all add: redis_get_def redis_set_def redis_del_def)

text \<open>A command changes the store and the queue of outcomes, nothing else.\<close>

lemma redis_get_wp:
  assumes "\<And>r. (\<And>v. r = Inr v \<Longrightarrow> v = live (redis_clock w) (redis w) k) \<Longrightarrow>
    Q r (w\<lparr>faults := tl (faults w)\<rparr>)"
  shows "wp (redis_get k) Q w"
  unfolding redis_get_def by (rule driver_read_wp) (auto intro: assms)

lemma redis_set_wp:
  assumes "\<And>r s. Q r (w\<lparr>faults := tl (faults w), redis := s\<rparr>)"
  shows "wp (redis_set k v ttl) Q w"
  unfolding redis_set_def
  by (rule driver_wp) (use assms [of _ "redis w"] assms in auto)

lemma redis_del_wp:
  assumes "\<And>r s. Q r (w\<lparr>faults := tl (faults w), redis := s\<rparr>)"
  shows "wp (redis_del k) Q w"
  unfolding redis_del_def
  by (rule driver_wp) (use assms [of _ "redis w"] assms in auto)

end
