(* ===== verification/Postgres.thy ===== *)
theory Postgres
  imports Go_Prelude
begin

text \<open>
  What the services rely on of PostgreSQL beyond the statements themselves, as parameters:
  \<open>uuid_in\<close> reads a text as a UUID (\<open>None\<close>: a syntax error) and gives the canonical text that a
  UUID column returns; \<open>ts_col\<close> is the time a TIMESTAMPTZ column returns for the time that was
  written to it.
\<close>

record postgres =
  uuid_in :: "string \<Rightarrow> string option"
  ts_col :: "gotime \<Rightarrow> gotime"

definition bad_uuid :: "string \<Rightarrow> string" where
  "bad_uuid i = ''pq: invalid input syntax for type uuid: '' @ [CHR 0x22] @ i @ [CHR 0x22]"

definition duplicate_key :: string where
  "duplicate_key = ''pq: duplicate key value violates unique constraint''"

definition check_violation :: string where
  "check_violation = ''pq: new row violates check constraint''"

text \<open>
  An instance for concrete runs: PostgreSQL's own reading of a UUID in its standard form, 36
  characters in groups of 8, 4, 4, 4 and 12 hexadecimal digits of either case; the result is in
  lower case. The columns keep times as they are.
\<close>

definition lower_hex :: "char \<Rightarrow> char option" where
  "lower_hex c = (if c \<in> set ''0123456789abcdef'' then Some c else map_of (zip ''ABCDEF'' ''abcdef'') c)"

fun read_uuid :: "string \<Rightarrow> string \<Rightarrow> string option" where
  "read_uuid [] [] = Some []"
| "read_uuid (f # form) (c # s) =
     (case (if f = CHR ''-'' then (if c = f then Some c else None) else lower_hex c) of
        None \<Rightarrow> None
      | Some x \<Rightarrow> map_option (\<lambda>r. x # r) (read_uuid form s))"
| "read_uuid _ _ = None"

definition uuid_form :: string where
  "uuid_form = ''xxxxxxxx-xxxx-xxxx-xxxx-xxxxxxxxxxxx''"

definition standard_pg :: postgres where
  "standard_pg = \<lparr>uuid_in = read_uuid uuid_form, ts_col = (\<lambda>t. t)\<rparr>"

end
