(* ===== verification/Notify_Email.thy ===== *)
theory Notify_Email
  imports Complex_Main Http Redis Postgres
begin

text \<open>
  The email adapters of the notification service (\<^verbatim>\<open>notification-service/internal/email\<close>): the
  port \<open>Sender\<close>, the simulated sender and the Mailjet sender, over the state of the service:
  its table and Redis, the emails that the provider accepted, and what is outside: the outcome of
  each wait (the timer, or the context that is done first), the numbers \<open>math/rand\<close> draws, and
  the answers of the Mailjet server.
\<close>

datatype notify_error = ErrPoison | ErrForceDLQDemo | ErrTransient

fun notify_error_text :: "notify_error \<Rightarrow> string" where
  "notify_error_text ErrPoison = ''poison message: no retry''"
| "notify_error_text ErrForceDLQDemo = ''forced dlq demo''"
| "notify_error_text ErrTransient = ''transient failure: retry''"

type_synonym nerror = "notify_error error"

definition nerror_text :: "nerror \<Rightarrow> string" where
  "nerror_text e = error_text notify_error_text e"

record SendInput =
  siToEmail :: string
  siOrderID :: string
  siPaymentID :: string
  siAmountCents :: int64
  siStatus :: string

datatype mail = SimulatedMail SendInput | MailjetMail http_request

text \<open>An answer of the Mailjet server, or a request that failed; the flag says whether the email was taken.\<close>

datatype mailjet_answer = Answer http_response | NoAnswer bool string

record notify_world = redis_env +
  processed_tab :: "string set"
  mails :: "mail list"
  waits :: "ctx_err option list"
  slept :: "duration list"
  int_draws :: "int64 list"
  float_draws :: "rat list"
  mailjet_answers :: "mailjet_answer list"
  nlog :: "string list"

record 'w Sender =
  SendPaymentReceipt :: "SendInput \<Rightarrow> ('w, nerror option) state"

section \<open>Waiting and drawing\<close>

text \<open>
  \<open>select\<close> on \<open>ctx.Done()\<close> and \<open>time.After(d)\<close>: \<open>None\<close> when the timer fired. The waits that were
  asked for are recorded in \<open>slept\<close>.
\<close>

definition wait :: "duration \<Rightarrow> ('w notify_world_scheme, ctx_err option) state" where
  "wait d = State (\<lambda>w. (case waits w of [] \<Rightarrow> None | x # _ \<Rightarrow> x, w\<lparr>waits := tl (waits w), slept := slept w @ [d]\<rparr>))"

definition draw_int :: "int64 \<Rightarrow> ('w notify_world_scheme, int64) state" where
  "draw_int n = State (\<lambda>w. (case int_draws w of [] \<Rightarrow> 0 | x # _ \<Rightarrow> x, w\<lparr>int_draws := tl (int_draws w)\<rparr>))"

definition draw_float :: "('w notify_world_scheme, rat) state" where
  "draw_float = State (\<lambda>w. (case float_draws w of [] \<Rightarrow> 0 | x # _ \<Rightarrow> x, w\<lparr>float_draws := tl (float_draws w)\<rparr>))"

definition deliver :: "mail \<Rightarrow> ('w notify_world_scheme, unit) state" where
  "deliver x = State (\<lambda>w. ((), w\<lparr>mails := mails w @ [x]\<rparr>))"

section \<open>The simulated sender\<close>

definition Millisecond :: duration where "Millisecond = 1000000"
definition Second :: duration where "Second = 1000 * Millisecond"
definition Hour :: duration where "Hour = 3600 * Second"

text \<open>A finite \<open>float64\<close> is a rational; a rate that is not a number does not reach the sender.\<close>

record SimulatedSender =
  MinLatency :: duration
  MaxLatency :: duration
  FailRate :: rat

definition NewSimulated :: "duration \<Rightarrow> duration \<Rightarrow> rat \<Rightarrow> SimulatedSender" where
  "NewSimulated minLat0 maxLat0 failRate0 =
     (let minLat = (if minLat0 \<le>s 0 then 50 * Millisecond else minLat0);
          maxLat = (if maxLat0 <s minLat then minLat + 100 * Millisecond else maxLat0);
          r1 = (if failRate0 < 0 then 0 else failRate0);
          failRate = (if r1 > 1 then 1 else r1)
      in \<lparr>MinLatency = minLat, MaxLatency = maxLat, FailRate = failRate\<rparr>)"

definition Simulated_SendPaymentReceipt ::
    "SimulatedSender \<Rightarrow> SendInput \<Rightarrow> ('w notify_world_scheme, nerror option) state" where
  "Simulated_SendPaymentReceipt s i = do {
     d \<leftarrow> (if MinLatency s <s MaxLatency s then do {
              x \<leftarrow> draw_int (MaxLatency s - MinLatency s);
              State_Monad.return (MinLatency s + x)
            } else State_Monad.return (MinLatency s));
     e \<leftarrow> wait d;
     (case e of
        Some c \<Rightarrow> State_Monad.return (Some (CtxErr c))
      | None \<Rightarrow> do {
          f \<leftarrow> draw_float;
          (if f < FailRate s then State_Monad.return (Some (Errorf ''simulated provider transient failure''))
           else do { deliver (SimulatedMail i); State_Monad.return None })
        })
   }"

definition simulated :: "SimulatedSender \<Rightarrow> 'w notify_world_scheme Sender" where
  "simulated s = \<lparr>SendPaymentReceipt = Simulated_SendPaymentReceipt s\<rparr>"

section \<open>The Mailjet sender\<close>

record MailjetSender =
  apiKey :: string
  apiSecret :: string
  fromEmail :: string
  fromName :: string

definition NewMailjet :: "string \<Rightarrow> string \<Rightarrow> string \<Rightarrow> string \<Rightarrow> MailjetSender" where
  "NewMailjet k s f n = \<lparr>apiKey = TrimSpace k, apiSecret = TrimSpace s, fromEmail = TrimSpace f,
     fromName = TrimSpace n\<rparr>"

definition nl :: string where "nl = [CHR 0x0A]"

definition mailjet_text :: "SendInput \<Rightarrow> string" where
  "mailjet_text i = ''Payment receipt'' @ nl @ ''Payment ID: '' @ siPaymentID i @ nl @ ''Order: '' @ siOrderID i @ nl @
     ''Amount (cents): '' @ int_text (sint (siAmountCents i)) @ nl @ ''Status: '' @ siStatus i @ nl"

definition mailjet_addr :: "string \<Rightarrow> string \<Rightarrow> json" where
  "mailjet_addr e n = JObj [(''Email'', JStr e), (''Name'', JStr n)]"

definition mailjet_payload :: "MailjetSender \<Rightarrow> SendInput \<Rightarrow> json" where
  "mailjet_payload m i =
     (let to = TrimSpace (siToEmail i);
          name = (if fromName m = [] then ''Notifications'' else fromName m)
      in JObj [(''Messages'', JArr [JObj
           [(''From'', mailjet_addr (fromEmail m) name), (''To'', JArr [mailjet_addr to to]),
            (''Subject'', JStr (''Payment confirmed '' @ [CHR 0xE2, CHR 0x80, CHR 0x94] @ '' order '' @ siOrderID i)),
            (''TextPart'', JStr (mailjet_text i))]])])"

definition mailjet_request :: "MailjetSender \<Rightarrow> SendInput \<Rightarrow> http_request" where
  "mailjet_request m i = \<lparr>hqMethod = ''POST'', hqURL = ''https://api.mailjet.com/v3.1/send'',
     hqHeader = [(''Content-Type'', ''application/json''),
       (''Authorization'', ''Basic '' @ b64_encode (apiKey m @ '':'' @ apiSecret m))],
     hqBody = render (mailjet_payload m i)\<rparr>"

text \<open>
  One request to the Mailjet server. The server answers, and has taken the email when the status
  is 2xx; or the request fails, before or after the server took the email.
\<close>

definition mailjet_do :: "http_request \<Rightarrow> ('w notify_world_scheme, string + http_response) state" where
  "mailjet_do q = State (\<lambda>w.
     let w' = w\<lparr>mailjet_answers := tl (mailjet_answers w)\<rparr>
     in case mailjet_answers w of
          [] \<Rightarrow> (Inr \<lparr>hrStatus = 200, hrBody = []\<rparr>, w'\<lparr>mails := mails w @ [MailjetMail q]\<rparr>)
        | NoAnswer took e # _ \<Rightarrow> (Inl e, if took then w'\<lparr>mails := mails w @ [MailjetMail q]\<rparr> else w')
        | Answer r # _ \<Rightarrow>
            (Inr r, if 200 \<le> hrStatus r \<and> hrStatus r < 300 then w'\<lparr>mails := mails w @ [MailjetMail q]\<rparr> else w'))"

definition Mailjet_SendPaymentReceipt ::
    "MailjetSender \<Rightarrow> SendInput \<Rightarrow> ('w notify_world_scheme, nerror option) state" where
  "Mailjet_SendPaymentReceipt m i =
     (if apiKey m = [] \<or> apiSecret m = [] \<or> fromEmail m = []
      then State_Monad.return (Some (Errorf ''mailjet: missing api key, secret, or from email''))
      else if TrimSpace (siToEmail i) = []
      then State_Monad.return (Some (Errorf ''mailjet: empty recipient''))
      else do {
        r \<leftarrow> mailjet_do (mailjet_request m i);
        State_Monad.return
          (case r of
             Inl e \<Rightarrow> Some (Wrapf ''mailjet http: '' (Errorf e) [])
           | Inr resp \<Rightarrow>
               if hrStatus resp < 200 \<or> 300 \<le> hrStatus resp
               then Some (Errorf (''mailjet status '' @ int_text (hrStatus resp) @ '': '' @
                      TrimSpace (read_limited 65536 resp)))
               else None)
      })"

definition mailjet :: "MailjetSender \<Rightarrow> 'w notify_world_scheme Sender" where
  "mailjet m = \<lparr>SendPaymentReceipt = Mailjet_SendPaymentReceipt m\<rparr>"

section \<open>The contract of a sender\<close>

text \<open>
  The processor relies on this of whatever sender it is given: a send that returns nil has handed
  the email to the provider, once; one that returns an error has done so at most once, unknown to
  the caller; neither touches the records of the service.
\<close>

locale receipt_sender =
  fixes sender :: "'w notify_world_scheme Sender"
    and mail_of :: "SendInput \<Rightarrow> mail"
  assumes send_ok: "run_state (SendPaymentReceipt sender i) w = (None, w') \<Longrightarrow>
      mails w' = mails w @ [mail_of i]"
    and send_error: "run_state (SendPaymentReceipt sender i) w = (Some e, w') \<Longrightarrow>
      mails w' = mails w \<or> mails w' = mails w @ [mail_of i]"
    and send_frame: "run_state (SendPaymentReceipt sender i) w = (x, w') \<Longrightarrow>
      processed_tab w' = processed_tab w \<and> redis w' = redis w \<and> redis_clock w' = redis_clock w \<and>
      faults w' = faults w"
    and send_more: "keeps notify_world.more (SendPaymentReceipt sender i)"

lemma keeps_more_sending [go_frame]:
  "keeps notify_world.more (wait d)" "keeps notify_world.more (draw_int n)" "keeps notify_world.more draw_float"
  "keeps notify_world.more (deliver x)" "keeps notify_world.more (mailjet_do q)"
  by (simp_all add: keeps_def wait_def draw_int_def draw_float_def deliver_def mailjet_do_def Let_def
      split: list.splits mailjet_answer.splits)

interpretation simulated: receipt_sender "simulated s" SimulatedMail for s
proof (unfold_locales, goal_cases)
  case (4 i)
  show ?case unfolding simulated_def Sender.simps Simulated_SendPaymentReceipt_def by (intro go_frame)
qed (auto simp: simulated_def Simulated_SendPaymentReceipt_def draw_int_def draw_float_def wait_def deliver_def
      split: if_splits option.splits list.splits)

interpretation mailjet: receipt_sender "mailjet m" "\<lambda>i. MailjetMail (mailjet_request m i)" for m
proof (unfold_locales, goal_cases)
  case (4 i)
  show ?case unfolding mailjet_def Sender.simps Mailjet_SendPaymentReceipt_def by (intro go_frame)
qed (auto simp: mailjet_def Mailjet_SendPaymentReceipt_def mailjet_do_def Let_def
      split: if_splits list.splits mailjet_answer.splits)

end
