(* ===== verification/Notify_Processor.thy ===== *)
theory Notify_Processor
  imports Notify_Email "HOL-Library.Signed_Division" "HOL-Library.Multiset"
begin

text \<open>
  The notification service's records of what was sent (\<^verbatim>\<open>internal/postgres/store.go\<close>,
  \<^verbatim>\<open>internal/redisnotify/store.go\<close>) and its processor (\<^verbatim>\<open>internal/notify/processor.go\<close>): decoding a
  message, the two duplicate checks, sending with retries and exponential backoff, recording.
  The wording of \<open>encoding/json\<close>'s errors is not modelled; it only appears in logged texts.
\<close>

section \<open>What was processed\<close>

definition sql_was_processed :: "string \<Rightarrow> 'w notify_world_scheme \<Rightarrow> (string + bool) \<times> 'w notify_world_scheme" where
  "sql_was_processed ev w = (Inr (ev \<in> processed_tab w), w)"

definition sql_record_processed :: "string \<Rightarrow> 'w notify_world_scheme \<Rightarrow> (string + unit) \<times> 'w notify_world_scheme" where
  "sql_record_processed ev w =
     (if ev \<in> processed_tab w then (Inl duplicate_key, w)
      else (Inr (), w\<lparr>processed_tab := insert ev (processed_tab w)\<rparr>))"

definition Store_WasProcessed :: "string \<Rightarrow> ('w notify_world_scheme, nerror + bool) state" where
  "Store_WasProcessed eventID =
     (if eventID = [] then State_Monad.return (Inl (Errorf ''empty event_id''))
      else do {
        r \<leftarrow> driver (sql_was_processed eventID);
        State_Monad.return (case r of Inl m \<Rightarrow> Inl (Errorf m) | Inr b \<Rightarrow> Inr b)
      })"

definition Store_RecordProcessed :: "string \<Rightarrow> ('w notify_world_scheme, nerror option) state" where
  "Store_RecordProcessed eventID = do {
     r \<leftarrow> driver (sql_record_processed eventID);
     State_Monad.return (case r of Inl m \<Rightarrow> Some (Errorf m) | Inr _ \<Rightarrow> None)
   }"

section \<open>What was sent, in Redis\<close>

definition sentValue :: string where "sentValue = ''SENT''"

record RedisStore =
  nsTtl :: duration

definition notify_key :: "string \<Rightarrow> string" where
  "notify_key paymentID = ''notify:payment:'' @ paymentID"

definition Store_AlreadySent :: "string \<Rightarrow> ('w notify_world_scheme, nerror + bool) state" where
  "Store_AlreadySent paymentID0 =
     (let paymentID = TrimSpace paymentID0
      in if paymentID = [] then State_Monad.return (Inl (Errorf ''empty payment_id''))
         else do {
           r \<leftarrow> redis_get (notify_key paymentID);
           State_Monad.return
             (case r of
                Inl m \<Rightarrow> Inl (Wrapf ''redis get: '' (Errorf m) [])
              | Inr None \<Rightarrow> Inr False
              | Inr (Some v) \<Rightarrow> Inr (v = sentValue))
         })"

definition Store_MarkSent :: "RedisStore \<Rightarrow> string \<Rightarrow> ('w notify_world_scheme, nerror option) state" where
  "Store_MarkSent s paymentID0 =
     (let paymentID = TrimSpace paymentID0
      in if paymentID = [] then State_Monad.return (Some (Errorf ''empty payment_id''))
         else do {
           r \<leftarrow> redis_set (notify_key paymentID) sentValue (nsTtl s);
           State_Monad.return (case r of Inl m \<Rightarrow> Some (Wrapf ''redis set: '' (Errorf m) []) | Inr _ \<Rightarrow> None)
         })"

section \<open>The message\<close>

record Payload =
  plEventID :: string
  plPaymentID :: string
  plOrderID :: string
  plAmount :: int64
  plCustomerEmail :: string
  plStatus :: string

definition zero_payload :: Payload where
  "zero_payload = \<lparr>plEventID = [], plPaymentID = [], plOrderID = [], plAmount = 0, plCustomerEmail = [],
     plStatus = []\<rparr>"

definition payload_member :: "Payload \<Rightarrow> string \<times> json \<Rightarrow> Payload option" where
  "payload_member pl kv =
     (case kv of (k, v) \<Rightarrow>
        if same_name k ''event_id'' then map_option (\<lambda>x. pl\<lparr>plEventID := x\<rparr>) (as_string (plEventID pl) v)
        else if same_name k ''payment_id''
        then map_option (\<lambda>x. pl\<lparr>plPaymentID := x\<rparr>) (as_string (plPaymentID pl) v)
        else if same_name k ''order_id''
        then map_option (\<lambda>x. pl\<lparr>plOrderID := x\<rparr>) (as_string (plOrderID pl) v)
        else if same_name k ''amount''
        then map_option (\<lambda>x. pl\<lparr>plAmount := x\<rparr>) (as_int64 (plAmount pl) v)
        else if same_name k ''customer_email''
        then map_option (\<lambda>x. pl\<lparr>plCustomerEmail := x\<rparr>) (as_string (plCustomerEmail pl) v)
        else if same_name k ''status''
        then map_option (\<lambda>x. pl\<lparr>plStatus := x\<rparr>) (as_string (plStatus pl) v)
        else Some pl)"

definition unmarshal_payload :: "string \<Rightarrow> Payload option" where
  "unmarshal_payload body = unmarshal_struct payload_member zero_payload body"

section \<open>The processor\<close>

record 'w Processor =
  prRedis :: RedisStore
  prSender :: "'w Sender"
  prDLQDemoOrderID :: string
  prMaxAttempts :: int64
  prBackoffBase :: duration

text \<open>\<open>p.BackoffBase * time.Duration(1<<uint(attempt-1))\<close>: the shift and the product wrap.\<close>

definition backoff :: "duration \<Rightarrow> nat \<Rightarrow> duration" where
  "backoff base attempt = base * push_bit (attempt - 1) 1"

text \<open>
  Lines 90 to 103: \<open>n\<close> attempts are left, \<open>attempt\<close> were made, the last with error
  \<open>lastErr\<close>. \<open>Inl\<close>: the context was done during a wait.
\<close>

fun send_loop :: "'w notify_world_scheme Processor \<Rightarrow> SendInput \<Rightarrow> nat \<Rightarrow> nat \<Rightarrow> nerror option \<Rightarrow>
    ('w notify_world_scheme, ctx_err + nerror option) state" where
  "send_loop p i attempt 0 lastErr = State_Monad.return (Inr lastErr)"
| "send_loop p i attempt (Suc n) lastErr = do {
     d \<leftarrow> (if 0 < attempt then wait (backoff (prBackoffBase p) attempt) else State_Monad.return None);
     (case d of
        Some c \<Rightarrow> State_Monad.return (Inl c)
      | None \<Rightarrow> do {
          e \<leftarrow> SendPaymentReceipt (prSender p) i;
          (case e of
             None \<Rightarrow> State_Monad.return (Inr None)
           | Some err \<Rightarrow> send_loop p i (Suc attempt) n (Some err))
        })
   }"

definition attempts :: "'w Processor \<Rightarrow> nat" where
  "attempts p = nat (sint (prMaxAttempts p))"

definition transient :: "string \<Rightarrow> nerror \<Rightarrow> nerror" where
  "transient what e = Wrapf [] (Sentinel ErrTransient) ('': '' @ what @ nerror_text e)"

definition poison :: "string \<Rightarrow> nerror" where
  "poison what = Wrapf [] (Sentinel ErrPoison) ('': '' @ what)"

definition pad2 :: "int \<Rightarrow> string" where
  "pad2 i = (let t = int_text i in if length t < 2 then CHR ''0'' # t else t)"

text \<open>Division and remainder truncate, negation wraps.\<close>

definition formatUSD :: "int64 \<Rightarrow> string" where
  "formatUSD cents0 =
     (let neg = cents0 <s 0;
          cents = (if neg then - cents0 else cents0);
          dollars = sint cents sdiv 100;
          fr = sint cents smod 100;
          s = ''$'' @ int_text dollars @ ''.'' @ pad2 fr
      in if neg then ''-'' @ s else s)"

definition log_printf :: "string \<Rightarrow> ('w notify_world_scheme, unit) state" where
  "log_printf l = State (\<lambda>w. ((), w\<lparr>nlog := nlog w @ [l]\<rparr>))"

text \<open>Lines 108 to 117.\<close>

definition finish :: "'w notify_world_scheme Processor \<Rightarrow> Payload \<Rightarrow> string \<Rightarrow> ('w notify_world_scheme, nerror option) state" where
  "finish p pl paymentID = do {
     e \<leftarrow> Store_RecordProcessed (plEventID pl);
     (case e of
        Some err \<Rightarrow> State_Monad.return (Some (transient ''record processed: '' err))
      | None \<Rightarrow> do {
          f \<leftarrow> Store_MarkSent (prRedis p) paymentID;
          (case f of
             Some err \<Rightarrow> State_Monad.return (Some (transient ''redis mark sent: '' err))
           | None \<Rightarrow> do {
               log_printf (''[Notification] Sent email to '' @ plCustomerEmail pl @ '' for Order #'' @ plOrderID pl @
                 ''. Amount: '' @ formatUSD (plAmount pl));
               State_Monad.return None
             })
        })
   }"

text \<open>The payment a message is about (lines 53 to 56), and its email (lines 78 to 84).\<close>

definition payment_id_of :: "Payload \<Rightarrow> string" where
  "payment_id_of pl =
     (if TrimSpace (plPaymentID pl) = [] then TrimSpace (plEventID pl) else TrimSpace (plPaymentID pl))"

definition send_input :: "Payload \<Rightarrow> SendInput" where
  "send_input pl = \<lparr>siToEmail = TrimSpace (plCustomerEmail pl), siOrderID = TrimSpace (plOrderID pl),
     siPaymentID = payment_id_of pl, siAmountCents = plAmount pl, siStatus = TrimSpace (plStatus pl)\<rparr>"

text \<open>Lines 74 to 118: the message is no duplicate.\<close>

definition send_and_record ::
    "'w notify_world_scheme Processor \<Rightarrow> Payload \<Rightarrow> ('w notify_world_scheme, nerror option) state" where
  "send_and_record p pl =
     (if prDLQDemoOrderID p \<noteq> [] \<and> TrimSpace (plOrderID pl) = prDLQDemoOrderID p
      then State_Monad.return (Some (Sentinel ErrForceDLQDemo))
      else if siToEmail (send_input pl) = []
      then State_Monad.return (Some (poison ''missing customer_email''))
      else do {
        r \<leftarrow> send_loop p (send_input pl) 0 (attempts p) None;
        (case r of
           Inl c \<Rightarrow> State_Monad.return (Some (CtxErr c))
         | Inr (Some lastErr) \<Rightarrow> State_Monad.return (Some (transient [] lastErr))
         | Inr None \<Rightarrow> finish p pl (payment_id_of pl))
      })"

definition Processor_Handle ::
    "'w notify_world_scheme Processor \<Rightarrow> string \<Rightarrow> ('w notify_world_scheme, nerror option) state" where
  "Processor_Handle p body =
     (case unmarshal_payload body of
        None \<Rightarrow> State_Monad.return (Some (poison ''json: cannot unmarshal''))
      | Some pl \<Rightarrow>
          if TrimSpace (plEventID pl) = [] then State_Monad.return (Some (poison ''missing event_id''))
          else do {
            d \<leftarrow> Store_WasProcessed (plEventID pl);
            (case d of
               Inl err \<Rightarrow> State_Monad.return (Some (transient ''idempotency store: '' err))
             | Inr True \<Rightarrow> State_Monad.return None
             | Inr False \<Rightarrow> do {
                 s \<leftarrow> Store_AlreadySent (payment_id_of pl);
                 (case s of
                    Inl err \<Rightarrow> State_Monad.return (Some (transient ''redis idempotency: '' err))
                  | Inr True \<Rightarrow> State_Monad.return None
                  | Inr False \<Rightarrow> send_and_record p pl)
               })
          })"

section \<open>The consumer\<close>

text \<open>What \<open>handle\<close> of \<^verbatim>\<open>cmd/notification-service/main.go\<close> tells the broker.\<close>

datatype disposition = Ack | Nack bool

definition dispose :: "nerror option \<Rightarrow> disposition" where
  "dispose e =
     (case e of
        None \<Rightarrow> Ack
      | Some err \<Rightarrow>
          if errors_Is err ErrPoison \<or> errors_Is err ErrForceDLQDemo then Nack False
          else if errors_Is err ErrTransient then Nack True
          else Nack True)"

definition consumer_handle ::
    "'w notify_world_scheme Processor \<Rightarrow> string \<Rightarrow> ('w notify_world_scheme, disposition) state" where
  "consumer_handle p body = do { e \<leftarrow> Processor_Handle p body; State_Monad.return (dispose e) }"

text \<open>
  The broker's side: the queue, what was dead-lettered (the queue is declared with a dead-letter
  exchange), what was settled for good. An answer to the broker may be lost; then, as when it is
  a requeue, the message is delivered again, from the place it had.
\<close>

record consumer_world = notify_world +
  mq :: "string list"
  dlq :: "string list"
  settled :: "string list"
  answers_lost :: "bool list"

definition consume_one :: "consumer_world Processor \<Rightarrow> (consumer_world, unit) state" where
  "consume_one p = State (\<lambda>w.
     case mq w of
       [] \<Rightarrow> ((), w)
     | b # rest \<Rightarrow>
         (case run_state (consumer_handle p b) w of (d, w1) \<Rightarrow>
            let lost = (case answers_lost w1 of [] \<Rightarrow> False | x # _ \<Rightarrow> x);
                w2 = w1\<lparr>answers_lost := tl (answers_lost w1)\<rparr>
            in if lost then ((), w2)
               else
                 (case d of
                    Ack \<Rightarrow> ((), w2\<lparr>mq := rest, settled := settled w2 @ [b]\<rparr>)
                  | Nack False \<Rightarrow> ((), w2\<lparr>mq := rest, dlq := dlq w2 @ [b]\<rparr>)
                  | Nack True \<Rightarrow> ((), w2\<lparr>mq := b # rest\<rparr>))))"

text \<open>The loop of \<open>main\<close> over the deliveries, for \<open>n\<close> of them.\<close>

fun consume :: "consumer_world Processor \<Rightarrow> nat \<Rightarrow> (consumer_world, unit) state" where
  "consume p 0 = State_Monad.return ()"
| "consume p (Suc n) = do { consume_one p; consume p n }"

end
