(* ===== verification/Go_Time.thy ===== *)
theory Go_Time
  imports Go_Json
begin

text \<open>
  The texts of a \<open>time.Time\<close>: the layout the HTTP handlers format with
  (\<open>2006-01-02T15:04:05Z07:00\<close>) and the JSON form of a time (RFC 3339 with nanoseconds), which
  the order cache writes and reads. A JSON time that was written is read back unchanged.
  \<open>time.Time.UnmarshalJSON\<close> accepts, on top of RFC 3339, a few sloppy forms (one-digit hours, a
  comma before the fraction); the reader here accepts RFC 3339.
\<close>

section \<open>Writing\<close>

definition pad :: "nat \<Rightarrow> nat \<Rightarrow> string" where
  "pad k n = replicate (k - length (nat_text n)) (CHR ''0'') @ nat_text n"

definition zone_text :: "int \<Rightarrow> string" where
  "zone_text z =
     (if z = 0 then ''Z''
      else (if z < 0 then CHR ''-'' else CHR ''+'') # pad 2 (nat \<bar>z\<bar> div 60) @ CHR '':'' #
        pad 2 (nat \<bar>z\<bar> mod 60))"

definition seconds_text :: "gotime \<Rightarrow> string" where
  "seconds_text t =
     pad 4 (tYear t) @ CHR ''-'' # pad 2 (tMonth t) @ CHR ''-'' # pad 2 (tDay t) @ CHR ''T'' #
     pad 2 (tHour t) @ CHR '':'' # pad 2 (tMin t) @ CHR '':'' # pad 2 (tSec t)"

definition FormatRFC3339 :: "gotime \<Rightarrow> string" where
  "FormatRFC3339 t = seconds_text t @ zone_text (tZone t)"

definition strip_zeros :: "string \<Rightarrow> string" where
  "strip_zeros s = rev (dropWhile (\<lambda>c. c = CHR ''0'') (rev s))"

definition frac_text :: "nat \<Rightarrow> string" where
  "frac_text ns = (if ns = 0 then [] else CHR ''.'' # strip_zeros (pad 9 ns))"

text \<open>\<open>Time.MarshalJSON\<close> refuses a year that needs more than four digits, or a zone beyond 23:59.\<close>

definition time_json :: "gotime \<Rightarrow> json option" where
  "time_json t =
     (if tYear t < 10000 \<and> \<bar>tZone t\<bar> < 1440
      then Some (JStr (seconds_text t @ frac_text (tNsec t) @ zone_text (tZone t)))
      else None)"

section \<open>Reading\<close>

definition read_digits :: "nat \<Rightarrow> string \<Rightarrow> (nat \<times> string) option" where
  "read_digits k s =
     (if k \<le> length s \<and> list_all is_digit (take k s) then Some (nat_value (take k s), drop k s)
      else None)"

definition read_char :: "char \<Rightarrow> string \<Rightarrow> string option" where
  "read_char c s = (case s of d # r \<Rightarrow> if d = c then Some r else None | [] \<Rightarrow> None)"

definition leap :: "nat \<Rightarrow> bool" where
  "leap y \<longleftrightarrow> 4 dvd y \<and> (\<not> 100 dvd y \<or> 400 dvd y)"

definition days_in :: "nat \<Rightarrow> nat \<Rightarrow> nat" where
  "days_in m y =
     (if m = 2 then (if leap y then 29 else 28) else if m \<in> {4, 6, 9, 11} then 30 else 31)"

definition valid_time :: "gotime \<Rightarrow> bool" where
  "valid_time t \<longleftrightarrow>
     tYear t < 10000 \<and> 1 \<le> tMonth t \<and> tMonth t \<le> 12 \<and> 1 \<le> tDay t \<and> tDay t \<le> days_in (tMonth t) (tYear t) \<and>
     tHour t < 24 \<and> tMin t < 60 \<and> tSec t < 60 \<and> tNsec t < 10 ^ 9 \<and> \<bar>tZone t\<bar> < 1440"

definition read_frac :: "string \<Rightarrow> nat \<times> string" where
  "read_frac s =
     (case s of
        c # r \<Rightarrow>
          if c = CHR ''.'' \<and> takeWhile is_digit r \<noteq> [] then
            (let ds = take 9 (takeWhile is_digit r)
             in (nat_value ds * 10 ^ (9 - length ds), dropWhile is_digit r))
          else (0, s)
      | [] \<Rightarrow> (0, s))"

definition read_zone :: "string \<Rightarrow> int option" where
  "read_zone s =
     (if s = ''Z'' then Some 0
      else
        (case s of
           [] \<Rightarrow> None
         | c # r \<Rightarrow>
             if c = CHR ''+'' \<or> c = CHR ''-'' then
               do {
                 (h, r1) \<leftarrow> read_digits 2 r;
                 r2 \<leftarrow> read_char (CHR '':'') r1;
                 (m, r3) \<leftarrow> read_digits 2 r2;
                 (if r3 = [] \<and> h < 24 \<and> m < 60
                  then Some (if c = CHR ''-'' then - int (60 * h + m) else int (60 * h + m))
                  else None)
               }
             else None))"

definition parse_time :: "string \<Rightarrow> gotime option" where
  "parse_time s = do {
     (y, s1) \<leftarrow> read_digits 4 s;   s2 \<leftarrow> read_char (CHR ''-'') s1;
     (mo, s3) \<leftarrow> read_digits 2 s2;  s4 \<leftarrow> read_char (CHR ''-'') s3;
     (d, s5) \<leftarrow> read_digits 2 s4;   s6 \<leftarrow> read_char (CHR ''T'') s5;
     (h, s7) \<leftarrow> read_digits 2 s6;   s8 \<leftarrow> read_char (CHR '':'') s7;
     (mi, s9) \<leftarrow> read_digits 2 s8;  s10 \<leftarrow> read_char (CHR '':'') s9;
     (se, s11) \<leftarrow> read_digits 2 s10;
     z \<leftarrow> read_zone (snd (read_frac s11));
     (let t = \<lparr>tYear = y, tMonth = mo, tDay = d, tHour = h, tMin = mi, tSec = se,
               tNsec = fst (read_frac s11), tZone = z\<rparr>
      in if valid_time t then Some t else None)
   }"

definition time_of_json :: "json \<Rightarrow> gotime option" where
  "time_of_json v = (case v of JStr s \<Rightarrow> parse_time s | _ \<Rightarrow> None)"

text \<open>The instant of a time, in nanoseconds: the order of a TIMESTAMPTZ column.\<close>

definition days_before_year :: "nat \<Rightarrow> nat" where
  "days_before_year y = (let n = y - 1 in 365 * n + n div 4 - n div 100 + n div 400)"

definition instant :: "gotime \<Rightarrow> int" where
  "instant t =
     (let days = days_before_year (tYear t) + sum_list (map (\<lambda>m. days_in m (tYear t)) [1..<tMonth t]) + tDay t;
          minutes = (int days * 24 + int (tHour t)) * 60 + int (tMin t) - tZone t
      in (minutes * 60 + int (tSec t)) * 1000000000 + int (tNsec t))"

section \<open>The round trip\<close>

lemma nat_value_append: "nat_value (s @ t) = nat_value s * 10 ^ length t + nat_value t"
proof (induction t rule: rev_induct)
  case (snoc c t)
  have "nat_value ((s @ t) @ [c]) = 10 * nat_value (s @ t) + digit_value c"
    and "nat_value (t @ [c]) = 10 * nat_value t + digit_value c" by (simp_all add: nat_value_def)
  with snoc show ?case by (simp add: algebra_simps)
qed (simp add: nat_value_def)

lemma nat_value_zeros [simp]: "nat_value (replicate k (CHR ''0'')) = 0"
  by (induction k) (simp_all add: nat_value_def digit_value_def)

lemma length_nat_text: "n < 10 ^ k \<Longrightarrow> 0 < k \<Longrightarrow> length (nat_text n) \<le> k"
proof (induction n arbitrary: k rule: nat_text.induct)
  case (1 n)
  show ?case
  proof (cases "n < 10")
    case False
    with 1(2) obtain j where k: "k = Suc j" "0 < j" by (cases k; cases "k - 1") auto
    then have "n div 10 < 10 ^ j" using 1(2) by auto
    with 1(1) False k show ?thesis by (simp add: nat_text.simps [of n])
  qed (use 1 in \<open>simp add: nat_text.simps [of n]\<close>)
qed

lemma length_pad: "n < 10 ^ k \<Longrightarrow> 0 < k \<Longrightarrow> length (pad k n) = k"
  using length_nat_text [of n k] by (simp add: pad_def)

lemma pad_digits: "list_all is_digit (pad k n)"
  using nat_text_digits [of n] by (auto simp: pad_def list_all_iff is_digit_def)

lemma nat_value_pad [simp]: "nat_value (pad k n) = n"
  by (simp add: pad_def nat_value_append)

lemma read_digits_pad: "n < 10 ^ k \<Longrightarrow> 0 < k \<Longrightarrow> read_digits k (pad k n @ r) = Some (n, r)"
  using length_pad [of n k] pad_digits [of k n] by (simp add: read_digits_def)

lemma read_char_Cons [simp]: "read_char c (c # r) = Some r"
  by (simp add: read_char_def)

lemma strip_zeros_append: "\<exists>k. s = strip_zeros s @ replicate k (CHR ''0'')"
proof -
  have "takeWhile (\<lambda>c. c = CHR ''0'') (rev s) =
      replicate (length (takeWhile (\<lambda>c. c = CHR ''0'') (rev s))) (CHR ''0'')"
    by (rule replicate_eqI [symmetric, THEN sym]) (auto dest: set_takeWhileD)
  then have "rev s = replicate (length (takeWhile (\<lambda>c. c = CHR ''0'') (rev s))) (CHR ''0'') @ rev (strip_zeros s)"
    unfolding strip_zeros_def rev_rev_ident by (metis takeWhile_dropWhile_id)
  then have "s = strip_zeros s @ replicate (length (takeWhile (\<lambda>c. c = CHR ''0'') (rev s))) (CHR ''0'')"
    by (metis rev_append rev_replicate rev_rev_ident)
  then show ?thesis by blast
qed

text \<open>The digits of a fraction with its trailing zeros dropped.\<close>

lemma strip_zeros_pad:
  assumes "0 < ns" and "ns < 10 ^ 9"
  shows "list_all is_digit (strip_zeros (pad 9 ns))" and "strip_zeros (pad 9 ns) \<noteq> []"
    and "length (strip_zeros (pad 9 ns)) \<le> 9"
    and "nat_value (strip_zeros (pad 9 ns)) * 10 ^ (9 - length (strip_zeros (pad 9 ns))) = ns"
proof -
  let ?s = "strip_zeros (pad 9 ns)"
  obtain k where k: "pad 9 ns = ?s @ replicate k (CHR ''0'')" using strip_zeros_append by blast
  have len: "length (pad 9 ns) = 9" using length_pad [of ns 9] assms by simp
  then have l: "length ?s + k = 9" using k by (metis length_append length_replicate)
  show "list_all is_digit ?s" using pad_digits [of 9 ns] k by (metis list_all_append)
  show "length ?s \<le> 9" using l by simp
  have "nat_value (pad 9 ns) = nat_value ?s * 10 ^ k"
    by (subst k) (simp add: nat_value_append)
  then have v: "nat_value ?s * 10 ^ k = ns" by simp
  then show "?s \<noteq> []" using assms(1) by (auto simp: nat_value_def)
  show "nat_value ?s * 10 ^ (9 - length ?s) = ns" using v l by (metis add_diff_cancel_left')
qed

lemma zone_text_hd:
  obtains c r where "zone_text z = c # r" and "\<not> is_digit c" and "c \<noteq> CHR ''.''"
  by (cases "z = 0"; cases "z < 0") (auto simp: zone_text_def is_digit_def)

lemma read_frac_text:
  assumes "ns < 10 ^ 9"
  shows "read_frac (frac_text ns @ zone_text z) = (ns, zone_text z)"
proof -
  obtain c r where z: "zone_text z = c # r" "\<not> is_digit c" "c \<noteq> CHR ''.''" by (rule zone_text_hd)
  show ?thesis
  proof (cases "ns = 0")
    case True
    then show ?thesis using z by (simp add: frac_text_def read_frac_def)
  next
    case False
    let ?s = "strip_zeros (pad 9 ns)"
    note s = strip_zeros_pad [of ns]
    have "takeWhile is_digit (?s @ zone_text z) = ?s" "dropWhile is_digit (?s @ zone_text z) = zone_text z"
      using z s(1) False assms by (simp_all add: takeWhile_append dropWhile_append list_all_iff)
    then show ?thesis using s False assms by (simp add: frac_text_def read_frac_def Let_def)
  qed
qed

lemma read_zone_text:
  assumes "\<bar>z\<bar> < 1440"
  shows "read_zone (zone_text z) = Some z"
proof (cases "z = 0")
  case False
  let ?a = "nat \<bar>z\<bar>"
  have h: "?a div 60 < 24" using assms by (simp add: less_mult_imp_div_less)
  have "read_digits 2 (pad 2 (?a div 60) @ r) = Some (?a div 60, r)"
    and "read_digits 2 (pad 2 (?a mod 60) @ r) = Some (?a mod 60, r)" for r
    using h by (simp_all add: read_digits_pad order.strict_trans2 [OF mod_less_divisor])
  note rd = this this(2) [of "[]", simplified]
  have "int (60 * (?a div 60) + ?a mod 60) = \<bar>z\<bar>" by simp
  with False rd h show ?thesis by (auto simp: zone_text_def read_zone_def)
qed (simp add: zone_text_def read_zone_def)

lemma digit_ascii: "list_all is_digit s \<Longrightarrow> \<forall>c \<in> set s. byte c < 0x80"
  by (auto simp: list_all_iff is_digit_def byte_def)

lemma pad_ascii: "c \<in> set (pad k n) \<Longrightarrow> byte c < 0x80"
  using digit_ascii [OF pad_digits] by blast

lemma frac_ascii: "ns < 10 ^ 9 \<Longrightarrow> c \<in> set (frac_text ns) \<Longrightarrow> byte c < 0x80"
  using digit_ascii [OF strip_zeros_pad(1) [of ns]]
  by (cases "ns = 0") (auto simp: frac_text_def byte_def)

lemma punctuation_ascii:
  "byte (CHR ''-'') < 0x80" "byte (CHR ''+'') < 0x80" "byte (CHR '':'') < 0x80" "byte (CHR ''T'') < 0x80"
  "byte (CHR ''Z'') < 0x80"
  by (simp_all add: byte_def)

lemma time_ascii:
  assumes "tNsec t < 10 ^ 9"
    and "c \<in> set (seconds_text t @ frac_text (tNsec t) @ zone_text (tZone t))"
  shows "byte c < 0x80"
  using assms
  by (auto simp: seconds_text_def zone_text_def punctuation_ascii dest: pad_ascii frac_ascii [simplified]
      split: if_splits)

theorem time_json_roundtrip:
  assumes "valid_time t"
  shows "\<exists>s. time_json t = Some (JStr s) \<and> parse_time s = Some t \<and> valid_utf8 s"
proof (intro exI conjI)
  let ?s = "seconds_text t @ frac_text (tNsec t) @ zone_text (tZone t)"
  note v = assms [unfolded valid_time_def]
  have d31: "days_in m y \<le> 31" for m y by (simp add: days_in_def)
  show "time_json t = Some (JStr ?s)" using v by (simp add: time_json_def)
  have two: "n < 100 \<Longrightarrow> read_digits 2 (pad 2 n @ r) = Some (n, r)" for n r
    by (simp add: read_digits_pad)
  have four: "read_digits 4 (pad 4 (tYear t) @ r) = Some (tYear t, r)" for r
    using v by (simp add: read_digits_pad)
  have "tMonth t < 100" "tDay t < 100" "tHour t < 100" "tMin t < 100" "tSec t < 100"
    using v d31 [of "tMonth t" "tYear t"] by linarith+
  moreover have self: "\<lparr>tYear = tYear t, tMonth = tMonth t, tDay = tDay t, tHour = tHour t, tMin = tMin t,
      tSec = tSec t, tNsec = tNsec t, tZone = tZone t\<rparr> = t" by simp
  ultimately show "parse_time ?s = Some t"
    using v assms
    by (simp add: parse_time_def seconds_text_def two four read_frac_text read_zone_text Let_def self)
  show "valid_utf8 ?s" using v by (intro ascii_valid) (use time_ascii in blast)
qed

end
