(* ===== verification/Payment_Core.thy ===== *)
theory Payment_Core
  imports Postgres Go_Json Go_Time
begin

text \<open>
  The core of the payment service: the domain (\<^verbatim>\<open>payment-service/internal/domain/payment.go\<close>), the
  ports and use cases (\<^verbatim>\<open>payment-service/internal/usecase\<close>), the repository over the \<open>payments\<close>
  table (\<^verbatim>\<open>internal/repository/postgres/payment_repo.go\<close>) and the publisher of
  \<open>payment.completed\<close> events (\<^verbatim>\<open>internal/infrastructure/rabbitmq/publisher.go\<close>).

  The use cases are over the ports, as in the order service; \<open>time.Now\<close> and
  \<open>uuid.NewString\<close> are the record \<open>runtime\<close>. The table is the list of its rows with the
  constraints of \<^verbatim>\<open>payment-service/migrations/001_payments.sql\<close>. The publisher keeps the state that
  matters for its answers: the channel of broker confirmations, which outlives a call.
\<close>

section \<open>Domain\<close>

record Payment =
  pID :: string
  pOrderID :: string
  pTransactionID :: string
  pAmount :: int64
  pStatus :: string
  pCreatedAt :: gotime

definition StatusAuthorized :: string where "StatusAuthorized = ''Authorized''"
definition StatusDeclined :: string where "StatusDeclined = ''Declined''"

definition MaxAuthorizedAmountCents :: int64 where
  "MaxAuthorizedAmountCents = 100000"

lemma pay_status_distinct [simp]: "StatusAuthorized \<noteq> StatusDeclined" "StatusDeclined \<noteq> StatusAuthorized"
  by (simp_all add: StatusAuthorized_def StatusDeclined_def)

section \<open>Ports\<close>

text \<open>The service has no package-level errors: every error is a text, possibly wrapped.\<close>

type_synonym perror = "unit error"

definition perror_text :: "perror \<Rightarrow> string" where
  "perror_text e = error_text (\<lambda>_. []) e"

record PaymentCompletedEvent =
  evEventID :: string
  evPaymentID :: string
  evOrderID :: string
  evAmountCents :: int64
  evCustomerEmail :: string
  evStatus :: string

record 'w PaymentRepository =
  Save :: "Payment \<Rightarrow> ('w, perror option) state"
  GetByOrderID :: "string \<Rightarrow> ('w, perror + Payment option) state"

record 'w PaymentCompletedPublisher =
  PublishPaymentCompleted :: "PaymentCompletedEvent \<Rightarrow> ('w, perror option) state"

record 'w runtime =
  Now :: "('w, gotime) state"
  NewString :: "('w, string) state"

section \<open>AuthorizePayment\<close>

record AuthorizePaymentInput =
  aiOrderID :: string
  aiAmount :: int64
  aiCustomerEmail :: string

record AuthorizePaymentOutput =
  aoPaymentID :: string
  aoTransactionID :: string
  aoStatus :: string
  aoAmount :: int64
  aoCreatedAt :: gotime

record 'w AuthorizePayment =
  apRepo :: "'w PaymentRepository"
  apPub :: "'w PaymentCompletedPublisher option"

definition NewAuthorizePayment ::
    "'w PaymentRepository \<Rightarrow> 'w PaymentCompletedPublisher option \<Rightarrow> 'w AuthorizePayment" where
  "NewAuthorizePayment r p = \<lparr>apRepo = r, apPub = p\<rparr>"

text \<open>The status the amount decides (lines 60 to 63).\<close>

definition authorize_status :: "int64 \<Rightarrow> string" where
  "authorize_status a = (if MaxAuthorizedAmountCents <s a then StatusDeclined else StatusAuthorized)"

definition payment_output :: "Payment \<Rightarrow> AuthorizePaymentOutput" where
  "payment_output p = \<lparr>aoPaymentID = pID p, aoTransactionID = pTransactionID p, aoStatus = pStatus p,
     aoAmount = pAmount p, aoCreatedAt = pCreatedAt p\<rparr>"

text \<open>The part after the row is saved (lines 78 to 102): the event of an authorized payment.\<close>

definition publish_completed ::
    "'w AuthorizePayment \<Rightarrow> Payment \<Rightarrow> string \<Rightarrow> ('w, perror + AuthorizePaymentOutput) state" where
  "publish_completed uc p customerEmail =
     (case apPub uc of
        Some pub \<Rightarrow>
          if pStatus p = StatusAuthorized then
            (let email = TrimSpace customerEmail
             in if email = [] then
                  State_Monad.return (Inl (Errorf ''customer_email is required for authorized payments''))
                else do {
                  e \<leftarrow> PublishPaymentCompleted pub
                    \<lparr>evEventID = pID p, evPaymentID = pID p, evOrderID = pOrderID p,
                     evAmountCents = pAmount p, evCustomerEmail = email, evStatus = pStatus p\<rparr>;
                  State_Monad.return
                    (case e of
                       Some err \<Rightarrow> Inl (Wrapf ''publish payment completed event: '' err [])
                     | None \<Rightarrow> Inr (payment_output p))
                })
          else State_Monad.return (Inr (payment_output p))
      | None \<Rightarrow> State_Monad.return (Inr (payment_output p)))"

definition AuthorizePayment_Execute ::
    "'w runtime \<Rightarrow> 'w AuthorizePayment \<Rightarrow> AuthorizePaymentInput \<Rightarrow>
     ('w, perror + AuthorizePaymentOutput) state" where
  "AuthorizePayment_Execute rt uc i =
     (if aiAmount i \<le>s 0 then State_Monad.return (Inl (Errorf ''amount must be greater than zero''))
      else if aiOrderID i = [] then State_Monad.return (Inl (Errorf ''order_id is required''))
      else do {
        x \<leftarrow> GetByOrderID (apRepo uc) (aiOrderID i);
        (case x of
           Inl err \<Rightarrow> State_Monad.return (Inl err)
         | Inr (Some _) \<Rightarrow>
             State_Monad.return (Inl (Errorf ''payment already exists for this order''))
         | Inr None \<Rightarrow> do {
             now \<leftarrow> Now rt;
             paymentID \<leftarrow> NewString rt;
             txnID \<leftarrow> NewString rt;
             (let p = \<lparr>pID = paymentID, pOrderID = aiOrderID i, pTransactionID = txnID,
                       pAmount = aiAmount i, pStatus = authorize_status (aiAmount i), pCreatedAt = now\<rparr>
              in do {
                e \<leftarrow> Save (apRepo uc) p;
                (case e of
                   Some err \<Rightarrow> State_Monad.return (Inl err)
                 | None \<Rightarrow> publish_completed uc p (aiCustomerEmail i))
              })
           })
      })"

section \<open>GetPaymentByOrder\<close>

record 'w GetPaymentByOrder =
  gpRepo :: "'w PaymentRepository"

definition NewGetPaymentByOrder :: "'w PaymentRepository \<Rightarrow> 'w GetPaymentByOrder" where
  "NewGetPaymentByOrder r = \<lparr>gpRepo = r\<rparr>"

definition GetPaymentByOrder_Execute ::
    "'w GetPaymentByOrder \<Rightarrow> string \<Rightarrow> ('w, perror + Payment option) state" where
  "GetPaymentByOrder_Execute uc orderID =
     (if orderID = [] then State_Monad.return (Inl (Errorf ''order_id is required''))
      else GetByOrderID (gpRepo uc) orderID)"

section \<open>The contract of the repository and of the publisher\<close>

text \<open>
  \<open>pview\<close>: the payment recorded for an order; \<open>canon\<close>: an identifier that a UUID column
  returns as it was written. A payment is recorded once and never changed;
  an error of \<open>Save\<close> may hide that the row is there. The publisher does not touch the table.
\<close>

type_synonym payment_table = "string \<rightharpoonup> Payment"

definition pay_row :: "Payment \<Rightarrow> gotime \<Rightarrow> payment_table \<Rightarrow> payment_table" where
  "pay_row p t m = m(pOrderID p \<mapsto> p\<lparr>pCreatedAt := t\<rparr>)"

locale payment_ports =
  fixes repo :: "'w PaymentRepository"
    and pub :: "'w PaymentCompletedPublisher option"
    and rt :: "'w runtime"
    and pview :: "'w \<Rightarrow> payment_table"
    and inv :: "'w \<Rightarrow> bool"
    and canon :: "string \<Rightarrow> bool"
  assumes get_view: "inv w \<Longrightarrow> run_state (GetByOrderID repo i) w = (r, w') \<Longrightarrow>
      inv w' \<and> pview w' = pview w \<and> (\<forall>x. r = Inr x \<longrightarrow> x = pview w i)"
    and save_done: "inv w \<Longrightarrow> canon (pID p) \<Longrightarrow> run_state (Save repo p) w = (None, w') \<Longrightarrow>
      inv w' \<and> pview w (pOrderID p) = None \<and> (\<exists>t. pview w' = pay_row p t (pview w))"
    and save_error: "inv w \<Longrightarrow> canon (pID p) \<Longrightarrow> run_state (Save repo p) w = (Some e, w') \<Longrightarrow>
      inv w' \<and> (pview w' = pview w \<or>
        pview w (pOrderID p) = None \<and> (\<exists>t. pview w' = pay_row p t (pview w)))"
    and publish_view: "inv w \<Longrightarrow> pub = Some q \<Longrightarrow> run_state (PublishPaymentCompleted q ev) w = (u, w') \<Longrightarrow>
      inv w' \<and> pview w' = pview w"
    and now_view: "inv w \<Longrightarrow> run_state (Now rt) w = (n, w') \<Longrightarrow> inv w' \<and> pview w' = pview w"
    and uuid_view: "inv w \<Longrightarrow> run_state (NewString rt) w = (s, w') \<Longrightarrow>
      inv w' \<and> pview w' = pview w \<and> canon s"
begin

lemma get_wp:
  assumes "inv w" and "\<And>r w'. inv w' \<Longrightarrow> pview w' = pview w \<Longrightarrow> (\<And>x. r = Inr x \<Longrightarrow> x = pview w i) \<Longrightarrow> Q r w'"
  shows "wp (GetByOrderID repo i) Q w"
  using assms get_view by (intro wpI) (metis (no_types))

lemma now_wp:
  assumes "inv w" and "\<And>n w'. inv w' \<Longrightarrow> pview w' = pview w \<Longrightarrow> Q n w'"
  shows "wp (Now rt) Q w"
  using assms now_view by (intro wpI) blast

lemma uuid_wp:
  assumes "inv w" and "\<And>n w'. inv w' \<Longrightarrow> pview w' = pview w \<Longrightarrow> canon n \<Longrightarrow> Q n w'"
  shows "wp (NewString rt) Q w"
  using assms uuid_view by (intro wpI) blast

lemma publish_wp:
  assumes "inv w" and "pub = Some q" and "\<And>n w'. inv w' \<Longrightarrow> pview w' = pview w \<Longrightarrow> Q n w'"
  shows "wp (PublishPaymentCompleted q ev) Q w"
  using assms publish_view by (intro wpI) blast

lemma save_wp:
  assumes "inv w" and "canon (pID p)"
    and "\<And>e w'. inv w' \<Longrightarrow> pview w' = pview w \<Longrightarrow> Q (Some e) w'"
    and "\<And>e t w'. inv w' \<Longrightarrow> pview w (pOrderID p) = None \<Longrightarrow> pview w' = pay_row p t (pview w) \<Longrightarrow> Q e w'"
  shows "wp (Save repo p) Q w"
proof (rule wpI)
  fix e w' assume run: "run_state (Save repo p) w = (e, w')"
  show "Q e w'"
    using save_done [OF assms(1,2), of w'] save_error [OF assms(1,2), of _ w'] run assms(3,4)
    by (cases e) blast+
qed

lemma publish_keeps:
  assumes "inv w"
  shows "wp (publish_completed (NewAuthorizePayment repo pub) p email)
    (\<lambda>r w'. inv w' \<and> pview w' = pview w \<and> (\<forall>out. r = Inr out \<longrightarrow> out = payment_output p)) w"
  unfolding publish_completed_def NewAuthorizePayment_def using assms
  by (auto simp: Let_def intro!: publish_wp split: option.splits)

text \<open>
  An authorization records at most one payment, for its own order, with the status that its
  amount decides; every payment that was there stays as it was.
\<close>

lemma authorize_records:
  assumes "inv w"
  shows "wp (AuthorizePayment_Execute rt (NewAuthorizePayment repo pub) i)
    (\<lambda>r w'. inv w' \<and>
      (pview w' = pview w \<or> pview w (aiOrderID i) = None \<and>
        (\<exists>p t. pview w' = pay_row p t (pview w) \<and> pOrderID p = aiOrderID i \<and> pAmount p = aiAmount i \<and>
           pStatus p = authorize_status (aiAmount i))) \<and>
      (\<forall>out. r = Inr out \<longrightarrow> 0 <s aiAmount i \<and> aiOrderID i \<noteq> [] \<and>
         aoStatus out = authorize_status (aiAmount i) \<and> aoAmount out = aiAmount i \<and>
         pview w (aiOrderID i) = None \<and>
         (\<exists>p t. pview w' = pay_row p t (pview w) \<and> out = payment_output p \<and> pOrderID p = aiOrderID i))) w"
proof (cases "aiAmount i \<le>s 0 \<or> aiOrderID i = []")
  case True
  with assms show ?thesis by (auto simp: AuthorizePayment_Execute_def)
next
  case False
  let ?uc = "NewAuthorizePayment repo pub"
  let ?row = "\<lambda>p w w'. \<exists>t. pview w' = pay_row p t (pview w)"
  have save: "wp (Save repo p) (\<lambda>e. wp (case e of
        Some err \<Rightarrow> State_Monad.return (Inl err)
      | None \<Rightarrow> publish_completed ?uc p email)
      (\<lambda>r w'. inv w' \<and>
        (pview w' = pview w \<or> pview w (pOrderID p) = None \<and> ?row p w w') \<and>
        (\<forall>out. r = Inr out \<longrightarrow> pview w (pOrderID p) = None \<and> ?row p w w' \<and> out = payment_output p))) w1"
    if "inv w1" and "pview w1 = pview w" and "canon (pID p)" for p email w1
  proof (rule save_wp [OF that(1,3)], goal_cases)
    case (1 e w2)
    then show ?case using that by simp
  next
    case (2 e t w2)
    show ?case
    proof (cases e)
      case None
      show ?thesis unfolding None option.case
        by (rule wp_mono [OF publish_keeps [OF 2(1)]]) (use 2 that in auto)
    next
      case (Some err)
      then show ?thesis using 2 that by auto
    qed
  qed
  have f: "0 <s aiAmount i" "aiOrderID i \<noteq> []" "apRepo ?uc = repo" "\<not> aiAmount i \<le>s 0"
    using False by (auto simp: go_int_order NewAuthorizePayment_def)
  define post where "post r w' \<longleftrightarrow> inv w' \<and>
      (pview w' = pview w \<or> pview w (aiOrderID i) = None \<and>
        (\<exists>p t. pview w' = pay_row p t (pview w) \<and> pOrderID p = aiOrderID i \<and> pAmount p = aiAmount i \<and>
           pStatus p = authorize_status (aiAmount i))) \<and>
      (\<forall>out. r = Inr out \<longrightarrow> 0 <s aiAmount i \<and> aiOrderID i \<noteq> [] \<and>
         aoStatus out = authorize_status (aiAmount i) \<and> aoAmount out = aiAmount i \<and>
         pview w (aiOrderID i) = None \<and>
         (\<exists>p t. pview w' = pay_row p t (pview w) \<and> out = payment_output p \<and> pOrderID p = aiOrderID i))"
    for r :: "perror + AuthorizePaymentOutput" and w'
  have rest: "wp (Save repo p) (\<lambda>e. wp (case e of
        Some err \<Rightarrow> State_Monad.return (Inl err)
      | None \<Rightarrow> publish_completed ?uc p email) post) w1"
    if "inv w1" and "pview w1 = pview w" and "canon (pID p)"
      and p: "pOrderID p = aiOrderID i" "pAmount p = aiAmount i" "pStatus p = authorize_status (aiAmount i)"
    for p email w1
  proof (rule wp_mono [OF save [OF that(1-3), of email]], rule wp_mono, assumption, goal_cases)
    case (1 e w2 r w3)
    have out: "aoStatus (payment_output p) = authorize_status (aiAmount i)"
      "aoAmount (payment_output p) = aiAmount i" using p by (simp_all add: payment_output_def)
    show ?case using 1(2) p f out unfolding post_def by metis
  qed
  have "wp (AuthorizePayment_Execute rt ?uc i) post w"
    unfolding AuthorizePayment_Execute_def f(3) using f(2,4)
    by (auto simp: Let_def assms intro!: get_wp now_wp uuid_wp rest split: sum.splits option.splits)
      (simp_all add: post_def)
  then show ?thesis unfolding post_def .
qed

end

end
