(* ===== verification/Payment_Store.thy ===== *)
theory Payment_Store
  imports Payment_Core
begin

text \<open>
  The payment repository over PostgreSQL and the event publisher over RabbitMQ, with the state
  they work on. The interpretation \<open>pay_ports\<close> shows that they meet \<open>payment_ports\<close>.

  A publisher confirmation is for one message but all messages share the channel \<open>confirms\<close>:
  \<open>confirm_event\<close> says when the confirmation of a message arrives, and one that arrives after
  the request's context is done stays in the channel for the next call. \<open>CtxDone\<close> is a context
  that is already done when the call waits, and that \<open>select\<close> picks it.
\<close>

datatype confirm_event =
    InTime bool
  | TooLate bool ctx_err
  | CtxDone bool ctx_err
  | ChanClosed

record pay_world = env +
  payments_tab :: "Payment list"
  published :: "(string \<times> string \<times> string) list"
  confirms :: "bool list"
  confirm_events :: "confirm_event list"
  pwall :: gotime
  puuid_seq :: "nat \<Rightarrow> string"
  puuid_pos :: nat

section \<open>The payments table\<close>

definition sql_insert_payment :: "postgres \<Rightarrow> Payment \<Rightarrow> pay_world \<Rightarrow> (string + unit) \<times> pay_world" where
  "sql_insert_payment pg p w =
     (case uuid_in pg (pID p) of
        None \<Rightarrow> (Inl (bad_uuid (pID p)), w)
      | Some k \<Rightarrow>
          if \<exists>q \<in> set (payments_tab w). pID q = k \<or> pOrderID q = pOrderID p \<or> pTransactionID q = pTransactionID p
          then (Inl duplicate_key, w)
          else if pAmount p \<le>s 0 \<or> pStatus p \<noteq> StatusAuthorized \<and> pStatus p \<noteq> StatusDeclined
          then (Inl check_violation, w)
          else (Inr (), w\<lparr>payments_tab :=
                 payments_tab w @ [p\<lparr>pID := k, pCreatedAt := ts_col pg (pCreatedAt p)\<rparr>]\<rparr>))"

text \<open>\<open>ORDER BY created_at DESC LIMIT 1\<close>\<close>

fun newest :: "Payment list \<Rightarrow> Payment option" where
  "newest [] = None"
| "newest (p # ps) =
     (case newest ps of
        None \<Rightarrow> Some p
      | Some q \<Rightarrow> if instant (pCreatedAt q) \<le> instant (pCreatedAt p) then Some p else Some q)"

definition payment_of :: "pay_world \<Rightarrow> payment_table" where
  "payment_of w i = newest (filter (\<lambda>p. pOrderID p = i) (payments_tab w))"

definition sql_get_payment :: "string \<Rightarrow> pay_world \<Rightarrow> (string + Payment option) \<times> pay_world" where
  "sql_get_payment i w = (Inr (payment_of w i), w)"

definition pay_error :: "string \<Rightarrow> string \<Rightarrow> perror" where
  "pay_error pre m = Wrapf pre (Errorf m) []"

definition repo_Save :: "postgres \<Rightarrow> Payment \<Rightarrow> (pay_world, perror option) state" where
  "repo_Save pg p = do {
     r \<leftarrow> driver (sql_insert_payment pg p);
     State_Monad.return (case r of Inl m \<Rightarrow> Some (pay_error ''save payment: '' m) | Inr _ \<Rightarrow> None)
   }"

definition repo_GetByOrderID :: "string \<Rightarrow> (pay_world, perror + Payment option) state" where
  "repo_GetByOrderID orderID = do {
     r \<leftarrow> driver (sql_get_payment orderID);
     State_Monad.return
       (case r of Inl m \<Rightarrow> Inl (pay_error ''get payment by order: '' m) | Inr row \<Rightarrow> Inr row)
   }"

definition payment_repo :: "postgres \<Rightarrow> pay_world PaymentRepository" where
  "payment_repo pg = \<lparr>Save = repo_Save pg, GetByOrderID = repo_GetByOrderID\<rparr>"

definition pay_runtime :: "pay_world runtime" where
  "pay_runtime = \<lparr>Now = State (\<lambda>w. (pwall w, w)),
     NewString = State (\<lambda>w. (puuid_seq w (puuid_pos w), w\<lparr>puuid_pos := Suc (puuid_pos w)\<rparr>))\<rparr>"

section \<open>The publisher\<close>

definition exchangeName :: string where "exchangeName = ''notifications.events''"
definition routingPaymentCompleted :: string where "routingPaymentCompleted = ''payment.completed''"

definition completed_json :: "PaymentCompletedEvent \<Rightarrow> json" where
  "completed_json e =
     (let pid = (if evPaymentID e = [] then evEventID e else evPaymentID e)
      in JObj [(''event_id'', JStr (evEventID e)), (''payment_id'', JStr pid),
               (''order_id'', JStr (evOrderID e)), (''amount'', JNum (int_text (sint (evAmountCents e)))),
               (''customer_email'', JStr (evCustomerEmail e)), (''status'', JStr (evStatus e))])"

definition completed_body :: "PaymentCompletedEvent \<Rightarrow> string" where
  "completed_body e = render (completed_json e)"

definition amqp_publish :: "string \<Rightarrow> string \<Rightarrow> string \<Rightarrow> pay_world \<Rightarrow> (string + unit) \<times> pay_world" where
  "amqp_publish x key body w = (Inr (), w\<lparr>published := published w @ [(x, key, body)]\<rparr>)"

text \<open>
  The \<open>select\<close> on the context and the channel. A confirmation that waits in the channel is taken
  at once; otherwise the call waits for the next one, the end of the context, or the close.
\<close>

definition closed_error :: perror where
  "closed_error = Errorf ''publisher confirms channel closed''"

definition ack_result :: "bool \<Rightarrow> perror option" where
  "ack_result a = (if a then None else Some (Errorf ''broker did not ack publish''))"

definition await_confirm :: "(pay_world, perror option) state" where
  "await_confirm = State (\<lambda>w.
     let ev = (case confirm_events w of [] \<Rightarrow> InTime True | x # _ \<Rightarrow> x);
         w' = w\<lparr>confirm_events := tl (confirm_events w)\<rparr>
     in case (ev, confirms w) of
          (CtxDone b c, cs) \<Rightarrow> (Some (CtxErr c), w'\<lparr>confirms := cs @ [b]\<rparr>)
        | (InTime b, a # as) \<Rightarrow> (ack_result a, w'\<lparr>confirms := as @ [b]\<rparr>)
        | (TooLate b _, a # as) \<Rightarrow> (ack_result a, w'\<lparr>confirms := as @ [b]\<rparr>)
        | (ChanClosed, a # as) \<Rightarrow> (ack_result a, w'\<lparr>confirms := as\<rparr>)
        | (InTime b, []) \<Rightarrow> (ack_result b, w')
        | (TooLate b c, []) \<Rightarrow> (Some (CtxErr c), w'\<lparr>confirms := [b]\<rparr>)
        | (ChanClosed, []) \<Rightarrow> (Some closed_error, w'))"

definition Publisher_PublishPaymentCompleted ::
    "PaymentCompletedEvent \<Rightarrow> (pay_world, perror option) state" where
  "Publisher_PublishPaymentCompleted e = do {
     r \<leftarrow> driver (amqp_publish exchangeName routingPaymentCompleted (completed_body e));
     (case r of
        Inl m \<Rightarrow> State_Monad.return (Some (pay_error ''publish: '' m))
      | Inr _ \<Rightarrow> await_confirm)
   }"

definition amqp_publisher :: "pay_world PaymentCompletedPublisher" where
  "amqp_publisher = \<lparr>PublishPaymentCompleted = Publisher_PublishPaymentCompleted\<rparr>"

text \<open>
  The publisher that \<^verbatim>\<open>cmd/payment-service/main.go\<close> hands to the use case (lines 49 to 62): none
  when \<open>PAYMENT_RABBITMQ_URL\<close> is not set.
\<close>

definition publisher_of :: "string \<Rightarrow> pay_world PaymentCompletedPublisher option" where
  "publisher_of amqpURL = (if amqpURL \<noteq> [] then Some amqp_publisher else None)"

section \<open>The invariant, and the contract\<close>

definition pay_inv :: "postgres \<Rightarrow> pay_world \<Rightarrow> bool" where
  "pay_inv pg w \<longleftrightarrow>
     distinct (map pOrderID (payments_tab w)) \<and>
     (\<forall>p \<in> set (payments_tab w). 0 <s pAmount p \<and> (pStatus p = StatusAuthorized \<or> pStatus p = StatusDeclined)) \<and>
     (\<forall>n. uuid_in pg (puuid_seq w n) = Some (puuid_seq w n))"

lemma pay_inv_env [simp]:
  "pay_inv pg (w\<lparr>faults := f\<rparr>) = pay_inv pg w"
  "pay_inv pg (w\<lparr>puuid_pos := n\<rparr>) = pay_inv pg w"
  "pay_inv pg (w\<lparr>published := l\<rparr>) = pay_inv pg w"
  "pay_inv pg (w\<lparr>confirms := c\<rparr>) = pay_inv pg w"
  "pay_inv pg (w\<lparr>confirm_events := es\<rparr>) = pay_inv pg w"
  by (simp_all add: pay_inv_def)

lemma payment_of_env [simp]:
  "payment_of (w\<lparr>faults := f\<rparr>) = payment_of w"
  "payment_of (w\<lparr>puuid_pos := n\<rparr>) = payment_of w"
  "payment_of (w\<lparr>published := l\<rparr>) = payment_of w"
  "payment_of (w\<lparr>confirms := c\<rparr>) = payment_of w"
  "payment_of (w\<lparr>confirm_events := es\<rparr>) = payment_of w"
  by (simp_all add: payment_of_def fun_eq_iff)

text \<open>The row of an order: there is at most one, so the order of the rows does not matter.\<close>

lemma payment_of_None: "payment_of w i = None \<longleftrightarrow> i \<notin> pOrderID ` set (payments_tab w)"
proof -
  have "newest ps = None \<longleftrightarrow> ps = []" for ps
    by (cases ps) (auto split: option.splits)
  then show ?thesis by (auto simp: payment_of_def filter_empty_conv)
qed

lemma payment_of_mem:
  assumes "payment_of w i = Some p"
  shows "p \<in> set (payments_tab w)" and "pOrderID p = i"
proof -
  have "newest ps = Some q \<Longrightarrow> q \<in> set ps" for ps q
    by (induction ps) (auto split: option.splits if_splits)
  from this [OF assms [unfolded payment_of_def]] show "p \<in> set (payments_tab w)" "pOrderID p = i" by simp_all
qed

lemma payment_of_append:
  assumes "pOrderID p \<notin> pOrderID ` set (payments_tab w)"
  shows "payment_of (w\<lparr>payments_tab := payments_tab w @ [p]\<rparr>) = (payment_of w)(pOrderID p \<mapsto> p)"
proof
  fix i
  have "filter (\<lambda>q. pOrderID q = pOrderID p) (payments_tab w) = []"
    using assms by (metis (mono_tags, lifting) filter_False image_eqI)
  then show "payment_of (w\<lparr>payments_tab := payments_tab w @ [p]\<rparr>) i = ((payment_of w)(pOrderID p \<mapsto> p)) i"
    by (simp add: payment_of_def)
qed

lemma insert_effect:
  assumes "pay_inv pg w" and "uuid_in pg (pID p) = Some (pID p)" and "sql_insert_payment pg p w = (r, w')"
  shows "pay_inv pg w' \<and> (r = Inr () \<and> payment_of w (pOrderID p) = None \<and>
      payment_of w' = pay_row p (ts_col pg (pCreatedAt p)) (payment_of w) \<or>
    (\<exists>m. r = Inl m) \<and> payment_of w' = payment_of w)"
proof (cases "\<exists>q \<in> set (payments_tab w). pID q = pID p \<or> pOrderID q = pOrderID p \<or> pTransactionID q = pTransactionID p")
  case True
  with assms show ?thesis by (auto simp: sql_insert_payment_def)
next
  case False
  then have new: "pOrderID p \<notin> pOrderID ` set (payments_tab w)" by auto
  let ?row = "p\<lparr>pCreatedAt := ts_col pg (pCreatedAt p)\<rparr>"
  have "payment_of (w\<lparr>payments_tab := payments_tab w @ [?row]\<rparr>) = pay_row p (ts_col pg (pCreatedAt p)) (payment_of w)"
    using payment_of_append [of ?row w] new by (simp add: pay_row_def)
  moreover have "pay_inv pg (w\<lparr>payments_tab := payments_tab w @ [?row]\<rparr>)"
    if "0 <s pAmount p" "pStatus p = StatusAuthorized \<or> pStatus p = StatusDeclined"
    using assms(1) new that by (auto simp: pay_inv_def)
  moreover have "p\<lparr>pID := pID p, pCreatedAt := t\<rparr> = p\<lparr>pCreatedAt := t\<rparr>" for t by simp
  ultimately show ?thesis
    using assms False new
    by (auto simp: sql_insert_payment_def payment_of_None go_int_order split: if_splits)
qed

text \<open>An answer of the table, and an insertion whose answer may be lost.\<close>

lemma repo_get_spec:
  "wp (repo_GetByOrderID i) (\<lambda>r w'. w' = w\<lparr>faults := tl (faults w)\<rparr> \<and>
     (\<forall>x. r = Inr x \<longrightarrow> x = payment_of w i)) w"
  unfolding repo_GetByOrderID_def wp_bind
  by (rule driver_read_wp) (auto simp: sql_get_payment_def)

lemma repo_save_spec:
  assumes "pay_inv pg w" and "uuid_in pg (pID p) = Some (pID p)"
  shows "wp (repo_Save pg p) (\<lambda>e w'. pay_inv pg w' \<and>
     (payment_of w' = payment_of w \<and> e \<noteq> None \<or>
      payment_of w (pOrderID p) = None \<and>
      payment_of w' = pay_row p (ts_col pg (pCreatedAt p)) (payment_of w))) w"
  unfolding repo_Save_def wp_bind
proof (rule driver_wp, goal_cases)
  case (1 m)
  then show ?case using assms by simp
next
  case (2 r w')
  then show ?case
    using insert_effect [OF _ assms(2) 2] assms(1) by auto
qed

lemma await_frame:
  assumes "run_state await_confirm w = (e, w')"
  shows "pay_inv pg w' = pay_inv pg w" and "payment_of w' = payment_of w"
  using assms
  by (auto simp: await_confirm_def Let_def split: list.splits confirm_event.splits)

lemma publish_frame:
  "wp (Publisher_PublishPaymentCompleted ev) (\<lambda>e w'. pay_inv pg w' = pay_inv pg w \<and>
     payment_of w' = payment_of w) w"
  unfolding Publisher_PublishPaymentCompleted_def wp_bind
  by (rule driver_wp) (auto simp: amqp_publish_def await_frame intro!: wpI)

interpretation pay_ports: payment_ports "payment_repo pg" "publisher_of url" pay_runtime payment_of
    "pay_inv pg" "\<lambda>i. uuid_in pg i = Some i"
  for pg :: postgres and url
proof (unfold_locales, goal_cases)
  case (1 w i r w')
  then show ?case using wpD [OF repo_get_spec, of i w r w'] by (simp add: payment_repo_def)
next
  case (2 w p w')
  then show ?case using wpD [OF repo_save_spec, of pg w p None w'] by (auto simp: payment_repo_def)
next
  case (3 w p e w')
  then show ?case using wpD [OF repo_save_spec, of pg w p "Some e" w'] by (auto simp: payment_repo_def)
next
  case (4 w q ev u w')
  then show ?case using wpD [OF publish_frame, of ev w u w'] by (auto simp: publisher_of_def amqp_publisher_def split: if_splits)
next
  case (5 w n w')
  then show ?case by (auto simp: pay_runtime_def)
next
  case (6 w s w')
  then show ?case by (auto simp: pay_runtime_def pay_inv_def)
qed

end
