(* ===== verification/Payment_Grpc.thy ===== *)
theory Payment_Grpc
  imports Payment_Store
begin

text \<open>
  The gRPC interface of the payment service: the messages of \<^verbatim>\<open>proto/payment.proto\<close>, the server
  (\<^verbatim>\<open>payment-service/internal/transport/grpc/server.go\<close>) and the logging interceptors
  (\<^verbatim>\<open>interceptor.go\<close>). A handler returns a message, returns a status error, or panics:
  \<open>GetPaymentStatus\<close> reads the fields of a nil payment when there is none.

  \<open>timestamppb.New\<close> is the parameter \<open>tsn\<close>.
\<close>

section \<open>Messages\<close>

type_synonym timestamp = "int \<times> int"

record AuthorizePaymentRequest =
  arqOrderId :: string
  arqAmount :: int64
  arqCustomerEmail :: string

record PaymentResponse =
  prPaymentId :: string
  prTransactionId :: string
  prStatus :: string
  prAmount :: int64
  prCreatedAt :: timestamp

record GetPaymentStatusRequest =
  gsqOrderId :: string

text \<open>
  \<open>AuthorizePaymentResponse\<close> and \<open>GetPaymentStatusResponse\<close> have the same five fields.
\<close>

datatype 'a rpc_result = Reply 'a | Fail code string | Panic

section \<open>The server\<close>

record 'w Server =
  authorizeUseCase :: "'w AuthorizePayment"
  getPaymentUseCase :: "'w GetPaymentByOrder"

definition NewServer :: "'w AuthorizePayment \<Rightarrow> 'w GetPaymentByOrder \<Rightarrow> 'w Server" where
  "NewServer a g = \<lparr>authorizeUseCase = a, getPaymentUseCase = g\<rparr>"

definition Server_AuthorizePayment ::
    "(gotime \<Rightarrow> timestamp) \<Rightarrow> 'w runtime \<Rightarrow> 'w Server \<Rightarrow> AuthorizePaymentRequest \<Rightarrow>
     ('w, PaymentResponse rpc_result) state" where
  "Server_AuthorizePayment tsn rt s req =
     (if arqOrderId req = [] then State_Monad.return (Fail InvalidArgument ''order_id is required'')
      else if arqAmount req \<le>s 0
      then State_Monad.return (Fail InvalidArgument ''amount must be greater than zero'')
      else do {
        r \<leftarrow> AuthorizePayment_Execute rt (authorizeUseCase s)
               \<lparr>aiOrderID = arqOrderId req, aiAmount = arqAmount req,
                aiCustomerEmail = arqCustomerEmail req\<rparr>;
        State_Monad.return
          (case r of
             Inl err \<Rightarrow>
               if Contains (perror_text err) ''customer_email is required''
               then Fail InvalidArgument (perror_text err)
               else Fail Internal (''failed to authorize payment: '' @ perror_text err)
           | Inr out \<Rightarrow>
               Reply \<lparr>prPaymentId = aoPaymentID out, prTransactionId = aoTransactionID out,
                      prStatus = aoStatus out, prAmount = aoAmount out,
                      prCreatedAt = tsn (aoCreatedAt out)\<rparr>)
      })"

text \<open>The fields of the result are read without a check that there is one (lines 79 to 85).\<close>

definition Server_GetPaymentStatus ::
    "(gotime \<Rightarrow> timestamp) \<Rightarrow> 'w Server \<Rightarrow> GetPaymentStatusRequest \<Rightarrow>
     ('w, PaymentResponse rpc_result) state" where
  "Server_GetPaymentStatus tsn s req =
     (if gsqOrderId req = [] then State_Monad.return (Fail InvalidArgument ''order_id is required'')
      else do {
        r \<leftarrow> GetPaymentByOrder_Execute (getPaymentUseCase s) (gsqOrderId req);
        State_Monad.return
          (case r of
             Inl err \<Rightarrow> Fail NotFound (''payment not found for order_id: '' @ gsqOrderId req)
           | Inr None \<Rightarrow> Panic
           | Inr (Some p) \<Rightarrow>
               Reply \<lparr>prPaymentId = pID p, prTransactionId = pTransactionID p, prStatus = pStatus p,
                      prAmount = pAmount p, prCreatedAt = tsn (pCreatedAt p)\<rparr>)
      })"

section \<open>The interceptors\<close>

text \<open>
  A line of the log by its format; the duration that two of them print is left out. A handler that
  panics takes the rest of the interceptor with it.
\<close>

datatype log_line =
    CallStarted string | CallFailed string code string | CallCompleted string
  | StreamStarted string | StreamFailed string code string | StreamCompleted string

definition Printf :: "log_line \<Rightarrow> (log_line list \<times> 'w, unit) state" where
  "Printf l = State (\<lambda>(ls, w). ((), (ls @ [l], w)))"

definition in_handler :: "('w, 'a) state \<Rightarrow> (log_line list \<times> 'w, 'a) state" where
  "in_handler = zoom snd (\<lambda>w s. (fst s, w))"

definition LoggingInterceptor ::
    "string \<Rightarrow> ('q \<Rightarrow> ('w, 'a rpc_result) state) \<Rightarrow> 'q \<Rightarrow> (log_line list \<times> 'w, 'a rpc_result) state" where
  "LoggingInterceptor fullMethod handler req = do {
     Printf (CallStarted fullMethod);
     r \<leftarrow> in_handler (handler req);
     (case r of
        Panic \<Rightarrow> State_Monad.return Panic
      | Fail c m \<Rightarrow> do { Printf (CallFailed fullMethod c m); State_Monad.return r }
      | Reply x \<Rightarrow> do { Printf (CallCompleted fullMethod); State_Monad.return r })
   }"

definition StreamLoggingInterceptor ::
    "string \<Rightarrow> ('w, unit rpc_result) state \<Rightarrow> (log_line list \<times> 'w, unit rpc_result) state" where
  "StreamLoggingInterceptor fullMethod handler = do {
     Printf (StreamStarted fullMethod);
     r \<leftarrow> in_handler handler;
     (case r of
        Panic \<Rightarrow> State_Monad.return Panic
      | Fail c m \<Rightarrow> do { Printf (StreamFailed fullMethod c m); State_Monad.return r }
      | Reply x \<Rightarrow> do { Printf (StreamCompleted fullMethod); State_Monad.return r })
   }"

text \<open>The interceptor changes neither the answer nor the state of the service.\<close>

lemma run_interceptor:
  "run_state (LoggingInterceptor meth h req) (ls, w) =
     (case run_state (h req) w of (r, w') \<Rightarrow>
        (r, (ls @ CallStarted meth #
               (case r of Panic \<Rightarrow> [] | Fail c m \<Rightarrow> [CallFailed meth c m] | Reply _ \<Rightarrow> [CallCompleted meth]), w')))"
  by (simp add: LoggingInterceptor_def Printf_def in_handler_def split: prod.splits rpc_result.splits)

lemma run_stream_interceptor:
  "run_state (StreamLoggingInterceptor meth h) (ls, w) =
     (case run_state h w of (r, w') \<Rightarrow>
        (r, (ls @ StreamStarted meth #
               (case r of Panic \<Rightarrow> [] | Fail c m \<Rightarrow> [StreamFailed meth c m] | Reply _ \<Rightarrow> [StreamCompleted meth]), w')))"
  by (simp add: StreamLoggingInterceptor_def Printf_def in_handler_def split: prod.splits rpc_result.splits)

section \<open>The running payment service\<close>

text \<open>
  What \<^verbatim>\<open>payment-service/cmd/payment-service/main.go\<close> builds (lines 47 to 74): the use cases over
  the repository and the publisher, and the gRPC server over them.
\<close>

definition payment_server :: "postgres \<Rightarrow> string \<Rightarrow> pay_world Server" where
  "payment_server pg amqpURL = NewServer (NewAuthorizePayment (payment_repo pg) (publisher_of amqpURL))
     (NewGetPaymentByOrder (payment_repo pg))"

lemma payment_server_simps [simp]:
  "authorizeUseCase (payment_server pg url) = NewAuthorizePayment (payment_repo pg) (publisher_of url)"
  "gpRepo (getPaymentUseCase (payment_server pg url)) = payment_repo pg"
  by (simp_all add: payment_server_def NewServer_def NewGetPaymentByOrder_def)

text \<open>
  What an authorization may do to the table of payments and what it may answer: at most the one
  payment of its order is recorded, and an answer is what was recorded.
\<close>

definition authorize_effect ::
    "postgres \<Rightarrow> AuthorizePaymentRequest \<Rightarrow> pay_world \<Rightarrow> PaymentResponse rpc_result \<Rightarrow> pay_world \<Rightarrow> bool" where
  "authorize_effect pg req w r w' \<longleftrightarrow> pay_inv pg w' \<and> r \<noteq> Panic \<and>
     (payment_of w' = payment_of w \<or> payment_of w (arqOrderId req) = None \<and>
        (\<exists>p t. payment_of w' = pay_row p t (payment_of w) \<and> pOrderID p = arqOrderId req \<and>
           pAmount p = arqAmount req \<and> pStatus p = authorize_status (arqAmount req))) \<and>
     (\<forall>x. r = Reply x \<longrightarrow> prStatus x = authorize_status (arqAmount req) \<and> prAmount x = arqAmount req \<and>
        payment_of w (arqOrderId req) = None \<and>
        (\<exists>p. payment_of w' (arqOrderId req) = Some p \<and> pStatus p = prStatus x \<and> pAmount p = prAmount x \<and>
           pTransactionID p = prTransactionId x))"

lemma server_authorize_records:
  assumes "pay_inv pg w"
  shows "wp (Server_AuthorizePayment tsn pay_runtime (payment_server pg url) req) (authorize_effect pg req w) w"
proof -
  let ?i = "\<lparr>aiOrderID = arqOrderId req, aiAmount = arqAmount req, aiCustomerEmail = arqCustomerEmail req\<rparr>"
  have fail: "authorize_effect pg req w (Fail c m) w" for c m
    using assms by (simp add: authorize_effect_def)
  show ?thesis
    unfolding Server_AuthorizePayment_def wp_bind if_distrib [of "\<lambda>m. wp m _ w"] wp_return payment_server_simps
  proof (auto intro: fail, rule wp_mono [OF pay_ports.authorize_records [OF assms, where i = ?i]], goal_cases)
    case (1 r w')
    show ?case
    proof (cases r)
      case (Inl e)
      with 1 show ?thesis by (auto simp: authorize_effect_def)
    next
      case (Inr out)
      with 1 obtain p t where "payment_of w' = pay_row p t (payment_of w)" "out = payment_output p"
        "pOrderID p = arqOrderId req" by auto
      then have "payment_of w' (arqOrderId req) = Some (p\<lparr>pCreatedAt := t\<rparr>)" "out = payment_output p"
        by (simp_all add: pay_row_def)
      with 1 Inr show ?thesis by (auto simp: authorize_effect_def payment_output_def)
    qed
  qed
qed

lemma server_status_reads:
  "wp (Server_GetPaymentStatus tsn (payment_server pg url) req)
    (\<lambda>r w'. pay_inv pg w' = pay_inv pg w \<and> payment_of w' = payment_of w \<and>
      (\<forall>x. r = Reply x \<longrightarrow> (\<exists>p. payment_of w (gsqOrderId req) = Some p \<and> pStatus p = prStatus x)) \<and>
      (r = Panic \<longrightarrow> payment_of w (gsqOrderId req) = None)) w"
  unfolding Server_GetPaymentStatus_def GetPaymentByOrder_Execute_def
  by (auto simp: payment_repo_def intro!: wp_mono [OF repo_get_spec] split: sum.splits option.splits)

end
