(* ===== verification/Payment_Http.thy ===== *)
theory Payment_Http
  imports Http Payment_Grpc
begin

text \<open>
  The HTTP interface of the payment service (\<^verbatim>\<open>payment-service/internal/transport/http\<close>): the same
  two use cases as the gRPC server, behind \<open>POST /payments\<close> and \<open>GET /payments/:order_id\<close>. As for
  the order service, the decoder and the router of \<open>gin\<close> are parameters.
\<close>

section \<open>Bodies\<close>

record createPaymentRequest =
  cpOrderID :: string
  cpAmount :: int64
  cpCustomerEmail :: string

definition createPayment_binding :: "createPaymentRequest \<Rightarrow> bool" where
  "createPayment_binding r \<longleftrightarrow> cpOrderID r \<noteq> [] \<and> cpAmount r \<noteq> 0 \<and> 0 <s cpAmount r \<and> cpCustomerEmail r \<noteq> []"

definition bind_createPayment :: "(string \<Rightarrow> createPaymentRequest option) \<Rightarrow> string \<Rightarrow> createPaymentRequest option" where
  "bind_createPayment decode body =
     (case decode body of None \<Rightarrow> None | Some r \<Rightarrow> if createPayment_binding r then Some r else None)"

definition createPaymentResponse :: "AuthorizePaymentOutput \<Rightarrow> json" where
  "createPaymentResponse out = JObj
     [(''payment_id'', JStr (aoPaymentID out)), (''transaction_id'', JStr (aoTransactionID out)),
      (''status'', JStr (aoStatus out)), (''amount'', JNum (int_text (sint (aoAmount out)))),
      (''created_at'', JStr (FormatRFC3339 (aoCreatedAt out)))]"

definition getPaymentResponse :: "Payment \<Rightarrow> json" where
  "getPaymentResponse p = JObj
     [(''payment_id'', JStr (pID p)), (''order_id'', JStr (pOrderID p)), (''transaction_id'', JStr (pTransactionID p)),
      (''amount'', JNum (int_text (sint (pAmount p)))), (''status'', JStr (pStatus p)),
      (''created_at'', JStr (FormatRFC3339 (pCreatedAt p)))]"

section \<open>The handlers\<close>

record 'w PayHandlers =
  hAuthorize :: "'w AuthorizePayment"
  hGetByOrder :: "'w GetPaymentByOrder"

definition NewPayHandlers :: "'w AuthorizePayment \<Rightarrow> 'w GetPaymentByOrder \<Rightarrow> 'w PayHandlers" where
  "NewPayHandlers a g = \<lparr>hAuthorize = a, hGetByOrder = g\<rparr>"

text \<open>The status code of an error is chosen by its text (lines 33 to 46).\<close>

definition payment_error_response :: "string \<Rightarrow> http_response" where
  "payment_error_response m =
     (if Contains m ''amount must be greater than zero'' \<or> Contains m ''order_id is required'' \<or>
         Contains m ''customer_email is required''
      then respond StatusBadRequest (error_body m)
      else if Contains m ''payment already exists'' then respond StatusConflict (error_body m)
      else respond StatusInternalServerError (error_body ''internal error''))"

definition Handlers_CreatePayment ::
    "(string \<Rightarrow> createPaymentRequest option) \<Rightarrow> 'w runtime \<Rightarrow> 'w PayHandlers \<Rightarrow> http_request \<Rightarrow> ('w, http_response) state" where
  "Handlers_CreatePayment decode rt h q =
     (case bind_createPayment decode (hqBody q) of
        None \<Rightarrow> State_Monad.return (respond StatusBadRequest (error_body ''invalid json body''))
      | Some req \<Rightarrow> do {
          r \<leftarrow> AuthorizePayment_Execute rt (hAuthorize h)
                 \<lparr>aiOrderID = TrimSpace (cpOrderID req), aiAmount = cpAmount req,
                  aiCustomerEmail = TrimSpace (cpCustomerEmail req)\<rparr>;
          State_Monad.return
            (case r of
               Inl err \<Rightarrow> payment_error_response (perror_text err)
             | Inr out \<Rightarrow> respond StatusOK (createPaymentResponse out))
        })"

definition Handlers_GetPaymentByOrderID :: "'w PayHandlers \<Rightarrow> string \<Rightarrow> ('w, http_response) state" where
  "Handlers_GetPaymentByOrderID h param =
     (let orderID = TrimSpace param
      in if orderID = [] then State_Monad.return (respond StatusBadRequest (error_body ''order_id is required''))
         else do {
           r \<leftarrow> GetPaymentByOrder_Execute (hGetByOrder h) orderID;
           State_Monad.return
             (case r of
                Inl err \<Rightarrow>
                  if Contains (perror_text err) ''order_id is required''
                  then respond StatusBadRequest (error_body (perror_text err))
                  else respond StatusInternalServerError (error_body ''internal error'')
              | Inr None \<Rightarrow> respond StatusNotFound (error_body ''payment not found'')
              | Inr (Some p) \<Rightarrow> respond StatusOK (getPaymentResponse p))
         })"

definition RegisterPaymentRoutes ::
    "(string \<Rightarrow> createPaymentRequest option) \<Rightarrow> 'w runtime \<Rightarrow> 'w PayHandlers \<Rightarrow> 'w route list" where
  "RegisterPaymentRoutes decode rt h =
     [(''POST'', ''/payments'', \<lambda>ps q. Handlers_CreatePayment decode rt h q),
      (''GET'', ''/payments/:order_id'', \<lambda>ps q. Handlers_GetPaymentByOrderID h (Param ps ''order_id''))]"

end
