(* ===== verification/Order_Domain.thy ===== *)
theory Order_Domain
  imports Go_Prelude
begin

text \<open>
  The domain and the ports of the order service: \<open>Order\<close> and its statuses
  (\<^verbatim>\<open>order-service/internal/domain/order.go\<close>), the package-level errors and the outbound ports
  (\<^verbatim>\<open>order-service/internal/usecase/errors.go\<close> and \<^verbatim>\<open>ports.go\<close>). A Go interface is a record of its
  methods, each a computation on the state \<open>'w\<close> that the implementation works on. A method that
  returns a value or an error has a sum as its result (\<open>Inl\<close> the error), a method that returns
  an error only has an \<open>option\<close>.

  The abstract specification of an order's life is \<open>order_step\<close>: an order is created Pending
  and leaves Pending once, for Paid, Failed or Cancelled. The locales \<open>order_repository\<close>,
  \<open>order_cache\<close> and \<open>payment_authorizer\<close> state what the use cases rely on of the ports.
\<close>

section \<open>Domain\<close>

record Order =
  oID :: string
  oCustomerID :: string
  oItemName :: string
  oAmount :: int64
  oStatus :: string
  oCreatedAt :: gotime

definition StatusPending :: string where "StatusPending = ''Pending''"
definition StatusPaid :: string where "StatusPaid = ''Paid''"
definition StatusFailed :: string where "StatusFailed = ''Failed''"
definition StatusCancelled :: string where "StatusCancelled = ''Cancelled''"

lemmas status_defs = StatusPending_def StatusPaid_def StatusFailed_def StatusCancelled_def

text \<open>The statuses an order does not leave.\<close>

definition final_statuses :: "string list" where
  "final_statuses = [StatusPaid, StatusFailed, StatusCancelled]"

lemma pending_not_final [simp]: "StatusPending \<notin> set final_statuses"
  by (simp add: final_statuses_def status_defs)

lemma final_members [simp]:
  "StatusPaid \<in> set final_statuses" "StatusFailed \<in> set final_statuses"
  "StatusCancelled \<in> set final_statuses"
  by (simp_all add: final_statuses_def)

lemma status_distinct [simp]:
  "StatusPending \<noteq> StatusPaid" "StatusPending \<noteq> StatusFailed" "StatusPending \<noteq> StatusCancelled"
  "StatusPaid \<noteq> StatusFailed" "StatusPaid \<noteq> StatusCancelled" "StatusFailed \<noteq> StatusCancelled"
  "StatusPaid \<noteq> StatusPending" "StatusFailed \<noteq> StatusPending" "StatusCancelled \<noteq> StatusPending"
  "StatusFailed \<noteq> StatusPaid" "StatusCancelled \<noteq> StatusPaid" "StatusCancelled \<noteq> StatusFailed"
  by (simp_all add: status_defs)

section \<open>Errors and ports\<close>

datatype usecase_error =
    ErrInvalidInput | ErrOrderNotFound | ErrPaymentUnavailable | ErrCancelNotAllowed
  | ErrPaymentAlreadyRecorded | ErrPaymentNotFound | ErrPaymentInvalidArgument

type_synonym uerror = "usecase_error error"

fun usecase_error_text :: "usecase_error \<Rightarrow> string" where
  "usecase_error_text ErrInvalidInput = ''invalid input''"
| "usecase_error_text ErrOrderNotFound = ''order not found''"
| "usecase_error_text ErrPaymentUnavailable = ''payment service unavailable''"
| "usecase_error_text ErrCancelNotAllowed = ''only pending orders can be cancelled''"
| "usecase_error_text ErrPaymentAlreadyRecorded = ''payment already exists for order''"
| "usecase_error_text ErrPaymentNotFound = ''payment not found for order''"
| "usecase_error_text ErrPaymentInvalidArgument = ''payment invalid argument''"

record 'w OrderRepository =
  GetByID :: "string \<Rightarrow> ('w, uerror + Order option) state"
  UpdateStatus :: "string \<Rightarrow> string \<Rightarrow> ('w, uerror option) state"
  CreatePendingWithIdempotency ::
    "string option \<Rightarrow> string \<Rightarrow> string \<Rightarrow> int64 \<Rightarrow> ('w, uerror + Order \<times> bool) state"

record 'w OrderCache =
  cGet :: "string \<Rightarrow> ('w, uerror + Order option) state"
  cSet :: "Order \<Rightarrow> duration \<Rightarrow> ('w, uerror option) state"
  cDelete :: "string \<Rightarrow> ('w, uerror option) state"

record 'w PaymentAuthorizer =
  Authorize :: "string \<Rightarrow> int64 \<Rightarrow> string \<Rightarrow> ('w, uerror + string \<times> string) state"
  GetStatus :: "string \<Rightarrow> ('w, uerror + string) state"

section \<open>The life of an order\<close>

text \<open>A table of orders by identifier, and the only ways it may change.\<close>

type_synonym order_table = "string \<rightharpoonup> Order"

inductive order_step :: "order_table \<Rightarrow> order_table \<Rightarrow> bool" where
  place: "m k = None \<Longrightarrow> oStatus ord = StatusPending \<Longrightarrow> order_step m (m(k \<mapsto> ord))"
| settle: "m k = Some ord \<Longrightarrow> oStatus ord = StatusPending \<Longrightarrow> st \<in> set final_statuses \<Longrightarrow>
    order_step m (m(k \<mapsto> ord\<lparr>oStatus := st\<rparr>))"

inductive_cases order_stepE: "order_step m m'"

abbreviation order_steps :: "order_table \<Rightarrow> order_table \<Rightarrow> bool" where
  "order_steps \<equiv> order_step\<^sup>*\<^sup>*"

text \<open>No order disappears, a final status stays, and only the status of an order changes.\<close>

lemma order_step_keeps:
  assumes "order_step m m'" and "m k = Some ord"
  shows "\<exists>ord'. m' k = Some ord' \<and> ord' = ord\<lparr>oStatus := oStatus ord'\<rparr> \<and>
    (oStatus ord \<noteq> StatusPending \<longrightarrow> ord' = ord)"
  using assms by (auto elim!: order_stepE)

lemma order_steps_keep:
  assumes "order_steps m m'" and "m k = Some ord"
  shows "\<exists>ord'. m' k = Some ord' \<and> ord' = ord\<lparr>oStatus := oStatus ord'\<rparr> \<and>
    (oStatus ord \<noteq> StatusPending \<longrightarrow> ord' = ord)"
  using assms
proof (induction rule: rtranclp_induct)
  case base
  then show ?case by simp
next
  case (step y z)
  then obtain o1 where o1: "y k = Some o1" "o1 = ord\<lparr>oStatus := oStatus o1\<rparr>"
    "oStatus ord \<noteq> StatusPending \<longrightarrow> o1 = ord" by blast
  from order_step_keeps [OF step.hyps(2) o1(1)] obtain o2 where o2: "z k = Some o2"
    "o2 = o1\<lparr>oStatus := oStatus o2\<rparr>" "oStatus o1 \<noteq> StatusPending \<longrightarrow> o2 = o1" by blast
  have "o2 = ord\<lparr>oStatus := oStatus o2\<rparr>"
    using o1(2) o2(2) by (metis Order.surjective Order.update_convs(5))
  with o1 o2 show ?case by auto
qed

text \<open>The table is as it was, or has one new order, which is Pending.\<close>

definition placed :: "order_table \<Rightarrow> order_table \<Rightarrow> bool" where
  "placed m m' \<longleftrightarrow> m' = m \<or> (\<exists>k ord. m k = None \<and> oStatus ord = StatusPending \<and> m' = m(k \<mapsto> ord))"

lemma placed_refl [simp]: "placed m m"
  by (simp add: placed_def)

lemma placed_new: "m k = None \<Longrightarrow> oStatus ord = StatusPending \<Longrightarrow> placed m (m(k \<mapsto> ord))"
  by (auto simp: placed_def)

lemma placed_steps: "placed m m' \<Longrightarrow> order_steps m m'"
  by (auto simp: placed_def intro: order_step.place)

lemma placed_settled:
  assumes "placed m m'" and "m' k = Some ord" and "oStatus ord \<noteq> StatusPending"
  shows "m k = Some ord"
  using assms by (auto simp: placed_def split: if_splits)

section \<open>What the use cases rely on\<close>

text \<open>
  \<open>view\<close> reads the orders table of the state, \<open>canon\<close> is the database's reading of an
  identifier (\<open>None\<close>: not an identifier), \<open>inv\<close> is the implementation's own invariant.
  The laws hold whether or not calls are lost: an answer is true of the table, and an error may
  hide an effect.
\<close>

locale order_repository =
  fixes repo :: "'w OrderRepository"
    and view :: "'w \<Rightarrow> order_table"
    and canon :: "string \<Rightarrow> string option"
    and inv :: "'w \<Rightarrow> bool"
  assumes get_view: "inv w \<Longrightarrow> run_state (GetByID repo i) w = (r, w') \<Longrightarrow>
      inv w' \<and> view w' = view w"
    and get_found: "inv w \<Longrightarrow> run_state (GetByID repo i) w = (Inr (Some ord), w') \<Longrightarrow>
      canon i = Some (oID ord) \<and> view w (oID ord) = Some ord"
    and get_missing: "inv w \<Longrightarrow> run_state (GetByID repo i) w = (Inr None, w') \<Longrightarrow>
      \<exists>k. canon i = Some k \<and> view w k = None"
    and update_inv: "inv w \<Longrightarrow> run_state (UpdateStatus repo i st) w = (u, w') \<Longrightarrow> inv w'"
    and update_done: "inv w \<Longrightarrow> run_state (UpdateStatus repo i st) w = (None, w') \<Longrightarrow>
      \<exists>k ord. canon i = Some k \<and> view w k = Some ord \<and> view w' = (view w)(k \<mapsto> ord\<lparr>oStatus := st\<rparr>)"
    and update_error: "inv w \<Longrightarrow> run_state (UpdateStatus repo i st) w = (Some e, w') \<Longrightarrow>
      view w' = view w \<or>
      (\<exists>k ord. canon i = Some k \<and> view w k = Some ord \<and> view w' = (view w)(k \<mapsto> ord\<lparr>oStatus := st\<rparr>))"
    and create_inv: "inv w \<Longrightarrow>
      run_state (CreatePendingWithIdempotency repo key c n a) w = (q, w') \<Longrightarrow> inv w'"
    and create_new: "inv w \<Longrightarrow>
      run_state (CreatePendingWithIdempotency repo key c n a) w = (Inr (ord, False), w') \<Longrightarrow>
      canon (oID ord) = Some (oID ord) \<and> view w (oID ord) = None \<and> oStatus ord = StatusPending \<and>
      oCustomerID ord = c \<and> oItemName ord = n \<and> oAmount ord = a \<and>
      (\<exists>t. view w' = (view w)(oID ord \<mapsto> ord\<lparr>oCreatedAt := t\<rparr>))"
    and create_replayed: "inv w \<Longrightarrow>
      run_state (CreatePendingWithIdempotency repo key c n a) w = (Inr (ord, True), w') \<Longrightarrow>
      canon (oID ord) = Some (oID ord) \<and> view w (oID ord) = Some ord \<and> view w' = view w"
    and create_error: "inv w \<Longrightarrow>
      run_state (CreatePendingWithIdempotency repo key c n a) w = (Inl e, w') \<Longrightarrow>
      placed (view w) (view w')"
    and status_known: "inv w \<Longrightarrow> view w k = Some ord \<Longrightarrow>
      oStatus ord = StatusPending \<or> oStatus ord \<in> set final_statuses"
begin

lemma update_settles:
  assumes "inv w" and "run_state (UpdateStatus repo i st) w = (e, w')"
    and "canon i = Some k" and "view w k = Some ord" and "oStatus ord = StatusPending"
    and "st \<in> set final_statuses"
  shows "order_steps (view w) (view w')"
proof -
  have "view w' = view w \<or> view w' = (view w)(k \<mapsto> ord\<lparr>oStatus := st\<rparr>)"
    using assms update_done [of w i st w'] update_error [of w i st _ w']
    by (cases e) fastforce+
  moreover have "order_step (view w) ((view w)(k \<mapsto> ord\<lparr>oStatus := st\<rparr>))"
    using assms by (intro order_step.settle)
  ultimately show ?thesis by auto
qed

text \<open>The order that a creation hands out is in the table, and if it is Pending so is the row.\<close>

lemma create_handed_out:
  assumes "inv w"
    and "run_state (CreatePendingWithIdempotency repo key c n a) w = (Inr (ord, b), w')"
  shows "canon (oID ord) = Some (oID ord) \<and>
    (\<exists>t. view w' (oID ord) = Some (ord\<lparr>oCreatedAt := t\<rparr>)) \<and> placed (view w) (view w')"
proof (cases b)
  case True
  with assms create_replayed [of w key c n a ord w'] show ?thesis
    by (auto intro!: exI [of _ "oCreatedAt ord"])
next
  case False
  with assms create_new [of w key c n a ord w'] obtain t where
    "canon (oID ord) = Some (oID ord)" "view w (oID ord) = None" "oStatus ord = StatusPending"
    "view w' = (view w)(oID ord \<mapsto> ord\<lparr>oCreatedAt := t\<rparr>)" by auto
  moreover from this have "placed (view w) (view w')"
    by (simp add: placed_new)
  ultimately show ?thesis by auto
qed

end

text \<open>
  The cache shares the state with the repository but never touches the orders table. \<open>cached\<close>
  is what a read of the cache can return.
\<close>

locale order_cache =
  fixes cache :: "'w OrderCache"
    and view :: "'w \<Rightarrow> order_table"
    and inv :: "'w \<Rightarrow> bool"
    and cached :: "'w \<Rightarrow> order_table"
  assumes cget_view: "inv w \<Longrightarrow> run_state (cGet cache i) w = (r, w') \<Longrightarrow>
      inv w' \<and> view w' = view w"
    and cget_hit: "run_state (cGet cache i) w = (Inr (Some ord), w') \<Longrightarrow> cached w i = Some ord"
    and cset_view: "inv w \<Longrightarrow> run_state (cSet cache ord ttl) w = (e, w') \<Longrightarrow>
      inv w' \<and> view w' = view w"
    and cdelete_view: "inv w \<Longrightarrow> run_state (cDelete cache i) w = (e, w') \<Longrightarrow>
      inv w' \<and> view w' = view w"

text \<open>The payment side answers without touching the orders table.\<close>

locale payment_authorizer =
  fixes pay :: "'w PaymentAuthorizer"
    and view :: "'w \<Rightarrow> order_table"
    and inv :: "'w \<Rightarrow> bool"
  assumes authorize_view: "inv w \<Longrightarrow> run_state (Authorize pay i a e) w = (r, w') \<Longrightarrow>
      inv w' \<and> view w' = view w"
    and getstatus_view: "inv w \<Longrightarrow> run_state (GetStatus pay i) w = (q, w') \<Longrightarrow>
      inv w' \<and> view w' = view w"

end
