(* ===== verification/Rest_Client.thy ===== *)
theory Rest_Client
  imports Http Order_Domain
begin

text \<open>
  The REST client of the payment service (\<^verbatim>\<open>order-service/internal/adapter/payment/rest_client.go\<close>),
  the other adapter of the port \<open>PaymentAuthorizer\<close>. The HTTP client is the parameter \<open>transport\<close>:
  it answers a request or fails with an error, of which the client looks at whether it is a
  deadline, whether it is a \<open>net.Error\<close> that timed out, and its text. \<open>url.Parse\<close>'s verdict on the
  address is the parameter \<open>badURL\<close>. The wording of \<open>encoding/json\<close>'s errors is not modelled.
\<close>

section \<open>The transport\<close>

text \<open>
  \<open>heDeadline\<close>: \<open>errors.Is(err, context.DeadlineExceeded)\<close>; \<open>heNet\<close>: the \<open>net.Error\<close> in the chain,
  if any, by its \<open>Timeout()\<close>.
\<close>

record http_err =
  heDeadline :: bool
  heNet :: "bool option"
  heText :: string

type_synonym 'w transport = "http_request \<Rightarrow> ('w, http_err + http_response) state"

definition isUnavailable :: "http_err \<Rightarrow> bool" where
  "isUnavailable e \<longleftrightarrow> heDeadline e \<or>
     (case heNet e of
        None \<Rightarrow> False
      | Some timeout \<Rightarrow> timeout \<or> Contains (ToLower (heText e)) ''connection refused'')"

section \<open>The client\<close>

record 'w RestClient =
  rcBaseURL :: string
  rcDo :: "'w transport"
  rcBadURL :: "string \<Rightarrow> string option"

definition TrimRight :: "string \<Rightarrow> char \<Rightarrow> string" where
  "TrimRight s c = rev (dropWhile (\<lambda>x. x = c) (rev s))"

definition NewRestClient :: "string \<Rightarrow> 'w transport \<Rightarrow> (string \<Rightarrow> string option) \<Rightarrow> 'w RestClient" where
  "NewRestClient base tr bad = \<lparr>rcBaseURL = TrimRight (TrimSpace base) (CHR ''/''), rcDo = tr, rcBadURL = bad\<rparr>"

record paymentAPIResponse =
  parTransactionID :: string
  parStatus :: string

definition paymentAPI_member :: "paymentAPIResponse \<Rightarrow> string \<times> json \<Rightarrow> paymentAPIResponse option" where
  "paymentAPI_member r kv =
     (case kv of (k, v) \<Rightarrow>
        if same_name k ''transaction_id''
        then map_option (\<lambda>x. r\<lparr>parTransactionID := x\<rparr>) (as_string (parTransactionID r) v)
        else if same_name k ''status'' then map_option (\<lambda>x. r\<lparr>parStatus := x\<rparr>) (as_string (parStatus r) v)
        else Some r)"

definition unmarshal_paymentAPI :: "string \<Rightarrow> paymentAPIResponse option" where
  "unmarshal_paymentAPI b = unmarshal_struct paymentAPI_member \<lparr>parTransactionID = [], parStatus = []\<rparr> b"

text \<open>The anonymous struct of \<open>GetStatus\<close>.\<close>

definition status_member :: "string \<Rightarrow> string \<times> json \<Rightarrow> string option" where
  "status_member st kv = (case kv of (k, v) \<Rightarrow> if same_name k ''status'' then as_string st v else Some st)"

definition unmarshal_status :: "string \<Rightarrow> string option" where
  "unmarshal_status b = unmarshal_struct status_member [] b"

text \<open>A Go map is written with its keys in order.\<close>

definition authorize_body :: "string \<Rightarrow> int64 \<Rightarrow> string \<Rightarrow> string" where
  "authorize_body orderID amount customerEmail = render (JObj
     [(''amount'', JNum (int_text (sint amount))), (''customer_email'', JStr customerEmail), (''order_id'', JStr orderID)])"

definition json_error :: uerror where
  "json_error = Errorf ''json: cannot unmarshal''"

definition returned_error :: "http_response \<Rightarrow> uerror" where
  "returned_error resp = Errorf (''payment service returned '' @ int_text (hrStatus resp) @ '': '' @
     TrimSpace (read_limited 1048576 resp))"

text \<open>What a transport error becomes (lines 53 to 58).\<close>

definition transport_error :: "http_err \<Rightarrow> uerror" where
  "transport_error e = (if isUnavailable e then Sentinel ErrPaymentUnavailable else Errorf (heText e))"

text \<open>The switch on the status code (lines 63 to 79).\<close>

definition authorize_answer :: "http_response \<Rightarrow> uerror + string \<times> string" where
  "authorize_answer resp =
     (if hrStatus resp = StatusOK then
        (case unmarshal_paymentAPI (read_limited 1048576 resp) of
           None \<Rightarrow> Inl (Wrapf ''decode payment response: '' json_error [])
         | Some pr \<Rightarrow> Inr (parTransactionID pr, parStatus pr))
      else if hrStatus resp = StatusConflict then Inl (Sentinel ErrPaymentAlreadyRecorded)
      else if hrStatus resp = StatusBadRequest then Inl (Sentinel ErrPaymentInvalidArgument)
      else if StatusInternalServerError \<le> hrStatus resp then Inl (Sentinel ErrPaymentUnavailable)
      else Inl (returned_error resp))"

definition RestClient_Authorize ::
    "'w RestClient \<Rightarrow> string \<Rightarrow> int64 \<Rightarrow> string \<Rightarrow> ('w, uerror + string \<times> string) state" where
  "RestClient_Authorize c orderID amount customerEmail =
     (let u = rcBaseURL c @ ''/payments''
      in case rcBadURL c u of
           Some m \<Rightarrow> State_Monad.return (Inl (Errorf m))
         | None \<Rightarrow> do {
             r \<leftarrow> rcDo c \<lparr>hqMethod = ''POST'', hqURL = u, hqHeader = [(''Content-Type'', ''application/json'')],
                           hqBody = authorize_body orderID amount customerEmail\<rparr>;
             State_Monad.return (case r of Inl e \<Rightarrow> Inl (transport_error e) | Inr resp \<Rightarrow> authorize_answer resp)
           })"

text \<open>The switch on the status code (lines 101 to 116).\<close>

definition status_answer :: "http_response \<Rightarrow> uerror + string" where
  "status_answer resp =
     (if hrStatus resp = StatusOK then
        (case unmarshal_status (read_limited 1048576 resp) of
           None \<Rightarrow> Inl (Wrapf ''decode payment get: '' json_error [])
         | Some st \<Rightarrow> Inr st)
      else if hrStatus resp = StatusNotFound then Inl (Sentinel ErrPaymentNotFound)
      else if hrStatus resp = StatusInternalServerError \<or> hrStatus resp = StatusBadGateway \<or>
              hrStatus resp = StatusServiceUnavailable \<or> hrStatus resp = StatusGatewayTimeout
      then Inl (Sentinel ErrPaymentUnavailable)
      else Inl (returned_error resp))"

definition RestClient_GetStatus :: "'w RestClient \<Rightarrow> string \<Rightarrow> ('w, uerror + string) state" where
  "RestClient_GetStatus c orderID =
     (let u = rcBaseURL c @ ''/payments/'' @ PathEscape (TrimSpace orderID)
      in case rcBadURL c u of
           Some m \<Rightarrow> State_Monad.return (Inl (Errorf m))
         | None \<Rightarrow> do {
             r \<leftarrow> rcDo c \<lparr>hqMethod = ''GET'', hqURL = u, hqHeader = [], hqBody = []\<rparr>;
             State_Monad.return (case r of Inl e \<Rightarrow> Inl (transport_error e) | Inr resp \<Rightarrow> status_answer resp)
           })"

definition rest_client :: "'w RestClient \<Rightarrow> 'w PaymentAuthorizer" where
  "rest_client c = \<lparr>Authorize = RestClient_Authorize c, GetStatus = RestClient_GetStatus c\<rparr>"

lemma rest_client_fields [simp]:
  "Authorize (rest_client c) = RestClient_Authorize c" "GetStatus (rest_client c) = RestClient_GetStatus c"
  by (simp_all add: rest_client_def)

section \<open>The contract\<close>

text \<open>A transport that leaves the orders table alone makes the client a \<open>payment_authorizer\<close>.\<close>

locale rest_transport =
  fixes tr :: "'w transport"
    and view :: "'w \<Rightarrow> order_table"
    and inv :: "'w \<Rightarrow> bool"
    and base :: string
    and bad :: "string \<Rightarrow> string option"
  assumes transport_view: "inv w \<Longrightarrow> run_state (tr q) w = (r, w') \<Longrightarrow> inv w' \<and> view w' = view w"

sublocale rest_transport \<subseteq> payment_authorizer "rest_client (NewRestClient base tr bad)" view inv
proof (unfold_locales, goal_cases)
  case (1 w i a e r w')
  then show ?case
    using transport_view [OF 1(1)]
    by (auto simp: RestClient_Authorize_def NewRestClient_def Let_def split: option.splits prod.splits)
next
  case (2 w i q w')
  then show ?case
    using transport_view [OF 2(1)]
    by (auto simp: RestClient_GetStatus_def NewRestClient_def Let_def split: option.splits prod.splits)
qed

end
