(* ===== verification/Wire.thy ===== *)
theory Wire
  imports Notify_Processor Payment_Http Rest_Client
begin

text \<open>
  What one service writes is what the other reads: the event of a payment between the payment
  service and the notification service, and the bodies of the REST interface between the order
  service and the payment service. The keys agree, the amounts come through at their full width,
  and texts that are UTF-8 come through unchanged.
\<close>

section \<open>Keys\<close>

lemma wire_keys_valid [simp]:
  "to_valid ''event_id'' = ''event_id''" "to_valid ''payment_id'' = ''payment_id''" "to_valid ''order_id'' = ''order_id''"
  "to_valid ''amount'' = ''amount''" "to_valid ''customer_email'' = ''customer_email''" "to_valid ''status'' = ''status''"
  "to_valid ''transaction_id'' = ''transaction_id''" "to_valid ''created_at'' = ''created_at''"
  by (rule to_valid_valid, rule ascii_valid, simp add: byte_def)+

lemma wire_names: "distinct (map fold_name [''event_id'', ''payment_id'', ''order_id'', ''amount'', ''customer_email'',
    ''status'', ''transaction_id'', ''created_at''])"
  by code_simp

lemma wire_names_differ [simp]:
  "\<not> same_name ''payment_id'' ''event_id''" "\<not> same_name ''order_id'' ''event_id''" "\<not> same_name ''amount'' ''event_id''"
  "\<not> same_name ''customer_email'' ''event_id''" "\<not> same_name ''status'' ''event_id''"
  "\<not> same_name ''order_id'' ''payment_id''" "\<not> same_name ''amount'' ''payment_id''"
  "\<not> same_name ''customer_email'' ''payment_id''" "\<not> same_name ''status'' ''payment_id''"
  "\<not> same_name ''amount'' ''order_id''" "\<not> same_name ''customer_email'' ''order_id''" "\<not> same_name ''status'' ''order_id''"
  "\<not> same_name ''customer_email'' ''amount''" "\<not> same_name ''status'' ''amount''" "\<not> same_name ''status'' ''customer_email''"
  "\<not> same_name ''payment_id'' ''transaction_id''" "\<not> same_name ''status'' ''transaction_id''"
  "\<not> same_name ''amount'' ''transaction_id''" "\<not> same_name ''created_at'' ''transaction_id''"
  "\<not> same_name ''payment_id'' ''status''" "\<not> same_name ''amount'' ''status''" "\<not> same_name ''created_at'' ''status''"
  "\<not> same_name ''transaction_id'' ''status''" "\<not> same_name ''order_id'' ''status''"
  using wire_names by (simp_all add: same_name_def eq_commute del: fold_name.simps)

section \<open>The event of a payment\<close>

definition event_payload :: "PaymentCompletedEvent \<Rightarrow> Payload" where
  "event_payload e = \<lparr>plEventID = to_valid (evEventID e),
     plPaymentID = to_valid (if evPaymentID e = [] then evEventID e else evPaymentID e),
     plOrderID = to_valid (evOrderID e), plAmount = evAmountCents e,
     plCustomerEmail = to_valid (evCustomerEmail e), plStatus = to_valid (evStatus e)\<rparr>"

lemma payload_roundtrip: "unmarshal_payload (completed_body e) = Some (event_payload e)"
proof -
  have "json_parse (completed_body e) = Some (norm (completed_json e))"
    unfolding completed_body_def by (rule json_roundtrip) (auto simp: completed_json_def Let_def)
  then show ?thesis
    by (simp add: unmarshal_payload_def unmarshal_struct_def completed_json_def Let_def payload_member_def
        zero_payload_def event_payload_def)
qed

section \<open>The REST bodies\<close>

text \<open>The decoder of \<open>encoding/json\<close> for the request of \<open>POST /payments\<close>.\<close>

definition createPayment_member :: "createPaymentRequest \<Rightarrow> string \<times> json \<Rightarrow> createPaymentRequest option" where
  "createPayment_member r kv =
     (case kv of (k, v) \<Rightarrow>
        if same_name k ''order_id'' then map_option (\<lambda>x. r\<lparr>cpOrderID := x\<rparr>) (as_string (cpOrderID r) v)
        else if same_name k ''amount'' then map_option (\<lambda>x. r\<lparr>cpAmount := x\<rparr>) (as_int64 (cpAmount r) v)
        else if same_name k ''customer_email''
        then map_option (\<lambda>x. r\<lparr>cpCustomerEmail := x\<rparr>) (as_string (cpCustomerEmail r) v)
        else Some r)"

definition decode_createPayment :: "string \<Rightarrow> createPaymentRequest option" where
  "decode_createPayment b =
     unmarshal_struct createPayment_member \<lparr>cpOrderID = [], cpAmount = 0, cpCustomerEmail = []\<rparr> b"

lemma authorize_body_read:
  "decode_createPayment (authorize_body i a e) =
     Some \<lparr>cpOrderID = to_valid i, cpAmount = a, cpCustomerEmail = to_valid e\<rparr>"
proof -
  let ?v = "JObj [(''amount'', JNum (int_text (sint a))), (''customer_email'', JStr e), (''order_id'', JStr i)]"
  have "json_parse (authorize_body i a e) = Some (norm ?v)"
    unfolding authorize_body_def by (rule json_roundtrip) auto
  then show ?thesis
    by (simp add: decode_createPayment_def unmarshal_struct_def createPayment_member_def)
qed

lemma createPaymentResponse_read:
  "unmarshal_paymentAPI (render (createPaymentResponse out)) =
     Some \<lparr>parTransactionID = to_valid (aoTransactionID out), parStatus = to_valid (aoStatus out)\<rparr>"
proof -
  have "json_parse (render (createPaymentResponse out)) = Some (norm (createPaymentResponse out))"
    by (rule json_roundtrip) (auto simp: createPaymentResponse_def)
  then show ?thesis
    by (simp add: unmarshal_paymentAPI_def unmarshal_struct_def createPaymentResponse_def paymentAPI_member_def)
qed

lemma getPaymentResponse_read: "unmarshal_status (render (getPaymentResponse p)) = Some (to_valid (pStatus p))"
proof -
  have "json_parse (render (getPaymentResponse p)) = Some (norm (getPaymentResponse p))"
    by (rule json_roundtrip) (auto simp: getPaymentResponse_def)
  then show ?thesis
    by (simp add: unmarshal_status_def unmarshal_struct_def getPaymentResponse_def status_member_def)
qed

end
