(* ===== verification/Order_Store.thy ===== *)
theory Order_Store
  imports Order_Domain Redis Postgres Go_Time
begin

text \<open>
  The order service's repository (\<^verbatim>\<open>order-service/internal/repository/postgres/order_repo.go\<close>)
  over the tables of \<^verbatim>\<open>order-service/migrations\<close>. A statement is a function on the tables with the
  table's constraints; the transaction of \<open>CreatePendingWithIdempotency\<close> writes when it
  commits. Every statement is a call that may be lost (\<open>driver\<close>); the deferred
  \<open>Rollback\<close> has no effect on the tables and its error is dropped, so it is not a step.

  What PostgreSQL and the uuid package contribute are parameters: \<open>pg\<close> reads identifiers and
  times, \<open>uuid_seq\<close> are the identifiers that \<open>uuid.NewString\<close> hands out. The repository meets
  the contract \<open>order_repository\<close> for every one of them.
\<close>

record order_world = redis_env +
  orders_tab :: order_table
  idem_tab :: "string \<rightharpoonup> string"
  wall :: gotime
  uuid_seq :: "nat \<Rightarrow> string"
  uuid_pos :: nat

section \<open>Statements\<close>

definition statuses :: "string list" where
  "statuses = [StatusPending, StatusPaid, StatusFailed, StatusCancelled]"

definition sql_get_order :: "postgres \<Rightarrow> string \<Rightarrow> 'w order_world_scheme \<Rightarrow> (string + Order option) \<times> 'w order_world_scheme"
  where
  "sql_get_order pg i w =
     (case uuid_in pg i of
        None \<Rightarrow> (Inl (bad_uuid i), w)
      | Some k \<Rightarrow> (Inr (orders_tab w k), w))"

definition sql_update_status ::
    "postgres \<Rightarrow> string \<Rightarrow> string \<Rightarrow> 'w order_world_scheme \<Rightarrow> (string + nat) \<times> 'w order_world_scheme" where
  "sql_update_status pg i st w =
     (case uuid_in pg i of
        None \<Rightarrow> (Inl (bad_uuid i), w)
      | Some k \<Rightarrow>
          (case orders_tab w k of
             None \<Rightarrow> (Inr 0, w)
           | Some ord \<Rightarrow>
               if st \<in> set statuses
               then (Inr 1, w\<lparr>orders_tab := (orders_tab w)(k \<mapsto> ord\<lparr>oStatus := st\<rparr>)\<rparr>)
               else (Inl check_violation, w)))"

definition sql_find_key :: "string \<Rightarrow> 'w order_world_scheme \<Rightarrow> (string + string option) \<times> 'w order_world_scheme" where
  "sql_find_key key w = (Inr (idem_tab w key), w)"

text \<open>The two inserts of a transaction check their constraints; the commit writes both rows.\<close>

definition sql_insert_order :: "postgres \<Rightarrow> Order \<Rightarrow> 'w order_world_scheme \<Rightarrow> (string + unit) \<times> 'w order_world_scheme" where
  "sql_insert_order pg ord w =
     (case uuid_in pg (oID ord) of
        None \<Rightarrow> (Inl (bad_uuid (oID ord)), w)
      | Some k \<Rightarrow>
          if orders_tab w k \<noteq> None then (Inl duplicate_key, w)
          else if oAmount ord \<le>s 0 \<or> oStatus ord \<notin> set statuses
          then (Inl check_violation, w)
          else (Inr (), w))"

definition sql_insert_key :: "string \<Rightarrow> 'w order_world_scheme \<Rightarrow> (string + unit) \<times> 'w order_world_scheme" where
  "sql_insert_key key w =
     (if idem_tab w key \<noteq> None then (Inl duplicate_key, w)
      else (Inr (), w))"

definition sql_commit ::
    "postgres \<Rightarrow> Order \<Rightarrow> string option \<Rightarrow> 'w order_world_scheme \<Rightarrow> (string + unit) \<times> 'w order_world_scheme" where
  "sql_commit pg ord key w =
     (case uuid_in pg (oID ord) of
        None \<Rightarrow> (Inr (), w)
      | Some k \<Rightarrow>
          (Inr (), w\<lparr>orders_tab := (orders_tab w)(k \<mapsto> ord\<lparr>oID := k, oCreatedAt := ts_col pg (oCreatedAt ord)\<rparr>),
             idem_tab := (case key of None \<Rightarrow> idem_tab w | Some x \<Rightarrow> (idem_tab w)(x \<mapsto> k))\<rparr>))"

definition sql_nop :: "'w order_world_scheme \<Rightarrow> (string + unit) \<times> 'w order_world_scheme" where
  "sql_nop w = (Inr (), w)"

section \<open>The repository\<close>

definition db_error :: "string \<Rightarrow> string \<Rightarrow> uerror" where
  "db_error pre m = Wrapf pre (Errorf m) []"

definition repo_GetByID :: "postgres \<Rightarrow> string \<Rightarrow> ('w order_world_scheme, uerror + Order option) state" where
  "repo_GetByID pg i = do {
     r \<leftarrow> driver (sql_get_order pg i);
     State_Monad.return
       (case r of Inl m \<Rightarrow> Inl (db_error ''get order: '' m) | Inr row \<Rightarrow> Inr row)
   }"

text \<open>\<open>RowsAffected\<close> reads the count that came with the answer; the driver never fails there.\<close>

definition repo_UpdateStatus :: "postgres \<Rightarrow> string \<Rightarrow> string \<Rightarrow> ('w order_world_scheme, uerror option) state" where
  "repo_UpdateStatus pg i st = do {
     r \<leftarrow> driver (sql_update_status pg i st);
     State_Monad.return
       (case r of
          Inl m \<Rightarrow> Some (db_error ''update order status: '' m)
        | Inr n \<Rightarrow> if n = 0 then Some (Errorf ''order not found'') else None)
   }"

text \<open>The key the transaction records: nil and the empty key record none.\<close>

definition key_used :: "string option \<Rightarrow> string option" where
  "key_used key = (case key of Some k \<Rightarrow> if k \<noteq> [] then Some k else None | None \<Rightarrow> None)"

text \<open>Lines 72 to 94: the lock, the lookup of the key and the load of the order it names.\<close>

definition repo_find_replay ::
    "postgres \<Rightarrow> string \<Rightarrow> ('w order_world_scheme, uerror + Order option) state" where
  "repo_find_replay pg k = do {
     l \<leftarrow> driver sql_nop;
     (case l of
        Inl m \<Rightarrow> State_Monad.return (Inl (db_error ''advisory lock: '' m))
      | Inr _ \<Rightarrow> do {
          f \<leftarrow> driver (sql_find_key k);
          (case f of
             Inl m \<Rightarrow> State_Monad.return (Inl (db_error ''idempotency lookup: '' m))
           | Inr None \<Rightarrow> State_Monad.return (Inr None)
           | Inr (Some existingID) \<Rightarrow> do {
               g \<leftarrow> driver (sql_get_order pg existingID);
               (case g of
                  Inl m \<Rightarrow> State_Monad.return (Inl (db_error ''load idempotent order: '' m))
                | Inr None \<Rightarrow> State_Monad.return
                    (Inl (db_error ''load idempotent order: '' ''sql: no rows in result set''))
                | Inr (Some ord) \<Rightarrow> do {
                    c \<leftarrow> driver sql_nop;
                    (case c of
                       Inl m \<Rightarrow> State_Monad.return (Inl (Errorf m))
                     | Inr _ \<Rightarrow> State_Monad.return (Inr (Some ord)))
                  })
             })
        })
   }"

text \<open>\<open>time.Now().UTC()\<close> and \<open>uuid.NewString()\<close>.\<close>

definition time_now :: "('w order_world_scheme, gotime) state" where
  "time_now = State (\<lambda>w. (wall w, w))"

definition uuid_new :: "('w order_world_scheme, string) state" where
  "uuid_new = State (\<lambda>w. (uuid_seq w (uuid_pos w), w\<lparr>uuid_pos := Suc (uuid_pos w)\<rparr>))"

text \<open>Lines 97 to 124: a new pending order, and its key where there is one.\<close>

definition repo_insert_pending ::
    "postgres \<Rightarrow> string option \<Rightarrow> string \<Rightarrow> string \<Rightarrow> int64 \<Rightarrow> ('w order_world_scheme, uerror + Order \<times> bool) state"
  where
  "repo_insert_pending pg key customerID itemName amount = do {
     now \<leftarrow> time_now;
     i \<leftarrow> uuid_new;
     (let ord = \<lparr>oID = i, oCustomerID = customerID, oItemName = itemName, oAmount = amount,
                 oStatus = StatusPending, oCreatedAt = now\<rparr>
      in do {
        r \<leftarrow> driver (sql_insert_order pg ord);
        (case r of
           Inl m \<Rightarrow> State_Monad.return (Inl (db_error ''insert order: '' m))
         | Inr _ \<Rightarrow> do {
             q \<leftarrow> (case key of
                     None \<Rightarrow> State_Monad.return (Inr ())
                   | Some k \<Rightarrow> driver (sql_insert_key k));
             (case q of
                Inl m \<Rightarrow> State_Monad.return (Inl (db_error ''insert idempotency: '' m))
              | Inr _ \<Rightarrow> do {
                  c \<leftarrow> driver (sql_commit pg ord key);
                  (case c of
                     Inl m \<Rightarrow> State_Monad.return (Inl (Errorf m))
                   | Inr _ \<Rightarrow> State_Monad.return (Inr (ord, False)))
                })
           })
      })
   }"

definition repo_CreatePendingWithIdempotency ::
    "postgres \<Rightarrow> string option \<Rightarrow> string \<Rightarrow> string \<Rightarrow> int64 \<Rightarrow> ('w order_world_scheme, uerror + Order \<times> bool) state"
  where
  "repo_CreatePendingWithIdempotency pg idempotencyKey customerID itemName amount = do {
     b \<leftarrow> driver sql_nop;
     (case b of
        Inl m \<Rightarrow> State_Monad.return (Inl (db_error ''begin tx: '' m))
      | Inr _ \<Rightarrow>
          (case key_used idempotencyKey of
             None \<Rightarrow> repo_insert_pending pg None customerID itemName amount
           | Some k \<Rightarrow> do {
               f \<leftarrow> repo_find_replay pg k;
               (case f of
                  Inl err \<Rightarrow> State_Monad.return (Inl err)
                | Inr (Some ord) \<Rightarrow> State_Monad.return (Inr (ord, True))
                | Inr None \<Rightarrow> repo_insert_pending pg (Some k) customerID itemName amount)
             }))
   }"

definition order_repo :: "postgres \<Rightarrow> 'w order_world_scheme OrderRepository" where
  "order_repo pg = \<lparr>GetByID = repo_GetByID pg, UpdateStatus = repo_UpdateStatus pg,
     CreatePendingWithIdempotency = repo_CreatePendingWithIdempotency pg\<rparr>"

section \<open>The invariant of the tables\<close>

text \<open>
  The constraints of the schema: a row's key is its canonical identifier, the amount is positive,
  the status is one of the four, a recorded key names an order. And what the uuid package
  promises: the identifiers it hands out are canonical.
\<close>

definition order_inv :: "postgres \<Rightarrow> 'w order_world_scheme \<Rightarrow> bool" where
  "order_inv pg w \<longleftrightarrow>
     (\<forall>k ord. orders_tab w k = Some ord \<longrightarrow>
        oID ord = k \<and> uuid_in pg k = Some k \<and> 0 <s oAmount ord \<and> oStatus ord \<in> set statuses) \<and>
     (\<forall>key i. idem_tab w key = Some i \<longrightarrow> orders_tab w i \<noteq> None) \<and>
     (\<forall>n. uuid_in pg (uuid_seq w n) = Some (uuid_seq w n))"

text \<open>The parts of the state the invariant and the table depend on.\<close>

lemma order_inv_env [simp]:
  "order_inv pg (w\<lparr>faults := f\<rparr>) = order_inv pg w"
  "order_inv pg (w\<lparr>uuid_pos := n\<rparr>) = order_inv pg w"
  "order_inv pg (w\<lparr>redis := s\<rparr>) = order_inv pg w"
  by (simp_all add: order_inv_def)

lemma order_inv_settle:
  assumes "order_inv pg w" and "orders_tab w k = Some ord" and "st \<in> set statuses"
  shows "order_inv pg (w\<lparr>orders_tab := (orders_tab w)(k \<mapsto> ord\<lparr>oStatus := st\<rparr>)\<rparr>)"
  using assms by (auto simp: order_inv_def)

lemma order_inv_commit:
  assumes "order_inv pg w" and "uuid_in pg i = Some i" and "oID ord = i" and "0 <s oAmount ord"
    and "oStatus ord \<in> set statuses"
  shows "order_inv pg (snd (sql_commit pg ord key w))"
  using assms by (auto simp: order_inv_def sql_commit_def split: option.splits if_splits)

section \<open>What the repository promises\<close>

lemma reads [simp]:
  "snd (sql_get_order pg i w) = w" "snd (sql_find_key key w) = w" "snd (sql_insert_order pg ord w) = w"
  "snd (sql_insert_key key w) = w" "snd (sql_nop w) = w"
  by (simp_all add: sql_get_order_def sql_find_key_def sql_insert_order_def sql_insert_key_def
      sql_nop_def split: option.splits)

lemma get_spec:
  "wp (repo_GetByID pg i) (\<lambda>r w'. w' = w\<lparr>faults := tl (faults w)\<rparr> \<and>
     (\<forall>x. r = Inr x \<longrightarrow> (\<exists>k. uuid_in pg i = Some k \<and> x = orders_tab w k))) w"
  unfolding repo_GetByID_def wp_bind
  by (rule driver_read_wp) (auto simp: sql_get_order_def split: option.splits)

lemma update_spec:
  assumes "order_inv pg w"
  shows "wp (repo_UpdateStatus pg i st) (\<lambda>e w'. order_inv pg w' \<and>
     (e = None \<longrightarrow> (\<exists>k ord. uuid_in pg i = Some k \<and> orders_tab w k = Some ord \<and>
        orders_tab w' = (orders_tab w)(k \<mapsto> ord\<lparr>oStatus := st\<rparr>))) \<and>
     (e \<noteq> None \<longrightarrow> orders_tab w' = orders_tab w \<or>
        (\<exists>k ord. uuid_in pg i = Some k \<and> orders_tab w k = Some ord \<and>
        orders_tab w' = (orders_tab w)(k \<mapsto> ord\<lparr>oStatus := st\<rparr>)))) w"
  unfolding repo_UpdateStatus_def wp_bind
proof (rule driver_wp, goal_cases)
  case 1
  then show ?case using assms by simp
next
  case (2 r w')
  let ?w = "w\<lparr>faults := tl (faults w)\<rparr>"
  have "order_inv pg ?w" using assms by simp
  note settle = order_inv_settle [OF this]
  show ?case
    using 2 assms settle
    by (auto simp: sql_update_status_def split: option.splits if_splits)
qed

lemma inv_row:
  "order_inv pg w \<Longrightarrow> orders_tab w k = Some ord \<Longrightarrow> oID ord = k \<and> uuid_in pg k = Some k \<and>
   0 <s oAmount ord \<and> oStatus ord \<in> set statuses"
  by (simp add: order_inv_def)

lemma inv_key:
  assumes "order_inv pg w" and "idem_tab w key = Some i"
  obtains ord where "uuid_in pg i = Some i" and "orders_tab w i = Some ord" and "oID ord = i"
proof -
  have "orders_tab w i \<noteq> None" using assms unfolding order_inv_def by blast
  then obtain ord where "orders_tab w i = Some ord" by blast
  then show thesis using assms(1) that unfolding order_inv_def by blast
qed

lemma find_replay_spec:
  assumes "order_inv pg w"
  shows "wp (repo_find_replay pg k) (\<lambda>r w'. w' = w\<lparr>faults := faults w'\<rparr> \<and>
     (r = Inr None \<longrightarrow> idem_tab w k = None) \<and>
     (\<forall>ord. r = Inr (Some ord) \<longrightarrow> idem_tab w k = Some (oID ord) \<and> orders_tab w (oID ord) = Some ord)) w"
proof (cases "idem_tab w k")
  case None
  then show ?thesis unfolding repo_find_replay_def
    by (auto intro!: driver_read_wp simp: sql_nop_def sql_find_key_def)
next
  case (Some i)
  with assms obtain ord where "uuid_in pg i = Some i" "orders_tab w i = Some ord" "oID ord = i"
    by (rule inv_key)
  with Some show ?thesis unfolding repo_find_replay_def
    by (auto intro!: driver_read_wp simp: sql_nop_def sql_find_key_def sql_get_order_def)
qed

lemma wp_now_uuid [simp]:
  "wp time_now Q w = Q (wall w) w"
  "wp uuid_new Q' w = Q' (uuid_seq w (uuid_pos w)) (w\<lparr>uuid_pos := Suc (uuid_pos w)\<rparr>)"
  by (simp_all add: wp_def time_now_def uuid_new_def)

lemma sql_insert_order_ok:
  "fst (sql_insert_order pg ord w) = Inr () \<longleftrightarrow>
   (\<exists>k. uuid_in pg (oID ord) = Some k \<and> orders_tab w k = None \<and> 0 <s oAmount ord \<and>
      oStatus ord \<in> set statuses)"
  by (auto simp: sql_insert_order_def go_int_order split: option.splits)

text \<open>A commit, lost or not, is a placement: the table is unchanged or has the one new row.\<close>

lemma commit_wp:
  assumes "order_inv pg w" and "uuid_in pg (oID ord) = Some (oID ord)" and "0 <s oAmount ord"
    and "oStatus ord \<in> set statuses"
    and "\<And>m w'. order_inv pg w' \<Longrightarrow> orders_tab w' = orders_tab w \<or>
        orders_tab w' = (orders_tab w)(oID ord \<mapsto> ord\<lparr>oCreatedAt := ts_col pg (oCreatedAt ord)\<rparr>) \<Longrightarrow> Q (Inl m) w'"
    and "\<And>w'. order_inv pg w' \<Longrightarrow>
        orders_tab w' = (orders_tab w)(oID ord \<mapsto> ord\<lparr>oCreatedAt := ts_col pg (oCreatedAt ord)\<rparr>) \<Longrightarrow> Q (Inr ()) w'"
  shows "wp (driver (sql_commit pg ord key)) Q w"
proof (rule driver_wp, goal_cases)
  case (1 m)
  show ?case by (rule assms(5)) (use assms(1) in simp_all)
next
  case (2 r w')
  have r: "r = Inr ()"
    and t: "orders_tab w' = (orders_tab w)(oID ord \<mapsto> ord\<lparr>oCreatedAt := ts_col pg (oCreatedAt ord)\<rparr>)"
    using 2 assms(2) by (auto simp: sql_commit_def)
  have "order_inv pg w'"
    using order_inv_commit [OF _ assms(2) refl assms(3,4), of "w\<lparr>faults := tl (faults w)\<rparr>" key] assms(1) 2
    by simp
  then show ?case using assms(5,6) r t by blast
qed

lemma insert_spec:
  assumes "order_inv pg w"
  shows "wp (repo_insert_pending pg key c n a) (\<lambda>r w'. order_inv pg w' \<and>
     placed (orders_tab w) (orders_tab w') \<and>
     (\<forall>ord b. r = Inr (ord, b) \<longrightarrow> \<not> b \<and> uuid_in pg (oID ord) = Some (oID ord) \<and>
        orders_tab w (oID ord) = None \<and> oStatus ord = StatusPending \<and>
        oCustomerID ord = c \<and> oItemName ord = n \<and> oAmount ord = a \<and>
        orders_tab w' = (orders_tab w)(oID ord \<mapsto> ord\<lparr>oCreatedAt := ts_col pg (oCreatedAt ord)\<rparr>))) w"
  (is "wp _ ?Q w")
proof -
  let ?i = "uuid_seq w (uuid_pos w)"
  let ?ord = "\<lparr>oID = ?i, oCustomerID = c, oItemName = n, oAmount = a, oStatus = StatusPending,
    oCreatedAt = wall w\<rparr>"
  have canon: "uuid_in pg ?i = Some ?i" using assms by (simp add: order_inv_def)
  have commit: "wp (driver (sql_commit pg ?ord kk)) (\<lambda>r. wp (case r of
        Inl m \<Rightarrow> State_Monad.return (Inl (Errorf m))
      | Inr _ \<Rightarrow> State_Monad.return (Inr (?ord, False))) ?Q) w1"
    if "order_inv pg w1" and "orders_tab w1 = orders_tab w" and "orders_tab w ?i = None" and "0 <s a" for w1 kk
  proof -
    have "placed (orders_tab w) ((orders_tab w)(?i \<mapsto> ?ord\<lparr>oCreatedAt := ts_col pg (oCreatedAt ?ord)\<rparr>))"
      using that(3) by (intro placed_new) simp_all
    then show ?thesis
      using that canon by (intro commit_wp) (auto simp: statuses_def)
  qed
  have key: "wp (case key of None \<Rightarrow> State_Monad.return (Inr ()) | Some k \<Rightarrow> driver (sql_insert_key k))
      (\<lambda>q. wp (case q of
         Inl m \<Rightarrow> State_Monad.return (Inl (db_error ''insert idempotency: '' m))
       | Inr _ \<Rightarrow> do {
           r \<leftarrow> driver (sql_commit pg ?ord key);
           (case r of
              Inl m \<Rightarrow> State_Monad.return (Inl (Errorf m))
            | Inr _ \<Rightarrow> State_Monad.return (Inr (?ord, False)))
         }) ?Q) w1"
    if "order_inv pg w1" and "orders_tab w1 = orders_tab w" and "orders_tab w ?i = None" and "0 <s a" for w1
  proof (cases key)
    case None
    then show ?thesis using commit [OF that] by simp
  next
    case (Some k)
    have "wp (driver (sql_insert_key k)) (\<lambda>q. wp (case q of
         Inl m \<Rightarrow> State_Monad.return (Inl (db_error ''insert idempotency: '' m))
       | Inr _ \<Rightarrow> do {
           r \<leftarrow> driver (sql_commit pg ?ord key);
           (case r of
              Inl m \<Rightarrow> State_Monad.return (Inl (Errorf m))
            | Inr _ \<Rightarrow> State_Monad.return (Inr (?ord, False)))
         }) ?Q) w1"
      using commit [of "w1\<lparr>faults := tl (faults w1)\<rparr>"] that
      by (intro driver_read_wp) (simp_all add: sql_insert_key_def)
    with Some show ?thesis by simp
  qed
  have ins: "fst (sql_insert_order pg ?ord w1) = Inr () \<longrightarrow> orders_tab w ?i = None \<and> 0 <s a"
    if "orders_tab w1 = orders_tab w" for w1
    using sql_insert_order_ok [of pg ?ord w1] canon that by auto
  show ?thesis
    unfolding repo_insert_pending_def wp_bind wp_now_uuid Let_def
  proof (rule driver_read_wp, simp, goal_cases)
    case (1 m)
    then show ?case using assms by simp
  next
    let ?w = "w\<lparr>uuid_pos := Suc (uuid_pos w), faults := tl (faults (w\<lparr>uuid_pos := Suc (uuid_pos w)\<rparr>))\<rparr>"
    case 2
    show ?case
    proof (cases "fst (sql_insert_order pg ?ord ?w)")
      case (Inl m)
      then show ?thesis using assms by simp
    next
      case (Inr u)
      then have "fst (sql_insert_order pg ?ord ?w) = Inr ()" by simp
      moreover from this have "orders_tab w ?i = None" "0 <s a" using ins [of ?w] by simp_all
      ultimately show ?thesis using key [of ?w] assms by simp
    qed
  qed
qed

lemma create_spec:
  assumes "order_inv pg w"
  shows "wp (repo_CreatePendingWithIdempotency pg key c n a) (\<lambda>r w'. order_inv pg w' \<and>
     placed (orders_tab w) (orders_tab w') \<and>
     (\<forall>ord. r = Inr (ord, False) \<longrightarrow> uuid_in pg (oID ord) = Some (oID ord) \<and>
        orders_tab w (oID ord) = None \<and> oStatus ord = StatusPending \<and>
        oCustomerID ord = c \<and> oItemName ord = n \<and> oAmount ord = a \<and>
        orders_tab w' = (orders_tab w)(oID ord \<mapsto> ord\<lparr>oCreatedAt := ts_col pg (oCreatedAt ord)\<rparr>)) \<and>
     (\<forall>ord. r = Inr (ord, True) \<longrightarrow> uuid_in pg (oID ord) = Some (oID ord) \<and>
        orders_tab w (oID ord) = Some ord \<and> orders_tab w' = orders_tab w)) w"
proof -
  let ?Q = "\<lambda>r w'. order_inv pg w' \<and>
     placed (orders_tab w) (orders_tab w') \<and>
     (\<forall>ord. r = Inr (ord, False) \<longrightarrow> uuid_in pg (oID ord) = Some (oID ord) \<and>
        orders_tab w (oID ord) = None \<and> oStatus ord = StatusPending \<and>
        oCustomerID ord = c \<and> oItemName ord = n \<and> oAmount ord = a \<and>
        orders_tab w' = (orders_tab w)(oID ord \<mapsto> ord\<lparr>oCreatedAt := ts_col pg (oCreatedAt ord)\<rparr>)) \<and>
     (\<forall>ord. r = Inr (ord, True) \<longrightarrow> uuid_in pg (oID ord) = Some (oID ord) \<and>
        orders_tab w (oID ord) = Some ord \<and> orders_tab w' = orders_tab w)"
  have ins: "wp (repo_insert_pending pg kk c n a) ?Q w1"
    if "order_inv pg w1" "orders_tab w1 = orders_tab w" for w1 kk
    by (rule wp_mono [OF insert_spec [OF that(1)]]) (use that in auto)
  have rep: "wp (repo_find_replay pg k) (\<lambda>f. wp (case f of
        Inl err \<Rightarrow> State_Monad.return (Inl err)
      | Inr (Some ord) \<Rightarrow> State_Monad.return (Inr (ord, True))
      | Inr None \<Rightarrow> repo_insert_pending pg (Some k) c n a) ?Q) w1"
    if "order_inv pg w1" "orders_tab w1 = orders_tab w" for w1 k
  proof (rule wp_mono [OF find_replay_spec [OF that(1)]], goal_cases)
    case (1 f w2)
    then obtain g where "w2 = w1\<lparr>faults := g\<rparr>" by blast
    with that have "order_inv pg w2" "orders_tab w2 = orders_tab w" by simp_all
    with 1 that show ?case
      by (auto intro: ins dest: inv_row split: sum.splits option.splits)
  qed
  show ?thesis
    unfolding repo_CreatePendingWithIdempotency_def
    using assms by (auto intro!: driver_read_wp ins rep simp: sql_nop_def split: option.splits)
qed

text \<open>The repository leaves alone what the state has beside the service's own tables and queues.\<close>

lemma keeps_more_sql [simp]:
  "order_world.more (snd (sql_get_order pg i w)) = order_world.more w"
  "order_world.more (snd (sql_update_status pg i st w)) = order_world.more w"
  "order_world.more (snd (sql_commit pg ord key w)) = order_world.more w"
  by (simp_all add: sql_update_status_def sql_commit_def split: option.splits)

lemma keeps_more_runtime [go_frame]:
  "keeps order_world.more time_now" "keeps order_world.more uuid_new"
  by (simp_all add: keeps_def time_now_def uuid_new_def)

lemma keeps_more_repo [go_frame]:
  "keeps order_world.more (repo_GetByID pg i)"
  "keeps order_world.more (repo_UpdateStatus pg i st)"
  "keeps order_world.more (repo_CreatePendingWithIdempotency pg key c n a)"
  unfolding repo_GetByID_def repo_UpdateStatus_def repo_CreatePendingWithIdempotency_def
    repo_find_replay_def repo_insert_pending_def Let_def
  by (intro go_frame; simp)+

text \<open>The repository over PostgreSQL meets the contract the use cases rely on.\<close>

interpretation pg_repo: order_repository "order_repo pg" orders_tab "uuid_in pg" "\<lambda>w. order_inv pg w \<and> P (order_world.more w)"
  for pg :: postgres and P
proof (unfold_locales, goal_cases)
  case (1 w i r w')
  then show ?case using wpD [OF get_spec, of pg i w r w'] by (simp add: order_repo_def)
next
  case (2 w i ord w')
  then obtain k where "uuid_in pg i = Some k" "orders_tab w k = Some ord"
    using wpD [OF get_spec, of pg i w "Inr (Some ord)" w'] by (auto simp: order_repo_def)
  with 2(1) inv_row [of pg w k ord] show ?case by simp
next
  case (3 w i w')
  then show ?case using wpD [OF get_spec, of pg i w "Inr None" w'] by (auto simp: order_repo_def)
next
  case (4 w i st u w')
  then show ?case
    using wpD [OF update_spec, of pg w i st u w'] keepsD [OF keeps_more_repo(2), of pg i st w u w']
    by (simp add: order_repo_def)
next
  case (5 w i st w')
  then show ?case using wpD [OF update_spec, of pg w i st None w'] by (simp add: order_repo_def)
next
  case (6 w i st e w')
  then show ?case using wpD [OF update_spec, of pg w i st "Some e" w'] by (simp add: order_repo_def)
next
  case (7 w key c n a q w')
  then show ?case
    using wpD [OF create_spec, of pg w key c n a q w'] keepsD [OF keeps_more_repo(3), of pg key c n a w q w']
    by (simp add: order_repo_def)
next
  case (8 w key c n a ord w')
  then show ?case
    using wpD [OF create_spec, of pg w key c n a "Inr (ord, False)" w'] by (auto simp: order_repo_def)
next
  case (9 w key c n a ord w')
  then show ?case
    using wpD [OF create_spec, of pg w key c n a "Inr (ord, True)" w'] by (simp add: order_repo_def)
next
  case (10 w key c n a e w')
  then show ?case
    using wpD [OF create_spec, of pg w key c n a "Inl e" w'] by (simp add: order_repo_def)
next
  case (11 w k ord)
  then show ?case using inv_row [of pg w k ord] by (auto simp: statuses_def final_statuses_def)
qed

end
