(* ===== verification/Order_Cache.thy ===== *)
theory Order_Cache
  imports Order_Store
begin

text \<open>
  The order cache over Redis (\<^verbatim>\<open>order-service/internal/infrastructure/rediscache/order_cache.go\<close>):
  an order is kept as its JSON text under the key \<open>order:\<close> and its identifier. The nil checks of
  the methods are kept: a nil \<open>*Store\<close> is \<open>None\<close>, a nil client \<open>rdb = None\<close>. The cache meets
  \<open>order_cache\<close>, and an order that was stored is the order that is read.
\<close>

section \<open>The JSON form of an order\<close>

text \<open>\<open>domain.Order\<close> has no field tags: the keys are the field names.\<close>

definition order_json :: "Order \<Rightarrow> json option" where
  "order_json ord =
     (case time_json (oCreatedAt ord) of
        None \<Rightarrow> None
      | Some t \<Rightarrow> Some (JObj
          [(''ID'', JStr (oID ord)), (''CustomerID'', JStr (oCustomerID ord)),
           (''ItemName'', JStr (oItemName ord)), (''Amount'', JNum (int_text (sint (oAmount ord)))),
           (''Status'', JStr (oStatus ord)), (''CreatedAt'', t)]))"

definition marshal_order :: "Order \<Rightarrow> string option" where
  "marshal_order ord = map_option render (order_json ord)"

text \<open>The zero value of \<open>domain.Order\<close> (the zero time is January 1 of year 1).\<close>

definition zero_time :: gotime where
  "zero_time = \<lparr>tYear = 1, tMonth = 1, tDay = 1, tHour = 0, tMin = 0, tSec = 0, tNsec = 0, tZone = 0\<rparr>"

definition zero_order :: Order where
  "zero_order = \<lparr>oID = [], oCustomerID = [], oItemName = [], oAmount = 0, oStatus = [],
     oCreatedAt = zero_time\<rparr>"

definition as_time :: "gotime \<Rightarrow> json \<Rightarrow> gotime option" where
  "as_time old v = (if v = JNull then Some old else time_of_json v)"

definition order_member :: "Order \<Rightarrow> string \<times> json \<Rightarrow> Order option" where
  "order_member ord kv =
     (case kv of (k, v) \<Rightarrow>
        if same_name k ''ID'' then map_option (\<lambda>x. ord\<lparr>oID := x\<rparr>) (as_string (oID ord) v)
        else if same_name k ''CustomerID''
        then map_option (\<lambda>x. ord\<lparr>oCustomerID := x\<rparr>) (as_string (oCustomerID ord) v)
        else if same_name k ''ItemName''
        then map_option (\<lambda>x. ord\<lparr>oItemName := x\<rparr>) (as_string (oItemName ord) v)
        else if same_name k ''Amount''
        then map_option (\<lambda>x. ord\<lparr>oAmount := x\<rparr>) (as_int64 (oAmount ord) v)
        else if same_name k ''Status''
        then map_option (\<lambda>x. ord\<lparr>oStatus := x\<rparr>) (as_string (oStatus ord) v)
        else if same_name k ''CreatedAt''
        then map_option (\<lambda>x. ord\<lparr>oCreatedAt := x\<rparr>) (as_time (oCreatedAt ord) v)
        else Some ord)"

definition unmarshal_order :: "string \<Rightarrow> Order option" where
  "unmarshal_order s = unmarshal_struct order_member zero_order s"

section \<open>The store\<close>

definition keyPrefix :: string where "keyPrefix = ''order:''"

record Store =
  rdb :: "unit option"

definition New :: "unit option \<Rightarrow> Store" where
  "New r = \<lparr>rdb = r\<rparr>"

definition cache_key :: "string \<Rightarrow> string" where
  "cache_key i = keyPrefix @ i"

text \<open>\<open>c == nil || c.rdb == nil\<close>\<close>

definition store_nil :: "Store option \<Rightarrow> bool" where
  "store_nil c = (case c of None \<Rightarrow> True | Some s \<Rightarrow> rdb s = None)"

definition Store_Get :: "Store option \<Rightarrow> string \<Rightarrow> ('w order_world_scheme, uerror + Order option) state" where
  "Store_Get c i =
     (if store_nil c then State_Monad.return (Inr None)
      else do {
        r \<leftarrow> redis_get (cache_key i);
        (case r of
           Inl m \<Rightarrow> State_Monad.return (Inl (db_error ''redis get: '' m))
         | Inr None \<Rightarrow> State_Monad.return (Inr None)
         | Inr (Some s) \<Rightarrow>
             (case unmarshal_order s of
                None \<Rightarrow> do { _ \<leftarrow> redis_del (cache_key i); State_Monad.return (Inr None) }
              | Some ord \<Rightarrow> State_Monad.return (Inr (Some ord))))
      })"

definition Store_Set :: "Store option \<Rightarrow> Order \<Rightarrow> duration \<Rightarrow> ('w order_world_scheme, uerror option) state" where
  "Store_Set c ord ttl =
     (if store_nil c then State_Monad.return None
      else
        (case marshal_order ord of
           None \<Rightarrow> State_Monad.return (Some (db_error ''marshal order: ''
             ''json: error calling MarshalJSON for type time.Time''))
         | Some b \<Rightarrow> do {
             r \<leftarrow> redis_set (cache_key (oID ord)) b ttl;
             State_Monad.return
               (case r of Inl m \<Rightarrow> Some (db_error ''redis set: '' m) | Inr _ \<Rightarrow> None)
           }))"

definition Store_Delete :: "Store option \<Rightarrow> string \<Rightarrow> ('w order_world_scheme, uerror option) state" where
  "Store_Delete c i =
     (if store_nil c \<or> i = [] then State_Monad.return None
      else do {
        r \<leftarrow> redis_del (cache_key i);
        State_Monad.return (case r of Inl m \<Rightarrow> Some (db_error ''redis del: '' m) | Inr _ \<Rightarrow> None)
      })"

definition order_cache_store :: "Store option \<Rightarrow> 'w order_world_scheme OrderCache" where
  "order_cache_store c = \<lparr>cGet = Store_Get c, cSet = Store_Set c, cDelete = Store_Delete c\<rparr>"

section \<open>What is stored is what is read\<close>

definition storable :: "Order \<Rightarrow> bool" where
  "storable ord \<longleftrightarrow> valid_utf8 (oID ord) \<and> valid_utf8 (oCustomerID ord) \<and> valid_utf8 (oItemName ord) \<and>
     valid_utf8 (oStatus ord) \<and> valid_time (oCreatedAt ord)"

lemma order_keys_valid [simp]:
  "to_valid ''ID'' = ''ID''" "to_valid ''CustomerID'' = ''CustomerID''" "to_valid ''ItemName'' = ''ItemName''"
  "to_valid ''Amount'' = ''Amount''" "to_valid ''Status'' = ''Status''" "to_valid ''CreatedAt'' = ''CreatedAt''"
  by (rule to_valid_valid, rule ascii_valid, simp add: byte_def)+

lemma order_names: "distinct (map fold_name [''ID'', ''CustomerID'', ''ItemName'', ''Amount'', ''Status'', ''CreatedAt''])"
  by code_simp

lemma order_names_differ [simp]:
  "\<not> same_name ''CustomerID'' ''ID''" "\<not> same_name ''ItemName'' ''ID''" "\<not> same_name ''Amount'' ''ID''"
  "\<not> same_name ''Status'' ''ID''" "\<not> same_name ''CreatedAt'' ''ID''"
  "\<not> same_name ''ItemName'' ''CustomerID''" "\<not> same_name ''Amount'' ''CustomerID''"
  "\<not> same_name ''Status'' ''CustomerID''" "\<not> same_name ''CreatedAt'' ''CustomerID''"
  "\<not> same_name ''Amount'' ''ItemName''" "\<not> same_name ''Status'' ''ItemName''"
  "\<not> same_name ''CreatedAt'' ''ItemName''" "\<not> same_name ''Status'' ''Amount''"
  "\<not> same_name ''CreatedAt'' ''Amount''" "\<not> same_name ''CreatedAt'' ''Status''"
  using order_names by (simp_all add: same_name_def eq_commute del: fold_name.simps)

lemma order_roundtrip:
  assumes "storable ord"
  shows "\<exists>s. marshal_order ord = Some s \<and> unmarshal_order s = Some ord"
proof -
  note st = assms [unfolded storable_def]
  from st time_json_roundtrip obtain t where t: "time_json (oCreatedAt ord) = Some (JStr t)"
    "parse_time t = Some (oCreatedAt ord)" "valid_utf8 t" by blast
  define v where "v = JObj
    [(''ID'', JStr (oID ord)), (''CustomerID'', JStr (oCustomerID ord)),
     (''ItemName'', JStr (oItemName ord)), (''Amount'', JNum (int_text (sint (oAmount ord)))),
     (''Status'', JStr (oStatus ord)), (''CreatedAt'', JStr t)]"
  have m: "marshal_order ord = Some (render v)"
    by (simp add: marshal_order_def order_json_def t v_def)
  have "norm v = v" using st t by (simp add: v_def to_valid_valid)
  then have "json_parse (render v) = Some v"
    using json_roundtrip [of v] by (auto simp: v_def)
  then have "unmarshal_order (render v) = Some ord"
    using t by (simp add: unmarshal_order_def unmarshal_struct_def v_def order_member_def as_time_def
        time_of_json_def zero_order_def)
  with m show ?thesis by blast
qed

text \<open>What a read of the cache returns for an identifier, now.\<close>

definition cached :: "Store option \<Rightarrow> 'w order_world_scheme \<Rightarrow> order_table" where
  "cached c w i =
     (if store_nil c then None
      else case live (redis_clock w) (redis w) (cache_key i) of
             None \<Rightarrow> None
           | Some s \<Rightarrow> unmarshal_order s)"

lemma Store_Get_spec:
  "wp (Store_Get c i) (\<lambda>r w'. order_inv pg w' = order_inv pg w \<and> orders_tab w' = orders_tab w \<and>
     (\<forall>ord. r = Inr (Some ord) \<longrightarrow> cached c w i = Some ord)) w"
  unfolding Store_Get_def
  by (auto simp: cached_def intro!: redis_get_wp redis_del_wp split: sum.splits option.splits)

lemma Store_Set_spec:
  "wp (Store_Set c ord ttl) (\<lambda>r w'. order_inv pg w' = order_inv pg w \<and> orders_tab w' = orders_tab w) w"
  unfolding Store_Set_def by (auto intro!: redis_set_wp split: option.splits)

lemma Store_Delete_spec:
  "wp (Store_Delete c i) (\<lambda>r w'. order_inv pg w' = order_inv pg w \<and> orders_tab w' = orders_tab w) w"
  unfolding Store_Delete_def by (auto intro!: redis_del_wp)

lemma keeps_more_redis [go_frame]:
  "keeps order_world.more (redis_get k)" "keeps order_world.more (redis_set k v ttl)"
  "keeps order_world.more (redis_del k)"
  unfolding redis_get_def redis_set_def redis_del_def by (intro go_frame; simp)+

lemma keeps_more_cache [go_frame]:
  "keeps order_world.more (Store_Get c i)" "keeps order_world.more (Store_Set c ord ttl)"
  "keeps order_world.more (Store_Delete c i)"
  unfolding Store_Get_def Store_Set_def Store_Delete_def by (intro go_frame; simp)+

interpretation redis_cache: order_cache "order_cache_store c" orders_tab
    "\<lambda>w. order_inv pg w \<and> P (order_world.more w)" "cached c"
  for c :: "Store option" and pg :: postgres and P
proof (unfold_locales, goal_cases)
  case (1 w i r w')
  then show ?case using wpD [OF Store_Get_spec, of c i w r w'] keepsD [OF keeps_more_cache(1), of c i w r w']
    by (simp add: order_cache_store_def)
next
  case (2 i w ord w')
  then show ?case using wpD [OF Store_Get_spec, of c i w _ w'] by (simp add: order_cache_store_def)
next
  case (3 w ord ttl e w')
  then show ?case
    using wpD [OF Store_Set_spec, of c ord ttl w e w'] keepsD [OF keeps_more_cache(2), of c ord ttl w e w']
    by (simp add: order_cache_store_def)
next
  case (4 w i e w')
  then show ?case
    using wpD [OF Store_Delete_spec, of c i w e w'] keepsD [OF keeps_more_cache(3), of c i w e w']
    by (simp add: order_cache_store_def)
qed

end
