(* ===== verification/Order_Usecase.thy ===== *)
theory Order_Usecase
  imports Order_Domain
begin

text \<open>
  The use cases of the order service (\<^verbatim>\<open>order-service/internal/usecase\<close>): placing an order
  (\<open>CreateOrder\<close>, with the reconciliation against the payment service), reading one
  (\<open>GetOrder\<close>, cache-aside) and cancelling one (\<open>CancelOrder\<close>). Each is the method
  \<open>Execute\<close> of its struct, a computation over the ports the struct holds; a nil cache is
  \<open>None\<close>. \<open>Execute\<close> of \<open>CreateOrder\<close> may return an order together with an error, so its
  result is a pair of options, as in Go.

  The locale \<open>order_usecases\<close> puts the contracts of the ports together; inside it every use
  case is shown to refine the life of an order, for every answer of the payment service and
  every lost call.
\<close>

section \<open>CreateOrder\<close>

definition paymentStatusAuthorized :: string where "paymentStatusAuthorized = ''Authorized''"
definition paymentStatusDeclined :: string where "paymentStatusDeclined = ''Declined''"

record CreateOrderInput =
  inCustomerID :: string
  inCustomerEmail :: string
  inItemName :: string
  inAmount :: int64
  inIdempotencyKey :: "string option"

record 'w CreateOrder =
  orders :: "'w OrderRepository"
  payments :: "'w PaymentAuthorizer"
  cache :: "'w OrderCache option"

definition NewCreateOrder ::
    "'w OrderRepository \<Rightarrow> 'w PaymentAuthorizer \<Rightarrow> 'w OrderCache option \<Rightarrow> 'w CreateOrder" where
  "NewCreateOrder r p c = \<lparr>orders = r, payments = p, cache = c\<rparr>"

definition invalidate :: "'w CreateOrder \<Rightarrow> string \<Rightarrow> ('w, unit) state" where
  "invalidate uc orderID =
     (case cache uc of
        None \<Rightarrow> State_Monad.return ()
      | Some c \<Rightarrow>
          if orderID = [] then State_Monad.return ()
          else do { _ \<leftarrow> cDelete c orderID; State_Monad.return () })"

text \<open>The status an order gets from the status of its payment.\<close>

definition newStatus :: "string \<Rightarrow> string" where
  "newStatus st =
     (if st = paymentStatusAuthorized then StatusPaid
      else if st = paymentStatusDeclined then StatusFailed
      else StatusFailed)"

definition reconcileFromPaymentService ::
    "'w CreateOrder \<Rightarrow> Order \<Rightarrow> ('w, Order option \<times> uerror option) state" where
  "reconcileFromPaymentService uc order = do {
     s \<leftarrow> GetStatus (payments uc) (oID order);
     (case s of
        Inl err \<Rightarrow>
          if err = Sentinel ErrPaymentNotFound then
            State_Monad.return
              (None, Some (Errorf ''payment record missing after duplicate authorization''))
          else if err = Sentinel ErrPaymentUnavailable then do {
            fresh \<leftarrow> GetByID (orders uc) (oID order);
            (case fresh of
               Inr (Some f) \<Rightarrow> State_Monad.return (Some f, Some (Sentinel ErrPaymentUnavailable))
             | _ \<Rightarrow> State_Monad.return (Some order, Some (Sentinel ErrPaymentUnavailable)))
          }
          else State_Monad.return (None, Some err)
      | Inr st \<Rightarrow> do {
          e \<leftarrow> UpdateStatus (orders uc) (oID order) (newStatus st);
          (case e of
             Some err \<Rightarrow> State_Monad.return (None, Some err)
           | None \<Rightarrow> do {
               _ \<leftarrow> invalidate uc (oID order);
               State_Monad.return (Some (order\<lparr>oStatus := newStatus st\<rparr>), None)
             })
        })
   }"

text \<open>\<open>Execute\<close> from the payment on, for an order that is still Pending (lines 63 to 105).\<close>

definition CreateOrder_pay ::
    "'w CreateOrder \<Rightarrow> Order \<Rightarrow> string \<Rightarrow> ('w, Order option \<times> uerror option) state" where
  "CreateOrder_pay uc order customerEmail = do {
     a \<leftarrow> Authorize (payments uc) (oID order) (oAmount order) customerEmail;
     (case a of
        Inl err \<Rightarrow>
          if errors_Is err ErrPaymentInvalidArgument then
            State_Monad.return (None, Some (Sentinel ErrInvalidInput))
          else if err = Sentinel ErrPaymentAlreadyRecorded then
            reconcileFromPaymentService uc order
          else if err = Sentinel ErrPaymentUnavailable then do {
            fresh \<leftarrow> GetByID (orders uc) (oID order);
            (case fresh of
               Inr (Some f) \<Rightarrow> State_Monad.return (Some f, Some (Sentinel ErrPaymentUnavailable))
             | _ \<Rightarrow> State_Monad.return (Some order, Some (Sentinel ErrPaymentUnavailable)))
          }
          else do {
            _ \<leftarrow> UpdateStatus (orders uc) (oID order) StatusFailed;
            _ \<leftarrow> invalidate uc (oID order);
            fresh \<leftarrow> GetByID (orders uc) (oID order);
            (case fresh of
               Inr (Some f) \<Rightarrow> State_Monad.return (Some f, Some err)
             | _ \<Rightarrow> State_Monad.return (Some (order\<lparr>oStatus := StatusFailed\<rparr>), Some err))
          }
      | Inr (_, payStatus) \<Rightarrow> do {
          e \<leftarrow> UpdateStatus (orders uc) (oID order) (newStatus payStatus);
          (case e of
             Some err \<Rightarrow> State_Monad.return (None, Some err)
           | None \<Rightarrow> do {
               _ \<leftarrow> invalidate uc (oID order);
               State_Monad.return (Some (order\<lparr>oStatus := newStatus payStatus\<rparr>), None)
             })
        })
   }"

definition CreateOrder_Execute ::
    "'w CreateOrder \<Rightarrow> CreateOrderInput \<Rightarrow> ('w, Order option \<times> uerror option) state" where
  "CreateOrder_Execute uc i =
     (if inAmount i \<le>s 0 then State_Monad.return (None, Some (Sentinel ErrInvalidInput))
      else
        let customerID = TrimSpace (inCustomerID i);
            customerEmail = TrimSpace (inCustomerEmail i);
            itemName = TrimSpace (inItemName i)
        in if customerID = [] \<or> itemName = [] \<or> customerEmail = []
           then State_Monad.return (None, Some (Sentinel ErrInvalidInput))
           else do {
             r \<leftarrow> CreatePendingWithIdempotency (orders uc) (inIdempotencyKey i) customerID itemName
                   (inAmount i);
             (case r of
                Inl err \<Rightarrow> State_Monad.return (None, Some err)
              | Inr (order, _) \<Rightarrow>
                  if oStatus order = StatusPaid \<or> oStatus order = StatusFailed \<or>
                     oStatus order = StatusCancelled
                  then State_Monad.return (Some order, None)
                  else CreateOrder_pay uc order customerEmail)
           })"

section \<open>GetOrder\<close>

record 'w GetOrder =
  gOrders :: "'w OrderRepository"
  gCache :: "'w OrderCache option"
  gTtl :: duration

definition NewGetOrder ::
    "'w OrderRepository \<Rightarrow> 'w OrderCache option \<Rightarrow> duration \<Rightarrow> 'w GetOrder" where
  "NewGetOrder r c ttl = \<lparr>gOrders = r, gCache = c, gTtl = ttl\<rparr>"

text \<open>\<open>Execute\<close> after a cache miss (lines 39 to 51).\<close>

definition GetOrder_load :: "'w GetOrder \<Rightarrow> string \<Rightarrow> ('w, uerror + Order) state" where
  "GetOrder_load uc i = do {
     r \<leftarrow> GetByID (gOrders uc) i;
     (case r of
        Inl err \<Rightarrow> State_Monad.return (Inl err)
      | Inr None \<Rightarrow> State_Monad.return (Inl (Sentinel ErrOrderNotFound))
      | Inr (Some ord) \<Rightarrow>
          (case gCache uc of
             Some c \<Rightarrow>
               if 0 <s gTtl uc then do { _ \<leftarrow> cSet c ord (gTtl uc); State_Monad.return (Inr ord) }
               else State_Monad.return (Inr ord)
           | None \<Rightarrow> State_Monad.return (Inr ord)))
   }"

definition GetOrder_Execute :: "'w GetOrder \<Rightarrow> string \<Rightarrow> ('w, uerror + Order) state" where
  "GetOrder_Execute uc i0 =
     (let i = TrimSpace i0
      in if i = [] then State_Monad.return (Inl (Sentinel ErrOrderNotFound))
         else
           (case gCache uc of
              None \<Rightarrow> GetOrder_load uc i
            | Some c \<Rightarrow> do {
                h \<leftarrow> cGet c i;
                (case h of
                   Inr (Some ord) \<Rightarrow> State_Monad.return (Inr ord)
                 | _ \<Rightarrow> GetOrder_load uc i)
              }))"

section \<open>CancelOrder\<close>

record 'w CancelOrder =
  xOrders :: "'w OrderRepository"
  xCache :: "'w OrderCache option"

definition NewCancelOrder :: "'w OrderRepository \<Rightarrow> 'w OrderCache option \<Rightarrow> 'w CancelOrder" where
  "NewCancelOrder r c = \<lparr>xOrders = r, xCache = c\<rparr>"

definition CancelOrder_Execute :: "'w CancelOrder \<Rightarrow> string \<Rightarrow> ('w, uerror + Order) state" where
  "CancelOrder_Execute uc i = do {
     r \<leftarrow> GetByID (xOrders uc) i;
     (case r of
        Inl err \<Rightarrow> State_Monad.return (Inl err)
      | Inr None \<Rightarrow> State_Monad.return (Inl (Sentinel ErrOrderNotFound))
      | Inr (Some ord) \<Rightarrow>
          if oStatus ord \<noteq> StatusPending
          then State_Monad.return (Inl (Sentinel ErrCancelNotAllowed))
          else do {
            e \<leftarrow> UpdateStatus (xOrders uc) i StatusCancelled;
            (case e of
               Some err \<Rightarrow> State_Monad.return (Inl err)
             | None \<Rightarrow>
                 (case xCache uc of
                    Some c \<Rightarrow> do {
                      _ \<leftarrow> cDelete c i;
                      State_Monad.return (Inr (ord\<lparr>oStatus := StatusCancelled\<rparr>))
                    }
                  | None \<Rightarrow> State_Monad.return (Inr (ord\<lparr>oStatus := StatusCancelled\<rparr>))))
          })
   }"

lemma newStatus_final [simp]: "newStatus st \<in> set final_statuses"
  by (simp add: newStatus_def)

lemma newStatus_Paid_iff [simp]: "newStatus st = StatusPaid \<longleftrightarrow> st = paymentStatusAuthorized"
  by (simp add: newStatus_def)

lemma NewCreateOrder_fields [simp]:
  "orders (NewCreateOrder r p c) = r" "payments (NewCreateOrder r p c) = p"
  "cache (NewCreateOrder r p c) = c"
  by (simp_all add: NewCreateOrder_def)

lemma NewGetOrder_fields [simp]:
  "gOrders (NewGetOrder r c ttl) = r" "gCache (NewGetOrder r c ttl) = c"
  "gTtl (NewGetOrder r c ttl) = ttl"
  by (simp_all add: NewGetOrder_def)

lemma NewCancelOrder_fields [simp]:
  "xOrders (NewCancelOrder r c) = r" "xCache (NewCancelOrder r c) = c"
  by (simp_all add: NewCancelOrder_def)

section \<open>The use cases over the contracts of their ports\<close>

locale order_usecases =
  order_repository repo view canon inv + payment_authorizer pay view inv
  for repo :: "'w OrderRepository" and view canon inv and pay :: "'w PaymentAuthorizer" +
  fixes oc :: "'w OrderCache option"
    and cached :: "'w \<Rightarrow> order_table"
  assumes cache_laws: "oc = Some c \<Longrightarrow> order_cache c view inv cached"
begin

lemma get_wp:
  assumes "inv w"
    and "\<And>r w'. inv w' \<Longrightarrow> view w' = view w \<Longrightarrow>
      (\<And>ord. r = Inr (Some ord) \<Longrightarrow> canon i = Some (oID ord) \<and> view w (oID ord) = Some ord) \<Longrightarrow> Q r w'"
  shows "wp (GetByID repo i) Q w"
proof (rule wpI)
  fix r w' assume run: "run_state (GetByID repo i) w = (r, w')"
  show "Q r w'"
    using get_view [OF assms(1) run] get_found [OF assms(1)] run by (intro assms(2)) auto
qed

lemma authorize_wp:
  assumes "inv w" and "\<And>r w'. inv w' \<Longrightarrow> view w' = view w \<Longrightarrow> Q r w'"
  shows "wp (Authorize pay i a e) Q w"
  using assms authorize_view by (intro wpI) blast

lemma getstatus_wp:
  assumes "inv w" and "\<And>r w'. inv w' \<Longrightarrow> view w' = view w \<Longrightarrow> Q r w'"
  shows "wp (GetStatus pay i) Q w"
  using assms getstatus_view by (intro wpI) blast

lemma settle_wp:
  assumes "inv w" and "canon i = Some k" and "view w k = Some ord" and "oStatus ord = StatusPending"
    and "st \<in> set final_statuses"
    and "\<And>e w'. inv w' \<Longrightarrow> order_steps (view w) (view w') \<Longrightarrow>
      (e = None \<Longrightarrow> view w' = (view w)(k \<mapsto> ord\<lparr>oStatus := st\<rparr>)) \<Longrightarrow> Q e w'"
  shows "wp (UpdateStatus repo i st) Q w"
proof (rule wpI)
  fix e w' assume run: "run_state (UpdateStatus repo i st) w = (e, w')"
  have "e = None \<Longrightarrow> view w' = (view w)(k \<mapsto> ord\<lparr>oStatus := st\<rparr>)"
    using update_done [of w i st w'] assms(1-3) run by auto
  then show "Q e w'"
    using assms run update_inv update_settles by blast
qed

lemma cdelete_wp:
  assumes "inv w" and "oc = Some c" and "\<And>r w'. inv w' \<Longrightarrow> view w' = view w \<Longrightarrow> Q r w'"
  shows "wp (cDelete c i) Q w"
  using assms order_cache.cdelete_view [OF cache_laws] by (intro wpI) blast

lemma cget_wp:
  assumes "inv w" and "oc = Some c" and "\<And>r w'. inv w' \<Longrightarrow> view w' = view w \<Longrightarrow> Q r w'"
  shows "wp (cGet c i) Q w"
  using assms order_cache.cget_view [OF cache_laws] by (intro wpI) blast

lemma cset_wp:
  assumes "inv w" and "oc = Some c" and "\<And>r w'. inv w' \<Longrightarrow> view w' = view w \<Longrightarrow> Q r w'"
  shows "wp (cSet c ord ttl) Q w"
  using assms order_cache.cset_view [OF cache_laws] by (intro wpI) blast

lemma invalidate_wp:
  assumes "inv w" and "\<And>w'. inv w' \<Longrightarrow> view w' = view w \<Longrightarrow> Q () w'"
  shows "wp (invalidate (NewCreateOrder repo pay oc) i) Q w"
proof (cases oc)
  case None
  with assms show ?thesis by (simp add: invalidate_def NewCreateOrder_def)
next
  case (Some c)
  with assms show ?thesis
    by (auto simp: invalidate_def NewCreateOrder_def intro!: cdelete_wp)
qed

lemmas port_wps = authorize_wp getstatus_wp invalidate_wp cget_wp cset_wp cdelete_wp

lemma reconcile_refines:
  assumes "inv w" and "canon (oID ord) = Some k" and "view w k = Some row"
    and "oStatus row = StatusPending"
  shows "wp (reconcileFromPaymentService (NewCreateOrder repo pay oc) ord)
    (\<lambda>r w'. inv w' \<and> order_steps (view w) (view w')) w"
  unfolding reconcileFromPaymentService_def using assms
  by (auto intro!: getstatus_wp get_wp settle_wp [where k = k and ord = row] invalidate_wp split: sum.splits option.splits)

lemma pay_refines:
  assumes "inv w" and "canon (oID ord) = Some k" and "view w k = Some row"
    and "oStatus row = StatusPending"
  shows "wp (CreateOrder_pay (NewCreateOrder repo pay oc) ord email)
    (\<lambda>r w'. inv w' \<and> order_steps (view w) (view w')) w"
  unfolding CreateOrder_pay_def using assms
  by (auto intro!: authorize_wp get_wp settle_wp [where k = k and ord = row] invalidate_wp wp_mono [OF reconcile_refines [where k = k and row = row]]
      split: sum.splits option.splits)

text \<open>Placing an order refines the life of an order, whatever the ports answer.\<close>

lemma create_refines:
  assumes "inv w"
  shows "wp (CreateOrder_Execute (NewCreateOrder repo pay oc) i)
    (\<lambda>r w'. inv w' \<and> order_steps (view w) (view w')) w"
proof -
  let ?c = "TrimSpace (inCustomerID i)" and ?n = "TrimSpace (inItemName i)"
  let ?e = "TrimSpace (inCustomerEmail i)"
  let ?create = "CreatePendingWithIdempotency repo (inIdempotencyKey i) ?c ?n (inAmount i)"
  have rest: "wp (case r of
          Inl err \<Rightarrow> State_Monad.return (None, Some err)
        | Inr (order, _) \<Rightarrow>
            if oStatus order = StatusPaid \<or> oStatus order = StatusFailed \<or>
               oStatus order = StatusCancelled
            then State_Monad.return (Some order, None)
            else CreateOrder_pay (NewCreateOrder repo pay oc) order ?e)
      (\<lambda>r w'. inv w' \<and> order_steps (view w) (view w')) w1"
    if run: "run_state ?create w = (r, w1)" for r w1
  proof (cases r)
    have i1: "inv w1" using create_inv [OF assms run] .
    case (Inl err)
    with i1 create_error [OF assms] run show ?thesis by (auto intro: placed_steps)
  next
    have i1: "inv w1" using create_inv [OF assms run] .
    case (Inr p)
    then obtain ord b where r: "r = Inr (ord, b)" by (cases p) auto
    from create_handed_out [OF assms] run r obtain t where
      c: "canon (oID ord) = Some (oID ord)" and s: "order_steps (view w) (view w1)"
      and row: "view w1 (oID ord) = Some (ord\<lparr>oCreatedAt := t\<rparr>)" using placed_steps by blast
    show ?thesis
    proof (cases "oStatus ord = StatusPending")
      case True
      have "wp (CreateOrder_pay (NewCreateOrder repo pay oc) ord ?e)
          (\<lambda>r w'. inv w' \<and> order_steps (view w1) (view w')) w1"
        by (rule pay_refines [OF i1 c row]) (simp add: True)
      then have "wp (CreateOrder_pay (NewCreateOrder repo pay oc) ord ?e)
          (\<lambda>r w'. inv w' \<and> order_steps (view w) (view w')) w1"
        by (rule wp_mono) (use s in auto)
      with r i1 s show ?thesis by simp
    next
      case False
      with status_known [OF i1 row] have "oStatus ord \<in> set final_statuses" by simp
      with r i1 s show ?thesis by (auto simp: final_statuses_def)
    qed
  qed
  show ?thesis
    by (auto simp: CreateOrder_Execute_def Let_def assms intro!: wpI rest)
qed

lemma get_refines:
  assumes "inv w"
  shows "wp (GetOrder_Execute (NewGetOrder repo oc ttl) i) (\<lambda>r w'. inv w' \<and> view w' = view w) w"
  unfolding GetOrder_Execute_def GetOrder_load_def using assms
  by (auto simp: Let_def intro!: get_wp cget_wp cset_wp split: sum.splits option.splits)

lemma cancel_refines:
  assumes "inv w"
  shows "wp (CancelOrder_Execute (NewCancelOrder repo oc) i)
    (\<lambda>r w'. inv w' \<and> order_steps (view w) (view w')) w"
  unfolding CancelOrder_Execute_def wp_bind NewCancelOrder_fields
proof (rule get_wp [OF assms], goal_cases)
  case (1 r w1)
  show ?case
  proof (cases r)
    case (Inr x)
    with 1 assms show ?thesis
      by (cases x) (auto intro!: cdelete_wp settle_wp [where k = "oID (the x)" and ord = "the x"]
          split: option.splits)
  qed (use 1 in simp)
qed

end

end
