(* ===== verification/Order_Paid.thy ===== *)
theory Order_Paid
  imports Order_Usecase
begin

text \<open>
  When an order is Paid. The locale \<open>paid_orders\<close> extends the use cases' contract by what a
  payment client answers with: \<open>paid w i a\<close> says that order \<open>i\<close> has a payment for amount
  \<open>a\<close> that counts as paid. Nothing that the order service does takes a payment back, and an
  answer ``Authorized'' means there is one. Then every Paid order has its payment, after every
  use case and whatever calls are lost.
\<close>

locale paid_orders =
  order_usecases repo view canon inv pay oc cached
  for repo :: "'w OrderRepository" and view canon inv and pay :: "'w PaymentAuthorizer" and oc cached +
  fixes paid :: "'w \<Rightarrow> string \<Rightarrow> int64 \<Rightarrow> bool"
  assumes paid_get: "run_state (GetByID repo i) w = (r, w') \<Longrightarrow> paid w k n \<Longrightarrow> paid w' k n"
    and paid_update: "run_state (UpdateStatus repo i st) w = (u, w') \<Longrightarrow> paid w k n \<Longrightarrow> paid w' k n"
    and paid_create: "run_state (CreatePendingWithIdempotency repo key c nm a) w = (q, w') \<Longrightarrow>
      paid w k n \<Longrightarrow> paid w' k n"
    and paid_cget: "oc = Some ch \<Longrightarrow> run_state (cGet ch i) w = (h, w') \<Longrightarrow> paid w k n \<Longrightarrow> paid w' k n"
    and paid_cset: "oc = Some ch \<Longrightarrow> run_state (cSet ch ord ttl) w = (u, w') \<Longrightarrow> paid w k n \<Longrightarrow> paid w' k n"
    and paid_cdelete: "oc = Some ch \<Longrightarrow> run_state (cDelete ch i) w = (u, w') \<Longrightarrow> paid w k n \<Longrightarrow> paid w' k n"
    and paid_authorize: "inv w \<Longrightarrow> run_state (Authorize pay i a e) w = (x, w') \<Longrightarrow>
      paid w k n \<Longrightarrow> paid w' k n"
    and paid_status: "inv w \<Longrightarrow> run_state (GetStatus pay i) w = (y, w') \<Longrightarrow> paid w k n \<Longrightarrow> paid w' k n"
    and authorized: "inv w \<Longrightarrow> run_state (Authorize pay i a e) w = (Inr (t, paymentStatusAuthorized), w') \<Longrightarrow>
      paid w' i a"
    and recorded: "inv w \<Longrightarrow>
      run_state (Authorize pay i a e) w = (Inl (Sentinel ErrPaymentAlreadyRecorded), w1) \<Longrightarrow>
      run_state (GetStatus pay i) w1 = (Inr paymentStatusAuthorized, w2) \<Longrightarrow> paid w2 i a"
begin

text \<open>The invariant: every Paid order has its payment, in its amount.\<close>

definition paid_inv :: "'w \<Rightarrow> bool" where
  "paid_inv w \<longleftrightarrow> inv w \<and> (\<forall>k ord. view w k = Some ord \<longrightarrow> oStatus ord = StatusPaid \<longrightarrow> paid w k (oAmount ord))"

text \<open>A step that keeps the table and the payments keeps the invariant.\<close>

lemma paid_inv_frame:
  assumes "paid_inv w" and "inv w'" and "view w' = view w" and "\<And>k n. paid w k n \<Longrightarrow> paid w' k n"
  shows "paid_inv w'"
  using assms unfolding paid_inv_def by simp

lemma paid_inv_settle:
  assumes "paid_inv w" and "inv w'" and "\<And>k n. paid w k n \<Longrightarrow> paid w' k n"
    and "view w' = view w \<or> view w' = (view w)(k \<mapsto> ord\<lparr>oStatus := st\<rparr>)"
    and "st = StatusPaid \<Longrightarrow> paid w k (oAmount ord)"
  shows "paid_inv w'"
  using assms unfolding paid_inv_def by (auto split: if_splits)

lemma paid_inv_inv [dest]: "paid_inv w \<Longrightarrow> inv w"
  by (simp add: paid_inv_def)

text \<open>A port call that keeps the table and the payments.\<close>

lemma frame_wp:
  assumes "paid_inv w" and "\<And>r w'. run_state m w = (r, w') \<Longrightarrow> inv w' \<and> view w' = view w"
    and "\<And>r w' k n. run_state m w = (r, w') \<Longrightarrow> paid w k n \<Longrightarrow> paid w' k n"
    and "\<And>r w'. paid_inv w' \<Longrightarrow> view w' = view w \<Longrightarrow> Q r w'"
  shows "wp m Q w"
proof (rule wpI)
  fix r w' assume run: "run_state m w = (r, w')"
  show "Q r w'"
    using paid_inv_frame [OF assms(1) _ _ assms(3) [OF run]] assms(2) [OF run] by (intro assms(4)) auto
qed

lemma pget_wp:
  assumes "paid_inv w" and "\<And>r w'. paid_inv w' \<Longrightarrow> view w' = view w \<Longrightarrow> Q r w'"
  shows "wp (GetByID repo i) Q w"
  by (rule frame_wp [OF assms(1) get_view [OF paid_inv_inv [OF assms(1)]] paid_get assms(2)])

lemma pcache_wp:
  assumes "paid_inv w" and "oc = Some ch"
  shows "(\<And>r w'. paid_inv w' \<Longrightarrow> view w' = view w \<Longrightarrow> Q r w') \<Longrightarrow> wp (cGet ch i) Q w"
    and "(\<And>r w'. paid_inv w' \<Longrightarrow> view w' = view w \<Longrightarrow> Q' r w') \<Longrightarrow> wp (cSet ch ord ttl) Q' w"
    and "(\<And>r w'. paid_inv w' \<Longrightarrow> view w' = view w \<Longrightarrow> Q' r w') \<Longrightarrow> wp (cDelete ch i) Q' w"
proof -
  note laws = cache_laws [OF assms(2)] and i = paid_inv_inv [OF assms(1)]
  show "(\<And>r w'. paid_inv w' \<Longrightarrow> view w' = view w \<Longrightarrow> Q r w') \<Longrightarrow> wp (cGet ch i) Q w"
    by (rule frame_wp [OF assms(1) order_cache.cget_view [OF laws i] paid_cget [OF assms(2)]])
  show "(\<And>r w'. paid_inv w' \<Longrightarrow> view w' = view w \<Longrightarrow> Q' r w') \<Longrightarrow> wp (cSet ch ord ttl) Q' w"
    by (rule frame_wp [OF assms(1) order_cache.cset_view [OF laws i] paid_cset [OF assms(2)]])
  show "(\<And>r w'. paid_inv w' \<Longrightarrow> view w' = view w \<Longrightarrow> Q' r w') \<Longrightarrow> wp (cDelete ch i) Q' w"
    by (rule frame_wp [OF assms(1) order_cache.cdelete_view [OF laws i] paid_cdelete [OF assms(2)]])
qed

lemma pinvalidate_wp:
  assumes "paid_inv w" and "\<And>w'. paid_inv w' \<Longrightarrow> view w' = view w \<Longrightarrow> Q () w'"
  shows "wp (invalidate (NewCreateOrder repo pay oc) i) Q w"
  unfolding invalidate_def NewCreateOrder_fields using assms
  by (auto intro!: pcache_wp(3) split: option.splits)

lemma psettle_wp:
  assumes "paid_inv w" and "canon i = Some k" and "view w k = Some ord"
    and "st = StatusPaid \<Longrightarrow> paid w k (oAmount ord)"
    and "\<And>e w'. paid_inv w' \<Longrightarrow> Q e w'"
  shows "wp (UpdateStatus repo i st) Q w"
proof (rule wpI)
  fix e w' assume run: "run_state (UpdateStatus repo i st) w = (e, w')"
  have inv: "inv w" using assms(1) by (simp add: paid_inv_def)
  have "view w' = view w \<or> view w' = (view w)(k \<mapsto> ord\<lparr>oStatus := st\<rparr>)"
    using update_done [OF inv, of i st w'] update_error [OF inv, of i st _ w'] run assms(2,3)
    by (cases e) fastforce+
  then have "paid_inv w'"
    using paid_inv_settle [OF assms(1) update_inv [OF inv run] paid_update [OF run] _ assms(4)] by blast
  then show "Q e w'" by (rule assms(5))
qed

lemma pay_keeps_paid:
  assumes "paid_inv w" and "canon (oID ord) = Some (oID ord)" and "view w (oID ord) = Some row"
    and "oAmount row = oAmount ord"
  shows "wp (CreateOrder_pay (NewCreateOrder repo pay oc) ord email) (\<lambda>r w'. paid_inv w') w"
  unfolding CreateOrder_pay_def wp_bind NewCreateOrder_fields
proof (rule wpI)
  fix x w1 assume run: "run_state (Authorize pay (oID ord) (oAmount ord) email) w = (x, w1)"
  have inv: "inv w" using assms(1) by (simp add: paid_inv_def)
  have i1: "inv w1" "view w1 = view w" using authorize_view [OF inv run] by auto
  have p1: "paid_inv w1"
    by (rule paid_inv_frame [OF assms(1) i1 paid_authorize [OF inv run]])
  note settle = psettle_wp [OF _ assms(2), where ord = row]
  show "wp (case x of
        Inl err \<Rightarrow>
          if errors_Is err ErrPaymentInvalidArgument then
            State_Monad.return (None, Some (Sentinel ErrInvalidInput))
          else if err = Sentinel ErrPaymentAlreadyRecorded then
            reconcileFromPaymentService (NewCreateOrder repo pay oc) ord
          else if err = Sentinel ErrPaymentUnavailable then do {
            fresh \<leftarrow> GetByID repo (oID ord);
            (case fresh of
               Inr (Some f) \<Rightarrow> State_Monad.return (Some f, Some (Sentinel ErrPaymentUnavailable))
             | _ \<Rightarrow> State_Monad.return (Some ord, Some (Sentinel ErrPaymentUnavailable)))
          }
          else do {
            _ \<leftarrow> UpdateStatus repo (oID ord) StatusFailed;
            _ \<leftarrow> invalidate (NewCreateOrder repo pay oc) (oID ord);
            fresh \<leftarrow> GetByID repo (oID ord);
            (case fresh of
               Inr (Some f) \<Rightarrow> State_Monad.return (Some f, Some err)
             | _ \<Rightarrow> State_Monad.return (Some (ord\<lparr>oStatus := StatusFailed\<rparr>), Some err))
          }
      | Inr (_, payStatus) \<Rightarrow> do {
          e \<leftarrow> UpdateStatus repo (oID ord) (newStatus payStatus);
          (case e of
             Some err \<Rightarrow> State_Monad.return (None, Some err)
           | None \<Rightarrow> do {
               _ \<leftarrow> invalidate (NewCreateOrder repo pay oc) (oID ord);
               State_Monad.return (Some (ord\<lparr>oStatus := newStatus payStatus\<rparr>), None)
             })
        }) (\<lambda>r w'. paid_inv w') w1"
  proof (cases "x = Inl (Sentinel ErrPaymentAlreadyRecorded)")
    case True
    have "wp (GetStatus pay (oID ord)) (\<lambda>s w2. paid_inv w2 \<and> view w2 = view w \<and>
        (s = Inr paymentStatusAuthorized \<longrightarrow> paid w2 (oID ord) (oAmount ord))) w1"
    proof (rule wpI)
      fix s w2 assume run2: "run_state (GetStatus pay (oID ord)) w1 = (s, w2)"
      have "paid_inv w2"
        using paid_inv_frame [OF p1 _ _ paid_status [OF i1(1) run2]] getstatus_view [OF i1(1) run2] by simp
      moreover have "s = Inr paymentStatusAuthorized \<Longrightarrow> paid w2 (oID ord) (oAmount ord)"
        using recorded [OF inv] run run2 True by blast
      ultimately show "paid_inv w2 \<and> view w2 = view w \<and>
          (s = Inr paymentStatusAuthorized \<longrightarrow> paid w2 (oID ord) (oAmount ord))"
        using getstatus_view [OF i1(1) run2] i1 by simp
    qed
    then have "wp (reconcileFromPaymentService (NewCreateOrder repo pay oc) ord) (\<lambda>r w'. paid_inv w') w1"
      unfolding reconcileFromPaymentService_def wp_bind NewCreateOrder_fields
      by (rule wp_mono) (auto simp: assms intro!: pget_wp settle pinvalidate_wp split: sum.splits option.splits)
    with True show ?thesis by simp
  next
    case False
    have "paid w1 (oID ord) (oAmount row)" if "x = Inr (t, paymentStatusAuthorized)" for t
      using authorized [OF inv] run that assms(4) by simp
    then show ?thesis
      using False p1 i1 assms
      by (auto intro!: pget_wp settle pinvalidate_wp split: sum.splits option.splits prod.splits)
  qed
qed

lemma create_keeps_paid:
  assumes "paid_inv w"
  shows "wp (CreateOrder_Execute (NewCreateOrder repo pay oc) i) (\<lambda>r w'. paid_inv w') w"
proof -
  have inv: "inv w" using assms by (simp add: paid_inv_def)
  have p1: "paid_inv w1" and handed: "\<And>ord b. r = Inr (ord, b) \<Longrightarrow> canon (oID ord) = Some (oID ord) \<and>
      (\<exists>t. view w1 (oID ord) = Some (ord\<lparr>oCreatedAt := t\<rparr>))"
    if run: "run_state (CreatePendingWithIdempotency repo key c n a) w = (r, w1)" for key c n a r w1
  proof -
    have i1: "inv w1" using create_inv [OF inv run] .
    have steps: "placed (view w) (view w1)"
      using create_error [OF inv] create_handed_out [OF inv] run by (cases r) auto
    have "\<forall>k ord. view w1 k = Some ord \<longrightarrow> oStatus ord = StatusPaid \<longrightarrow> view w k = Some ord"
      using steps by (auto intro: placed_settled)
    then show "paid_inv w1"
      using assms i1 paid_create [OF run] unfolding paid_inv_def by blast
    show "canon (oID ord) = Some (oID ord) \<and> (\<exists>t. view w1 (oID ord) = Some (ord\<lparr>oCreatedAt := t\<rparr>))"
      if "r = Inr (ord, b)" for ord b
      using create_handed_out [OF inv] run that by blast
  qed
  have rest: "wp (case r of
          Inl err \<Rightarrow> State_Monad.return (None, Some err)
        | Inr (order, _) \<Rightarrow>
            if oStatus order = StatusPaid \<or> oStatus order = StatusFailed \<or>
               oStatus order = StatusCancelled
            then State_Monad.return (Some order, None)
            else CreateOrder_pay (NewCreateOrder repo pay oc) order e)
      (\<lambda>r w'. paid_inv w') w1"
    if run: "run_state (CreatePendingWithIdempotency repo key c n a) w = (r, w1)" for key c n a r w1 e
  proof (cases r)
    case (Inl err)
    then show ?thesis using p1 [OF run] by simp
  next
    case (Inr x)
    obtain ord b where x: "x = (ord, b)" by (cases x)
    with handed [OF run] Inr obtain t where "canon (oID ord) = Some (oID ord)"
      "view w1 (oID ord) = Some (ord\<lparr>oCreatedAt := t\<rparr>)" by blast
    then have "wp (CreateOrder_pay (NewCreateOrder repo pay oc) ord e) (\<lambda>r w'. paid_inv w') w1"
      by (rule pay_keeps_paid [OF p1 [OF run]]) simp
    with p1 [OF run] Inr x show ?thesis by simp
  qed
  show ?thesis
    unfolding CreateOrder_Execute_def Let_def NewCreateOrder_fields
    using assms by (auto intro!: wpI rest)
qed

lemma cancel_keeps_paid:
  assumes "paid_inv w"
  shows "wp (CancelOrder_Execute (NewCancelOrder repo oc) i) (\<lambda>r w'. paid_inv w') w"
  unfolding CancelOrder_Execute_def wp_bind NewCancelOrder_fields
proof (rule wpI)
  fix r w1 assume run: "run_state (GetByID repo i) w = (r, w1)"
  have inv: "inv w" using assms by (simp add: paid_inv_def)
  have p1: "paid_inv w1" "view w1 = view w"
    using wpD [OF pget_wp [OF assms, of "\<lambda>r w'. paid_inv w' \<and> view w' = view w"] run] by auto
  have f: "r = Inr (Some ord) \<Longrightarrow> canon i = Some (oID ord) \<and> view w1 (oID ord) = Some ord" for ord
    using get_found [OF inv] run p1(2) by simp
  show "wp (case r of
        Inl err \<Rightarrow> State_Monad.return (Inl err)
      | Inr None \<Rightarrow> State_Monad.return (Inl (Sentinel ErrOrderNotFound))
      | Inr (Some ord) \<Rightarrow>
          if oStatus ord \<noteq> StatusPending
          then State_Monad.return (Inl (Sentinel ErrCancelNotAllowed))
          else do {
            e \<leftarrow> UpdateStatus repo i StatusCancelled;
            (case e of
               Some err \<Rightarrow> State_Monad.return (Inl err)
             | None \<Rightarrow>
                 (case oc of
                    Some c \<Rightarrow> do {
                      _ \<leftarrow> cDelete c i;
                      State_Monad.return (Inr (ord\<lparr>oStatus := StatusCancelled\<rparr>))
                    }
                  | None \<Rightarrow> State_Monad.return (Inr (ord\<lparr>oStatus := StatusCancelled\<rparr>))))
          }) (\<lambda>r w'. paid_inv w') w1"
    using p1 f by (auto intro!: psettle_wp pcache_wp(3) split: sum.splits option.splits)
qed

lemma get_keeps_paid:
  assumes "paid_inv w"
  shows "wp (GetOrder_Execute (NewGetOrder repo oc ttl) i) (\<lambda>r w'. paid_inv w') w"
  unfolding GetOrder_Execute_def GetOrder_load_def Let_def NewGetOrder_fields using assms
  by (auto intro!: pget_wp pcache_wp split: sum.splits option.splits)

end

end
