(* ===== verification/Payment_Client.thy ===== *)
theory Payment_Client
  imports Order_Usecase Payment_Grpc
begin

text \<open>
  The order service's gRPC client of the payment service
  (\<^verbatim>\<open>order-service/internal/adapter/grpc/payment_client.go\<close>), over the generated stub: a call returns a
  message or an error, which is a status error or, in principle, another error. The locale
  \<open>payment_stub\<close> says what the client relies on of the stub, and gives the contract that the use
  cases rely on of the client.
\<close>

datatype rpc_error = StatusErr code string | OtherErr string

record 'w PaymentServiceClient =
  stubAuthorizePayment :: "AuthorizePaymentRequest \<Rightarrow> ('w, rpc_error + PaymentResponse) state"
  stubGetPaymentStatus :: "GetPaymentStatusRequest \<Rightarrow> ('w, rpc_error + PaymentResponse) state"

text \<open>How an error of the stub becomes an error of the port (lines 51 to 60 and 77 to 85).\<close>

definition authorize_error :: "rpc_error \<Rightarrow> uerror" where
  "authorize_error err =
     (case err of
        StatusErr c m \<Rightarrow>
          if c = InvalidArgument then Sentinel ErrPaymentInvalidArgument
          else if c = Internal then Sentinel ErrPaymentUnavailable
          else Wrapf ''payment authorization failed: '' (Status c m) []
      | OtherErr m \<Rightarrow> Sentinel ErrPaymentUnavailable)"

definition status_error :: "rpc_error \<Rightarrow> uerror" where
  "status_error err =
     (case err of
        StatusErr c m \<Rightarrow>
          if c = NotFound then Sentinel ErrPaymentNotFound
          else if c = Unavailable \<or> c = DeadlineExceeded then Sentinel ErrPaymentUnavailable
          else Sentinel ErrPaymentUnavailable
      | OtherErr m \<Rightarrow> Sentinel ErrPaymentUnavailable)"

definition PaymentClient_Authorize ::
    "'w PaymentServiceClient \<Rightarrow> string \<Rightarrow> int64 \<Rightarrow> string \<Rightarrow> ('w, uerror + string \<times> string) state" where
  "PaymentClient_Authorize client orderID amount customerEmail = do {
     r \<leftarrow> stubAuthorizePayment client
            \<lparr>arqOrderId = orderID, arqAmount = amount, arqCustomerEmail = customerEmail\<rparr>;
     State_Monad.return
       (case r of
          Inl err \<Rightarrow> Inl (authorize_error err)
        | Inr resp \<Rightarrow> Inr (prTransactionId resp, prStatus resp))
   }"

definition PaymentClient_GetStatus ::
    "'w PaymentServiceClient \<Rightarrow> string \<Rightarrow> ('w, uerror + string) state" where
  "PaymentClient_GetStatus client orderID = do {
     r \<leftarrow> stubGetPaymentStatus client \<lparr>gsqOrderId = orderID\<rparr>;
     State_Monad.return
       (case r of Inl err \<Rightarrow> Inl (status_error err) | Inr resp \<Rightarrow> Inr (prStatus resp))
   }"

definition PaymentClient :: "'w PaymentServiceClient \<Rightarrow> 'w PaymentAuthorizer" where
  "PaymentClient client = \<lparr>Authorize = PaymentClient_Authorize client, GetStatus = PaymentClient_GetStatus client\<rparr>"

lemma PaymentClient_fields [simp]:
  "Authorize (PaymentClient c) = PaymentClient_Authorize c" "GetStatus (PaymentClient c) = PaymentClient_GetStatus c"
  by (simp_all add: PaymentClient_def)

text \<open>The client never reports that a payment is already recorded.\<close>

lemma authorize_error_not_recorded: "authorize_error err \<noteq> Sentinel ErrPaymentAlreadyRecorded"
  by (simp add: authorize_error_def split: rpc_error.splits)

lemma authorize_not_recorded:
  "wp (PaymentClient_Authorize c i a e) (\<lambda>r w'. r \<noteq> Inl (Sentinel ErrPaymentAlreadyRecorded)) w"
  unfolding PaymentClient_Authorize_def
  by (auto intro!: wpI simp: authorize_error_not_recorded split: sum.splits)

locale payment_stub =
  fixes stub :: "'w PaymentServiceClient"
    and view :: "'w \<Rightarrow> order_table"
    and inv :: "'w \<Rightarrow> bool"
  assumes stub_authorize: "inv w \<Longrightarrow> run_state (stubAuthorizePayment stub req) w = (r, w') \<Longrightarrow>
      inv w' \<and> view w' = view w"
    and stub_status: "inv w \<Longrightarrow> run_state (stubGetPaymentStatus stub q) w = (s, w') \<Longrightarrow>
      inv w' \<and> view w' = view w"

sublocale payment_stub \<subseteq> payment_authorizer "PaymentClient stub" view inv
proof (unfold_locales, goal_cases)
  case (1 w i a e r w')
  then show ?case
    using stub_authorize [OF 1(1)] by (auto simp: PaymentClient_Authorize_def split: prod.splits)
next
  case (2 w i q w')
  then show ?case
    using stub_status [OF 2(1)] by (auto simp: PaymentClient_GetStatus_def split: prod.splits)
qed

end
