(* ===== verification/System.thy ===== *)
theory System
  imports Order_Cache Order_Paid Payment_Client
begin

text \<open>
  The order service and the payment service together, over gRPC. The state is the order
  service's world extended by the payment service's world, its request log, whether its process
  runs, and the outcomes of the network: a call is delivered, is not sent, or its answer is
  lost; a lost call shows the client a status error (a deadline of 5 seconds that passes is such
  an error). A handler that panics ends the payment process, as there is no recovery
  interceptor, and calls fail with \<open>Unavailable\<close> from then on.
\<close>

datatype net_outcome = Delivered | Unsent code string | AnswerLost code string

record system = order_world +
  psys :: pay_world
  plog :: "log_line list"
  pay_up :: bool
  net :: "net_outcome list"

definition rpc_call :: "(log_line list \<times> pay_world, 'a rpc_result) state \<Rightarrow> (system, rpc_error + 'a) state" where
  "rpc_call handler = State (\<lambda>s.
     let s0 = s\<lparr>net := tl (net s)\<rparr>;
         outcome = (case net s of [] \<Rightarrow> Delivered | x # _ \<Rightarrow> x)
     in case outcome of
          Unsent c m \<Rightarrow> (Inl (StatusErr c m), s0)
        | _ \<Rightarrow>
            if \<not> pay_up s then (Inl (StatusErr Unavailable ''connection refused''), s0)
            else
              (case run_state handler (plog s, psys s) of (r, (l, p)) \<Rightarrow>
                 let s1 = s0\<lparr>plog := l, psys := p\<rparr>
                 in case r of
                      Panic \<Rightarrow> (Inl (StatusErr Unavailable ''error reading from server: EOF''), s1\<lparr>pay_up := False\<rparr>)
                    | Reply x \<Rightarrow>
                        (case outcome of AnswerLost c m \<Rightarrow> (Inl (StatusErr c m), s1) | _ \<Rightarrow> (Inr x, s1))
                    | Fail c m \<Rightarrow>
                        (case outcome of AnswerLost c' m' \<Rightarrow> (Inl (StatusErr c' m'), s1)
                         | _ \<Rightarrow> (Inl (StatusErr c m), s1))))"

definition methodAuthorizePayment :: string where
  "methodAuthorizePayment = ''/payment.v1.PaymentService/AuthorizePayment''"
definition methodGetPaymentStatus :: string where
  "methodGetPaymentStatus = ''/payment.v1.PaymentService/GetPaymentStatus''"

definition grpc_stub :: "(gotime \<Rightarrow> timestamp) \<Rightarrow> postgres \<Rightarrow> string \<Rightarrow> system PaymentServiceClient" where
  "grpc_stub tsn ppg url = \<lparr>
     stubAuthorizePayment = (\<lambda>req. rpc_call (LoggingInterceptor methodAuthorizePayment
       (Server_AuthorizePayment tsn pay_runtime (payment_server ppg url)) req)),
     stubGetPaymentStatus = (\<lambda>req. rpc_call (LoggingInterceptor methodGetPaymentStatus
       (Server_GetPaymentStatus tsn (payment_server ppg url)) req))\<rparr>"

text \<open>
  The use cases as \<^verbatim>\<open>order-service/cmd/order-service/main.go\<close> wires them (lines 77 to 87): the
  repository, the gRPC client, and the cache when Redis answers at startup.
\<close>

record wiring =
  wTsn :: "gotime \<Rightarrow> timestamp"
  wPg :: postgres
  wPayPg :: postgres
  wUrl :: string
  wCache :: "Store option option"

definition sys_cache :: "wiring \<Rightarrow> system OrderCache option" where
  "sys_cache v = map_option order_cache_store (wCache v)"

definition sys_pay :: "wiring \<Rightarrow> system PaymentAuthorizer" where
  "sys_pay v = PaymentClient (grpc_stub (wTsn v) (wPayPg v) (wUrl v))"

definition sys_create :: "wiring \<Rightarrow> system CreateOrder" where
  "sys_create v = NewCreateOrder (order_repo (wPg v)) (sys_pay v) (sys_cache v)"

definition sys_get :: "wiring \<Rightarrow> duration \<Rightarrow> system GetOrder" where
  "sys_get v ttl = NewGetOrder (order_repo (wPg v)) (sys_cache v) ttl"

definition sys_cancel :: "wiring \<Rightarrow> system CancelOrder" where
  "sys_cancel v = NewCancelOrder (order_repo (wPg v)) (sys_cache v)"

text \<open>The invariant of the whole: each database's own constraints.\<close>

definition sys_inv :: "wiring \<Rightarrow> system \<Rightarrow> bool" where
  "sys_inv v s \<longleftrightarrow> order_inv (wPg v) s \<and> pay_inv (wPayPg v) (psys s)"

definition sys_cached :: "wiring \<Rightarrow> system \<Rightarrow> order_table" where
  "sys_cached v s = (case wCache v of None \<Rightarrow> Map.empty | Some c \<Rightarrow> cached c s)"

section \<open>A call over the network\<close>

lemma rpc_call_wp:
  assumes unsent: "\<And>c m. Q (Inl (StatusErr c m)) (s\<lparr>net := tl (net s)\<rparr>)"
    and served: "wp (h req) (\<lambda>r p. \<forall>l.
        (\<forall>c m up. (up \<or> r = Panic) \<longrightarrow> Q (Inl (StatusErr c m)) (s\<lparr>net := tl (net s), plog := l, psys := p, pay_up := up\<rparr>)) \<and>
        (\<forall>x. r = Reply x \<longrightarrow> Q (Inr x) (s\<lparr>net := tl (net s), plog := l, psys := p\<rparr>))) (psys s)"
  shows "wp (rpc_call (LoggingInterceptor meth h req)) Q s"
proof -
  obtain r p where run: "run_state (h req) (psys s) = (r, p)" by fastforce
  define l where "l = plog s @ CallStarted meth #
    (case r of Panic \<Rightarrow> [] | Fail c m \<Rightarrow> [CallFailed meth c m] | Reply _ \<Rightarrow> [CallCompleted meth])"
  have full: "run_state (LoggingInterceptor meth h req) (plog s, psys s) = (r, (l, p))"
    by (simp add: run_interceptor run l_def)
  have up: "s\<lparr>net := tl (net s), plog := l, psys := p, pay_up := True\<rparr> = s\<lparr>net := tl (net s), plog := l, psys := p\<rparr>"
    if "pay_up s" using that by (cases s) simp
  have err: "(up \<or> r = Panic) \<Longrightarrow>
      Q (Inl (StatusErr c m)) (s\<lparr>net := tl (net s), plog := l, psys := p, pay_up := up\<rparr>)" for c m up
    using wpD [OF served run] by blast
  have ok: "r = Reply x \<Longrightarrow> Q (Inr x) (s\<lparr>net := tl (net s), plog := l, psys := p\<rparr>)" for x
    using wpD [OF served run] by blast
  have err': "pay_up s \<Longrightarrow> Q (Inl (StatusErr c m)) (s\<lparr>net := tl (net s), plog := l, psys := p\<rparr>)" for c m
    using err [of True] up by simp
  show ?thesis
    by (rule wpI) (use unsent err [of False] err' ok in \<open>auto simp: rpc_call_def Let_def full
      split: list.splits net_outcome.splits if_splits rpc_result.splits\<close>)
qed

lemma sys_fields [simp]:
  "order_inv pg (s\<lparr>net := q\<rparr>) = order_inv pg s" "order_inv pg (s\<lparr>psys := p\<rparr>) = order_inv pg s"
  "order_inv pg (s\<lparr>plog := l\<rparr>) = order_inv pg s" "order_inv pg (s\<lparr>pay_up := b\<rparr>) = order_inv pg s"
  by (simp_all add: order_inv_def)

lemma sys_faults [simp]:
  "faults ((s :: system)\<lparr>net := q\<rparr>) = faults s" "faults ((s :: system)\<lparr>psys := p\<rparr>) = faults s"
  "faults ((s :: system)\<lparr>plog := l\<rparr>) = faults s" "faults ((s :: system)\<lparr>pay_up := b\<rparr>) = faults s"
  by (cases s, simp)+

text \<open>What an authorization does to the two databases, whatever becomes of the call.\<close>

lemma authorize_call:
  assumes "sys_inv v s"
  shows "wp (PaymentClient_Authorize (grpc_stub (wTsn v) (wPayPg v) (wUrl v)) i a e)
    (\<lambda>r s'. sys_inv v s' \<and> orders_tab s' = orders_tab s \<and>
      (\<forall>k p. payment_of (psys s) k = Some p \<longrightarrow> payment_of (psys s') k = Some p) \<and>
      (\<forall>t st. r = Inr (t, st) \<longrightarrow> payment_of (psys s) i = None \<and> st = authorize_status a \<and>
         (\<exists>p. payment_of (psys s') i = Some p \<and> pStatus p = st \<and> pAmount p = a))) s"
proof -
  let ?req = "\<lparr>arqOrderId = i, arqAmount = a, arqCustomerEmail = e\<rparr>"
  have pay: "pay_inv (wPayPg v) (psys s)" using assms by (simp add: sys_inv_def)
  have mono: "authorize_effect (wPayPg v) ?req (psys s) r p \<Longrightarrow> payment_of (psys s) k = Some q \<Longrightarrow>
      payment_of p k = Some q" for r p k q
    by (auto simp: authorize_effect_def pay_row_def)
  have eff: "wp (Server_AuthorizePayment (wTsn v) pay_runtime (payment_server (wPayPg v) (wUrl v)) ?req)
      (authorize_effect (wPayPg v) ?req (psys s)) (psys s)"
    using server_authorize_records [OF pay] .
  show ?thesis
    unfolding PaymentClient_Authorize_def grpc_stub_def PaymentServiceClient.simps wp_bind wp_return
  proof (rule rpc_call_wp, use assms in \<open>simp add: sys_inv_def\<close>, rule wp_mono [OF eff], goal_cases)
    case (1 r p)
    have "pay_inv (wPayPg v) p" using 1 by (simp add: authorize_effect_def)
    moreover have "\<forall>k q. payment_of (psys s) k = Some q \<longrightarrow> payment_of p k = Some q" using mono [OF 1] by blast
    moreover have "payment_of (psys s) i = None \<and> prStatus x = authorize_status a \<and>
        (\<exists>q. payment_of p i = Some q \<and> pStatus q = prStatus x \<and> pAmount q = a)" if "r = Reply x" for x
      using 1 that by (auto simp: authorize_effect_def)
    ultimately show ?case using assms by (auto simp: sys_inv_def)
  qed
qed

lemma status_call:
  assumes "sys_inv v s"
  shows "wp (PaymentClient_GetStatus (grpc_stub (wTsn v) (wPayPg v) (wUrl v)) i)
    (\<lambda>r s'. sys_inv v s' \<and> orders_tab s' = orders_tab s \<and> payment_of (psys s') = payment_of (psys s)) s"
proof -
  have pay: "pay_inv (wPayPg v) (psys s)" using assms by (simp add: sys_inv_def)
  show ?thesis
    unfolding PaymentClient_GetStatus_def grpc_stub_def PaymentServiceClient.simps wp_bind wp_return
    by (rule rpc_call_wp, use assms in \<open>simp add: sys_inv_def\<close>, rule wp_mono [OF server_status_reads])
      (use assms in \<open>auto simp: sys_inv_def\<close>)
qed

section \<open>The contracts hold of the running system\<close>

text \<open>The payment service's part of the state is what the order service's operations leave alone.\<close>

lemma psys_more: "order_world.more s = order_world.more s' \<Longrightarrow> psys s = psys s'"
  by (cases s; cases s') simp

definition pay_part :: "wiring \<Rightarrow> (unit system_ext) \<Rightarrow> bool" where
  "pay_part v m \<longleftrightarrow> (\<forall>s. order_world.more s = m \<longrightarrow> pay_inv (wPayPg v) (psys s))"

lemma sys_inv_more: "sys_inv v = (\<lambda>s. order_inv (wPg v) s \<and> pay_part v (order_world.more s))"
proof
  fix s
  have "pay_part v (order_world.more s) \<longleftrightarrow> pay_inv (wPayPg v) (psys s)"
    unfolding pay_part_def by (metis psys_more)
  then show "sys_inv v s \<longleftrightarrow> order_inv (wPg v) s \<and> pay_part v (order_world.more s)"
    by (simp add: sys_inv_def)
qed

lemma sys_repo: "order_repository (order_repo (wPg v)) orders_tab (uuid_in (wPg v)) (sys_inv v)"
  unfolding sys_inv_more by (rule pg_repo.order_repository_axioms)

lemma sys_cache_laws:
  assumes "sys_cache v = Some c"
  shows "order_cache c orders_tab (sys_inv v) (sys_cached v)"
proof -
  from assms obtain x where x: "wCache v = Some x" "c = order_cache_store x"
    by (auto simp: sys_cache_def)
  then have "sys_cached v = cached x" by (simp add: sys_cached_def fun_eq_iff)
  with x show ?thesis unfolding sys_inv_more by (simp add: redis_cache.order_cache_axioms)
qed

interpretation sys_stub: payment_stub "grpc_stub (wTsn v) (wPayPg v) (wUrl v)" orders_tab "sys_inv v" for v
proof (unfold_locales, goal_cases)
  case (1 s req r s')
  have req: "\<lparr>arqOrderId = arqOrderId req, arqAmount = arqAmount req, arqCustomerEmail = arqCustomerEmail req\<rparr> = req"
    by simp
  have "wp (stubAuthorizePayment (grpc_stub (wTsn v) (wPayPg v) (wUrl v)) req)
      (\<lambda>r s'. sys_inv v s' \<and> orders_tab s' = orders_tab s) s"
    using authorize_call [OF 1(1), of "arqOrderId req" "arqAmount req" "arqCustomerEmail req",
        unfolded PaymentClient_Authorize_def wp_bind wp_return req]
    by (rule wp_mono) blast
  then show ?case using wpD 1(2) by fastforce
next
  case (2 s q r s')
  have q: "\<lparr>gsqOrderId = gsqOrderId q\<rparr> = q" by simp
  have "wp (stubGetPaymentStatus (grpc_stub (wTsn v) (wPayPg v) (wUrl v)) q)
      (\<lambda>r s'. sys_inv v s' \<and> orders_tab s' = orders_tab s) s"
    using status_call [OF 2(1), of "gsqOrderId q", unfolded PaymentClient_GetStatus_def wp_bind wp_return q]
    by (rule wp_mono) blast
  then show ?case using wpD 2(2) by fastforce
qed

lemma sys_authorizer: "payment_authorizer (sys_pay v) orders_tab (sys_inv v)"
  unfolding sys_pay_def by (rule sys_stub.payment_authorizer_axioms)

text \<open>An authorized payment of an order, in an amount.\<close>

definition sys_paid :: "system \<Rightarrow> string \<Rightarrow> int64 \<Rightarrow> bool" where
  "sys_paid s i a \<longleftrightarrow> (\<exists>p. payment_of (psys s) i = Some p \<and> pStatus p = StatusAuthorized \<and> pAmount p = a)"

lemma sys_paid_more: "order_world.more s' = order_world.more s \<Longrightarrow> sys_paid s i a \<Longrightarrow> sys_paid s' i a"
  using psys_more [of s' s] by (simp add: sys_paid_def)

lemma sys_order_usecases:
  "order_usecases (order_repo (wPg v)) orders_tab (uuid_in (wPg v)) (sys_inv v) (sys_pay v) (sys_cache v) (sys_cached v)"
  by (intro order_usecases.intro sys_repo sys_authorizer order_usecases_axioms.intro sys_cache_laws)

interpretation sys: paid_orders "order_repo (wPg v)" orders_tab "uuid_in (wPg v)" "sys_inv v" "sys_pay v"
    "sys_cache v" "sys_cached v" sys_paid for v
proof (rule paid_orders.intro [OF sys_order_usecases], unfold_locales, goal_cases)
  case (1 i w r w' k n)
  then show ?case using keepsD [OF keeps_more_repo(1)] sys_paid_more by (fastforce simp: order_repo_def)
next
  case (2 i st w u w' k n)
  then show ?case using keepsD [OF keeps_more_repo(2)] sys_paid_more by (fastforce simp: order_repo_def)
next
  case (3 key c nm a w q w' k n)
  then show ?case using keepsD [OF keeps_more_repo(3)] sys_paid_more by (fastforce simp: order_repo_def)
next
  case (4 ch i w h w' k n)
  then show ?case using keepsD [OF keeps_more_cache(1)] sys_paid_more
    by (fastforce simp: sys_cache_def order_cache_store_def)
next
  case (5 ch ord ttl w u w' k n)
  then show ?case using keepsD [OF keeps_more_cache(2)] sys_paid_more
    by (fastforce simp: sys_cache_def order_cache_store_def)
next
  case (6 ch i w u w' k n)
  then show ?case using keepsD [OF keeps_more_cache(3)] sys_paid_more
    by (fastforce simp: sys_cache_def order_cache_store_def)
next
  case (7 w i a e x w' k n)
  then show ?case using wpD [OF authorize_call [OF 7(1)]]
    by (fastforce simp: sys_paid_def sys_pay_def)
next
  case (8 w i y w' k n)
  then show ?case using wpD [OF status_call [OF 8(1)]]
    by (fastforce simp: sys_paid_def sys_pay_def)
next
  case (9 w i a e t w')
  then show ?case using wpD [OF authorize_call [OF 9(1)], of i a e "Inr (t, paymentStatusAuthorized)" w']
    by (auto simp: sys_paid_def sys_pay_def paymentStatusAuthorized_def StatusAuthorized_def)
next
  case (10 w i a e w1 w2)
  then show ?case using wpD [OF authorize_not_recorded] by (fastforce simp: sys_pay_def)
qed

end
