(* ===== verification/System_Ok.thy ===== *)
theory System_Ok
  imports System
begin

text \<open>
  The two services when nothing is lost: what placing an order does from the first statement to
  the published event, in equations, and the same with the one answer of the payment service
  lost.
\<close>

section \<open>The payment side\<close>

definition pay_quiet :: "pay_world \<Rightarrow> bool" where
  "pay_quiet w \<longleftrightarrow> faults w = [] \<and> confirms w = [] \<and> confirm_events w = []"

text \<open>The payment that an authorization records next.\<close>

definition next_payment :: "pay_world \<Rightarrow> string \<Rightarrow> int64 \<Rightarrow> Payment" where
  "next_payment w i a = \<lparr>pID = puuid_seq w (puuid_pos w), pOrderID = i, pTransactionID = puuid_seq w (Suc (puuid_pos w)),
     pAmount = a, pStatus = authorize_status a, pCreatedAt = pwall w\<rparr>"

definition pay_fresh :: "pay_world \<Rightarrow> string \<Rightarrow> bool" where
  "pay_fresh w i \<longleftrightarrow> (\<forall>q \<in> set (payments_tab w). pOrderID q \<noteq> i \<and> pID q \<noteq> puuid_seq w (puuid_pos w) \<and>
     pTransactionID q \<noteq> puuid_seq w (Suc (puuid_pos w)))"

definition completed_event :: "Payment \<Rightarrow> string \<Rightarrow> PaymentCompletedEvent" where
  "completed_event p email = \<lparr>evEventID = pID p, evPaymentID = pID p, evOrderID = pOrderID p,
     evAmountCents = pAmount p, evCustomerEmail = TrimSpace email, evStatus = pStatus p\<rparr>"

definition events_of :: "string \<Rightarrow> Payment \<Rightarrow> string \<Rightarrow> (string \<times> string \<times> string) list" where
  "events_of url p email =
     (if url \<noteq> [] \<and> pStatus p = StatusAuthorized
      then [(exchangeName, routingPaymentCompleted, completed_body (completed_event p email))] else [])"

lemma status_checks: "authorize_status a = StatusAuthorized \<or> authorize_status a = StatusDeclined"
  by (simp add: authorize_status_def)

lemma run_save_ok:
  assumes "faults w = []" and "pay_inv pg w" and "pay_fresh w i" and "0 <s a"
    and "p = next_payment w i a" and "w1 = w\<lparr>puuid_pos := n\<rparr>"
  shows "run_state (repo_Save pg p) w1 =
    (None, w1\<lparr>payments_tab := payments_tab w @ [p\<lparr>pCreatedAt := ts_col pg (pCreatedAt p)\<rparr>]\<rparr>)"
proof -
  have "uuid_in pg (pID p) = Some (pID p)" using assms(2,5) by (simp add: pay_inv_def next_payment_def)
  moreover have "\<not> (\<exists>q \<in> set (payments_tab w). pID q = pID p \<or> pOrderID q = pOrderID p \<or> pTransactionID q = pTransactionID p)"
    using assms(3,5) by (auto simp: pay_fresh_def next_payment_def)
  moreover have "\<not> pAmount p \<le>s 0" "pStatus p = StatusAuthorized \<or> pStatus p = StatusDeclined"
    using assms(4,5) status_checks by (auto simp: next_payment_def go_int_order)
  ultimately show ?thesis
    using assms(1,6) by (auto simp: repo_Save_def sql_insert_payment_def)
qed

lemma run_publish_ok:
  assumes "pay_quiet w"
  shows "run_state (Publisher_PublishPaymentCompleted ev) w =
    (None, w\<lparr>published := published w @ [(exchangeName, routingPaymentCompleted, completed_body ev)]\<rparr>)"
  using assms
  by (cases w) (simp add: pay_quiet_def Publisher_PublishPaymentCompleted_def amqp_publish_def await_confirm_def
      ack_result_def)

text \<open>A first authorization, with nothing lost: the row, the event, the answer.\<close>

lemma run_authorize_ok:
  assumes "pay_quiet w" and "pay_inv pg w" and "pay_fresh w i" and "0 <s a" and "i \<noteq> []" and "TrimSpace e \<noteq> []"
    and "p = next_payment w i a"
  shows "run_state (AuthorizePayment_Execute pay_runtime (NewAuthorizePayment (payment_repo pg) (publisher_of url))
      \<lparr>aiOrderID = i, aiAmount = a, aiCustomerEmail = e\<rparr>) w =
    (Inr (payment_output p), w\<lparr>puuid_pos := Suc (Suc (puuid_pos w)),
       payments_tab := payments_tab w @ [p\<lparr>pCreatedAt := ts_col pg (pCreatedAt p)\<rparr>],
       published := published w @ events_of url p e\<rparr>)"
proof -
  have f: "faults w = []" using assms(1) by (simp add: pay_quiet_def)
  have none: "payment_of w i = None" using assms(3) by (auto simp: payment_of_None pay_fresh_def)
  let ?w2 = "w\<lparr>puuid_pos := Suc (Suc (puuid_pos w))\<rparr>"
  let ?w3 = "?w2\<lparr>payments_tab := payments_tab w @ [p\<lparr>pCreatedAt := ts_col pg (pCreatedAt p)\<rparr>]\<rparr>"
  note save = run_save_ok [OF f assms(2-4,7) refl, of "Suc (Suc (puuid_pos w))"]
  have q3: "pay_quiet ?w3" using assms(1) by (simp add: pay_quiet_def)
  have pub: "run_state (publish_completed (NewAuthorizePayment (payment_repo pg) (publisher_of url)) p e) ?w3 =
      (Inr (payment_output p), ?w3\<lparr>published := published w @ events_of url p e\<rparr>)"
    using assms(6) run_publish_ok [OF q3]
    by (simp add: publish_completed_def NewAuthorizePayment_def publisher_of_def amqp_publisher_def events_of_def
        completed_event_def)
  have "\<not> a \<le>s 0" using assms(4) by (simp add: go_int_order)
  then show ?thesis
    using assms(5,7) f none save pub
    by (simp add: AuthorizePayment_Execute_def NewAuthorizePayment_def payment_repo_def repo_GetByOrderID_def
        sql_get_payment_def pay_runtime_def next_payment_def Let_def)
qed

text \<open>An order that has a payment is refused.\<close>

lemma run_authorize_again:
  assumes "faults w = []" and "payment_of w i = Some q" and "0 <s a" and "i \<noteq> []"
  shows "run_state (AuthorizePayment_Execute pay_runtime (NewAuthorizePayment (payment_repo pg) pub)
      \<lparr>aiOrderID = i, aiAmount = a, aiCustomerEmail = e\<rparr>) w =
    (Inl (Errorf ''payment already exists for this order''), w)"
proof -
  have "\<not> a \<le>s 0" using assms(3) by (simp add: go_int_order)
  then show ?thesis
    using assms by (simp add: AuthorizePayment_Execute_def NewAuthorizePayment_def payment_repo_def
        repo_GetByOrderID_def sql_get_payment_def)
qed

section \<open>The order side\<close>

lemma run_update_ok:
  assumes "faults w = []" and "uuid_in pg i = Some k" and "orders_tab w k = Some ord" and "st \<in> set statuses"
  shows "run_state (repo_UpdateStatus pg i st) w =
    (None, w\<lparr>orders_tab := (orders_tab w)(k \<mapsto> ord\<lparr>oStatus := st\<rparr>)\<rparr>)"
  using assms by (simp add: repo_UpdateStatus_def sql_update_status_def)

lemma run_get_ok:
  assumes "faults w = []" and "uuid_in pg i = Some k"
  shows "run_state (repo_GetByID pg i) w = (Inr (orders_tab w k), w)"
  using assms by (simp add: repo_GetByID_def sql_get_order_def)

text \<open>The order that a creation inserts next.\<close>

definition next_order :: "'w order_world_scheme \<Rightarrow> string \<Rightarrow> string \<Rightarrow> int64 \<Rightarrow> Order" where
  "next_order w c n a = \<lparr>oID = uuid_seq w (uuid_pos w), oCustomerID = c, oItemName = n, oAmount = a,
     oStatus = StatusPending, oCreatedAt = wall w\<rparr>"

definition key_free :: "'w order_world_scheme \<Rightarrow> string option \<Rightarrow> bool" where
  "key_free w key \<longleftrightarrow> (case key_used key of None \<Rightarrow> True | Some k \<Rightarrow> idem_tab w k = None)"

definition record_key :: "string option \<Rightarrow> string \<Rightarrow> (string \<rightharpoonup> string) \<Rightarrow> (string \<rightharpoonup> string)" where
  "record_key key i m = (case key_used key of None \<Rightarrow> m | Some k \<Rightarrow> m(k \<mapsto> i))"

lemma run_create_new:
  assumes "faults w = []" and "order_inv pg w" and "orders_tab w (uuid_seq w (uuid_pos w)) = None"
    and "key_free w key" and "0 <s a" and "ord = next_order w c n a"
  shows "run_state (repo_CreatePendingWithIdempotency pg key c n a) w =
    (Inr (ord, False), w\<lparr>uuid_pos := Suc (uuid_pos w),
       orders_tab := (orders_tab w)(oID ord \<mapsto> ord\<lparr>oCreatedAt := ts_col pg (wall w)\<rparr>),
       idem_tab := record_key key (oID ord) (idem_tab w)\<rparr>)"
proof -
  have u: "uuid_in pg (uuid_seq w (uuid_pos w)) = Some (uuid_seq w (uuid_pos w))"
    using assms(2) by (simp add: order_inv_def)
  have "\<not> a \<le>s 0" using assms(5) by (simp add: go_int_order)
  then have ins: "run_state (repo_insert_pending pg kk c n a) w =
      (Inr (ord, False), w\<lparr>uuid_pos := Suc (uuid_pos w),
         orders_tab := (orders_tab w)(oID ord \<mapsto> ord\<lparr>oCreatedAt := ts_col pg (wall w)\<rparr>),
         idem_tab := (case kk of None \<Rightarrow> idem_tab w | Some k \<Rightarrow> (idem_tab w)(k \<mapsto> oID ord))\<rparr>)"
    if "kk = None \<or> (\<exists>k. kk = Some k \<and> idem_tab w k = None)" for kk
    using assms(1,3,6) u that
    by (auto simp: repo_insert_pending_def time_now_def uuid_new_def sql_insert_order_def sql_insert_key_def
        sql_commit_def next_order_def statuses_def Let_def)
  show ?thesis
  proof (cases "key_used key")
    case None
    then show ?thesis using assms(1) ins [of None]
      by (simp add: repo_CreatePendingWithIdempotency_def sql_nop_def record_key_def)
  next
    case (Some k)
    with assms(4) have "idem_tab w k = None" by (simp add: key_free_def)
    with Some show ?thesis using assms(1) ins [of "Some k"]
      by (simp add: repo_CreatePendingWithIdempotency_def sql_nop_def repo_find_replay_def sql_find_key_def
          record_key_def)
  qed
qed

lemma run_create_replay:
  assumes "faults w = []" and "order_inv pg w" and "key_used key = Some k" and "idem_tab w k = Some i"
    and "orders_tab w i = Some ord"
  shows "run_state (repo_CreatePendingWithIdempotency pg key c n a) w = (Inr (ord, True), w)"
proof -
  have "uuid_in pg i = Some i" using inv_row [OF assms(2,5)] by simp
  with assms show ?thesis
    by (simp add: repo_CreatePendingWithIdempotency_def sql_nop_def repo_find_replay_def sql_find_key_def
        sql_get_order_def)
qed

lemma run_delete_ok:
  assumes "faults w = []"
  shows "\<exists>m. run_state (Store_Delete c i) w = (None, w\<lparr>redis := m\<rparr>)"
proof (cases "store_nil c \<or> i = []")
  case True
  then have "run_state (Store_Delete c i) w = (None, w\<lparr>redis := redis w\<rparr>)" by (simp add: Store_Delete_def)
  then show ?thesis by blast
next
  case False
  with assms show ?thesis by (auto simp: Store_Delete_def)
qed

lemma run_invalidate_ok:
  assumes "faults s = []"
  shows "\<exists>m. run_state (invalidate (sys_create v) i) s = ((), s\<lparr>redis := m\<rparr>)"
proof (cases "wCache v")
  case None
  then have "run_state (invalidate (sys_create v) i) s = ((), s\<lparr>redis := redis s\<rparr>)"
    by (simp add: invalidate_def sys_create_def sys_cache_def)
  then show ?thesis by blast
next
  case (Some c)
  obtain m where m: "run_state (Store_Delete c i) s = (None, s\<lparr>redis := m\<rparr>)" using run_delete_ok [OF assms] by blast
  show ?thesis
  proof (cases "i = []")
    case True
    then have "run_state (invalidate (sys_create v) i) s = ((), s\<lparr>redis := redis s\<rparr>)"
      using Some by (simp add: invalidate_def sys_create_def sys_cache_def)
    then show ?thesis by blast
  next
    case False
    then show ?thesis using Some m
      by (auto simp: invalidate_def sys_create_def sys_cache_def order_cache_store_def)
  qed
qed

section \<open>The call between the services\<close>

definition quiet :: "system \<Rightarrow> bool" where
  "quiet s \<longleftrightarrow> faults s = [] \<and> pay_up s \<and> pay_quiet (psys s)"

text \<open>An answer delivered, or lost with a status.\<close>

definition answer_as :: "net_outcome \<Rightarrow> 'a \<Rightarrow> rpc_error + 'a" where
  "answer_as out x = (case out of AnswerLost c m \<Rightarrow> Inl (StatusErr c m) | _ \<Rightarrow> Inr x)"

definition next_net :: "system \<Rightarrow> net_outcome" where
  "next_net s = (case net s of [] \<Rightarrow> Delivered | x # _ \<Rightarrow> x)"

definition served_log :: "string \<Rightarrow> log_line list \<Rightarrow> log_line list" where
  "served_log meth l = l @ [CallStarted meth, CallCompleted meth]"

lemma rpc_reply:
  assumes "pay_up s" and "next_net s = out" and "\<forall>c m. out \<noteq> Unsent c m" and "run_state (h req) (psys s) = (Reply x, p)"
  shows "run_state (rpc_call (LoggingInterceptor meth h req)) s =
    (answer_as out x, s\<lparr>net := tl (net s), plog := served_log meth (plog s), psys := p\<rparr>)"
  using assms
  by (cases out) (auto simp: rpc_call_def run_interceptor answer_as_def served_log_def next_net_def split: list.splits)

lemma run_client_authorize:
  assumes "quiet s" and "sys_inv v s" and "pay_fresh (psys s) i" and "0 <s a" and "i \<noteq> []" and "TrimSpace e \<noteq> []"
    and "next_net s = out" and "\<forall>c m. out \<noteq> Unsent c m" and "p = next_payment (psys s) i a"
  shows "run_state (PaymentClient_Authorize (grpc_stub (wTsn v) (wPayPg v) (wUrl v)) i a e) s =
    (case answer_as out () of Inl err \<Rightarrow> Inl (authorize_error err) | Inr _ \<Rightarrow> Inr (pTransactionID p, pStatus p),
     s\<lparr>net := tl (net s), plog := served_log methodAuthorizePayment (plog s),
       psys := (psys s)\<lparr>puuid_pos := Suc (Suc (puuid_pos (psys s))),
         payments_tab := payments_tab (psys s) @ [p\<lparr>pCreatedAt := ts_col (wPayPg v) (pCreatedAt p)\<rparr>],
         published := published (psys s) @ events_of (wUrl v) p e\<rparr>\<rparr>)"
proof -
  let ?req = "\<lparr>arqOrderId = i, arqAmount = a, arqCustomerEmail = e\<rparr>"
  have q: "pay_quiet (psys s)" "pay_up s" "pay_inv (wPayPg v) (psys s)"
    using assms(1,2) by (simp_all add: quiet_def sys_inv_def)
  have "\<not> a \<le>s 0" using assms(4) by (simp add: go_int_order)
  then have "run_state (Server_AuthorizePayment (wTsn v) pay_runtime (payment_server (wPayPg v) (wUrl v)) ?req) (psys s) =
    (Reply \<lparr>prPaymentId = pID p, prTransactionId = pTransactionID p, prStatus = pStatus p, prAmount = pAmount p,
       prCreatedAt = wTsn v (pCreatedAt p)\<rparr>,
     (psys s)\<lparr>puuid_pos := Suc (Suc (puuid_pos (psys s))),
         payments_tab := payments_tab (psys s) @ [p\<lparr>pCreatedAt := ts_col (wPayPg v) (pCreatedAt p)\<rparr>],
         published := published (psys s) @ events_of (wUrl v) p e\<rparr>)"
    using run_authorize_ok [OF q(1,3) assms(3-6,9), of "wUrl v"] assms(5)
    by (simp add: Server_AuthorizePayment_def payment_output_def)
  from rpc_reply [where h = "Server_AuthorizePayment (wTsn v) pay_runtime (payment_server (wPayPg v) (wUrl v))" and req = ?req,
      OF q(2) assms(7,8) this, of methodAuthorizePayment] show ?thesis
    by (cases out) (simp_all add: PaymentClient_Authorize_def grpc_stub_def answer_as_def)
qed

text \<open>A second authorization is an internal error of the server, and the client reports \<open>Unavailable\<close>.\<close>

lemma run_client_again:
  assumes "pay_up s" and "faults (psys s) = []" and "net s = []" and "payment_of (psys s) i = Some q" and "0 <s a" and "i \<noteq> []"
  shows "\<exists>l. run_state (PaymentClient_Authorize (grpc_stub tsn ppg url) i a e) s =
    (Inl (Sentinel ErrPaymentUnavailable), s\<lparr>plog := l\<rparr>)"
proof -
  let ?req = "\<lparr>arqOrderId = i, arqAmount = a, arqCustomerEmail = e\<rparr>"
  have "\<not> a \<le>s 0" using assms(5) by (simp add: go_int_order)
  then have "run_state (Server_AuthorizePayment tsn pay_runtime (payment_server ppg url) ?req) (psys s) =
      (Fail Internal ''failed to authorize payment: payment already exists for this order'', psys s)"
    using run_authorize_again [OF assms(2,4,5,6)] assms(6)
    by (simp add: Server_AuthorizePayment_def perror_text_def)
  then show ?thesis
    using assms(1,3) by (cases s)
      (simp add: PaymentClient_Authorize_def grpc_stub_def rpc_call_def run_interceptor authorize_error_def)
qed

section \<open>Placing an order\<close>

lemma sys_create_fields [simp]:
  "orders (sys_create v) = order_repo (wPg v)" "payments (sys_create v) = sys_pay v" "cache (sys_create v) = sys_cache v"
  by (simp_all add: sys_create_def)

lemma order_repo_fields [simp]:
  "GetByID (order_repo pg) = repo_GetByID pg" "UpdateStatus (order_repo pg) = repo_UpdateStatus pg"
  "CreatePendingWithIdempotency (order_repo pg) = repo_CreatePendingWithIdempotency pg"
  by (simp_all add: order_repo_def)

text \<open>An input that the use case accepts.\<close>

definition valid_input :: "CreateOrderInput \<Rightarrow> bool" where
  "valid_input i \<longleftrightarrow> 0 <s inAmount i \<and> TrimSpace (inCustomerID i) \<noteq> [] \<and> TrimSpace (inCustomerEmail i) \<noteq> [] \<and>
     TrimSpace (inItemName i) \<noteq> []"

abbreviation placed_order :: "system \<Rightarrow> CreateOrderInput \<Rightarrow> Order" where
  "placed_order s i \<equiv> next_order s (TrimSpace (inCustomerID i)) (TrimSpace (inItemName i)) (inAmount i)"

text \<open>Identifiers are fresh: the next order identifier is in no table, nor are the next payment's.\<close>

definition fresh_ids :: "system \<Rightarrow> bool" where
  "fresh_ids s \<longleftrightarrow> uuid_seq s (uuid_pos s) \<noteq> [] \<and> orders_tab s (uuid_seq s (uuid_pos s)) = None \<and>
     pay_fresh (psys s) (uuid_seq s (uuid_pos s))"

lemma run_create_execute:
  assumes "valid_input i"
  shows "run_state (CreateOrder_Execute (sys_create v) i) s =
    run_state (do {
      r \<leftarrow> repo_CreatePendingWithIdempotency (wPg v) (inIdempotencyKey i) (TrimSpace (inCustomerID i))
            (TrimSpace (inItemName i)) (inAmount i);
      (case r of
         Inl err \<Rightarrow> State_Monad.return (None, Some err)
       | Inr (order, _) \<Rightarrow>
           if oStatus order = StatusPaid \<or> oStatus order = StatusFailed \<or> oStatus order = StatusCancelled
           then State_Monad.return (Some order, None)
           else CreateOrder_pay (sys_create v) order (TrimSpace (inCustomerEmail i)))
    }) s"
proof -
  have "\<not> inAmount i \<le>s 0" using assms by (simp add: valid_input_def go_int_order)
  with assms show ?thesis
    by (simp add: CreateOrder_Execute_def Let_def valid_input_def)
qed

text \<open>The payment step of a new order: the answer decides the status that is written.\<close>

lemma run_pay_answered:
  assumes "faults s = []" and "uuid_in (wPg v) (oID ord) = Some (oID ord)" and "orders_tab s (oID ord) = Some row"
    and "run_state (PaymentClient_Authorize (grpc_stub (wTsn v) (wPayPg v) (wUrl v)) (oID ord) (oAmount ord) e) s =
      (Inr (t, st), s1)" and "faults s1 = []" and "orders_tab s1 = orders_tab s"
  shows "\<exists>m. run_state (CreateOrder_pay (sys_create v) ord e) s =
    ((Some (ord\<lparr>oStatus := newStatus st\<rparr>), None),
     s1\<lparr>orders_tab := (orders_tab s)(oID ord \<mapsto> row\<lparr>oStatus := newStatus st\<rparr>), redis := m\<rparr>)"
proof -
  let ?s2 = "s1\<lparr>orders_tab := (orders_tab s)(oID ord \<mapsto> row\<lparr>oStatus := newStatus st\<rparr>)\<rparr>"
  have "newStatus st \<in> set statuses" by (simp add: newStatus_def statuses_def)
  then have up: "run_state (repo_UpdateStatus (wPg v) (oID ord) (newStatus st)) s1 = (None, ?s2)"
    using run_update_ok [OF assms(5,2), of row "newStatus st"] assms(3,6) by simp
  have "faults ?s2 = []" using assms(5) by simp
  then obtain m where "run_state (invalidate (sys_create v) (oID ord)) ?s2 = ((), ?s2\<lparr>redis := m\<rparr>)"
    using run_invalidate_ok by blast
  with up assms(4) have "run_state (CreateOrder_pay (sys_create v) ord e) s =
    ((Some (ord\<lparr>oStatus := newStatus st\<rparr>), None), ?s2\<lparr>redis := m\<rparr>)"
    by (simp add: CreateOrder_pay_def sys_pay_def)
  then show ?thesis by auto
qed

text \<open>An error of the client that the use case does not know: the order is written Failed.\<close>

lemma run_pay_failed:
  assumes "uuid_in (wPg v) (oID ord) = Some (oID ord)" and "orders_tab s (oID ord) = Some row"
    and "run_state (PaymentClient_Authorize (grpc_stub (wTsn v) (wPayPg v) (wUrl v)) (oID ord) (oAmount ord) e) s =
      (Inl err, s1)" and "faults s1 = []" and "orders_tab s1 = orders_tab s"
    and "\<not> errors_Is err ErrPaymentInvalidArgument" and "err \<noteq> Sentinel ErrPaymentAlreadyRecorded"
    and "err \<noteq> Sentinel ErrPaymentUnavailable"
  shows "\<exists>m. run_state (CreateOrder_pay (sys_create v) ord e) s =
    ((Some (row\<lparr>oStatus := StatusFailed\<rparr>), Some err),
     s1\<lparr>orders_tab := (orders_tab s)(oID ord \<mapsto> row\<lparr>oStatus := StatusFailed\<rparr>), redis := m\<rparr>)"
proof -
  let ?s2 = "s1\<lparr>orders_tab := (orders_tab s)(oID ord \<mapsto> row\<lparr>oStatus := StatusFailed\<rparr>)\<rparr>"
  have up: "run_state (repo_UpdateStatus (wPg v) (oID ord) StatusFailed) s1 = (None, ?s2)"
    using run_update_ok [OF assms(4,1), of row StatusFailed] assms(2,5) by (simp add: statuses_def)
  have f2: "faults ?s2 = []" using assms(4) by simp
  then obtain m where inval: "run_state (invalidate (sys_create v) (oID ord)) ?s2 = ((), ?s2\<lparr>redis := m\<rparr>)"
    using run_invalidate_ok by blast
  let ?s3 = "?s2\<lparr>redis := m\<rparr>"
  have "run_state (repo_GetByID (wPg v) (oID ord)) ?s3 = (Inr (Some (row\<lparr>oStatus := StatusFailed\<rparr>)), ?s3)"
    using run_get_ok [of ?s3 "wPg v" "oID ord" "oID ord"] f2 assms(1) by simp
  with up inval assms(3,6-8) have "run_state (CreateOrder_pay (sys_create v) ord e) s =
      ((Some (row\<lparr>oStatus := StatusFailed\<rparr>), Some err), ?s3)"
    by (simp add: CreateOrder_pay_def sys_pay_def)
  then show ?thesis by auto
qed

end
