(* ===== verification/Scenario.thy ===== *)
theory Scenario
  imports System
begin

text \<open>
  A concrete system for evaluating the model: both databases with the standard reading of UUIDs,
  an empty state, identifiers in a fixed order, Redis connected, every call delivered.
\<close>

definition demo_uuid :: "nat \<Rightarrow> string" where
  "demo_uuid n = ''00000000-0000-4000-8000-00000000000'' @ [''0123456789'' ! (n mod 10)]"

lemma demo_uuid_canonical [simp]: "uuid_in standard_pg (demo_uuid n) = Some (demo_uuid n)"
proof -
  have "\<forall>d \<in> set ''0123456789''. uuid_in standard_pg (''00000000-0000-4000-8000-00000000000'' @ [d]) =
      Some (''00000000-0000-4000-8000-00000000000'' @ [d])"
    by code_simp
  moreover have "n mod 10 < length ''0123456789''" by simp
  then have "''0123456789'' ! (n mod 10) \<in> set ''0123456789''" by (rule nth_mem)
  ultimately show ?thesis unfolding demo_uuid_def by blast
qed

definition demo_time :: gotime where
  "demo_time = \<lparr>tYear = 2025, tMonth = 5, tDay = 17, tHour = 9, tMin = 30, tSec = 0, tNsec = 250000000, tZone = 0\<rparr>"

definition demo_pay :: pay_world where
  "demo_pay = \<lparr>faults = [], payments_tab = [], published = [], confirms = [], confirm_events = [],
     pwall = demo_time, puuid_seq = demo_uuid, puuid_pos = 5\<rparr>"

definition demo_system :: system where
  "demo_system = \<lparr>faults = [], redis = Map.empty, redis_clock = 0, orders_tab = Map.empty, idem_tab = Map.empty,
     wall = demo_time, uuid_seq = demo_uuid, uuid_pos = 0, psys = demo_pay, plog = [], pay_up = True, net = []\<rparr>"

definition demo_wiring :: wiring where
  "demo_wiring = \<lparr>wTsn = (\<lambda>t. (instant t div 1000000000, instant t mod 1000000000)),
     wPg = standard_pg, wPayPg = standard_pg, wUrl = ''amqp://rabbitmq'', wCache = Some (Some (New (Some ())))\<rparr>"

definition demo_input :: CreateOrderInput where
  "demo_input = \<lparr>inCustomerID = '' c-1 '', inCustomerEmail = ''ann@example.com'', inItemName = ''book'',
     inAmount = 1999, inIdempotencyKey = Some ''k-1''\<rparr>"

lemma demo_inv: "sys_inv demo_wiring demo_system"
  by (simp add: sys_inv_def order_inv_def pay_inv_def demo_wiring_def demo_system_def demo_pay_def)

end
