(* ===== verification/System_Runs.thy ===== *)
theory System_Runs
  imports Scenario
begin

text \<open>
  Runs of the whole: any number of requests to the order service, calls of others to the payment
  service, and changes of what is outside (which calls will be lost, the clocks, the payment
  process stopping or starting again), one after another in any order.
\<close>

inductive sys_step :: "wiring \<Rightarrow> duration \<Rightarrow> system \<Rightarrow> system \<Rightarrow> bool" for v ttl where
  place: "run_state (CreateOrder_Execute (sys_create v) i) s = (r, s') \<Longrightarrow> sys_step v ttl s s'"
| look: "run_state (GetOrder_Execute (sys_get v ttl) i) s = (r, s') \<Longrightarrow> sys_step v ttl s s'"
| cancel: "run_state (CancelOrder_Execute (sys_cancel v) i) s = (r, s') \<Longrightarrow> sys_step v ttl s s'"
| authorize: "run_state (stubAuthorizePayment (grpc_stub (wTsn v) (wPayPg v) (wUrl v)) req) s = (r, s') \<Longrightarrow> sys_step v ttl s s'"
| ask: "run_state (stubGetPaymentStatus (grpc_stub (wTsn v) (wPayPg v) (wUrl v)) q) s = (r, s') \<Longrightarrow> sys_step v ttl s s'"
| outside: "sys_step v ttl s (s\<lparr>faults := f, redis_clock := c, wall := t, pay_up := b, net := n,
    psys := (psys s)\<lparr>faults := pf, pwall := pt, confirm_events := ce\<rparr>\<rparr>)"

inductive_cases sys_stepE: "sys_step v ttl s s'"

text \<open>Every Paid order has an authorized payment for its amount.\<close>

definition paid_backed :: "system \<Rightarrow> bool" where
  "paid_backed s \<longleftrightarrow> (\<forall>k ord. orders_tab s k = Some ord \<longrightarrow> oStatus ord = StatusPaid \<longrightarrow>
     (\<exists>p. payment_of (psys s) k = Some p \<and> pStatus p = StatusAuthorized \<and> pAmount p = oAmount ord))"

lemma paid_inv_backed: "sys.paid_inv v s \<longleftrightarrow> sys_inv v s \<and> paid_backed s"
  by (simp add: sys.paid_inv_def paid_backed_def sys_paid_def)

lemma pay_env [simp]:
  "payment_of (w\<lparr>pwall := t\<rparr>) = payment_of w"
  "pay_inv pg (w\<lparr>pwall := t\<rparr>) = pay_inv pg w"
  by (simp_all add: payment_of_def pay_inv_def fun_eq_iff)

lemma sys_env [simp]:
  "sys_inv v (s\<lparr>faults := f, redis_clock := c, wall := t, pay_up := b, net := n,
     psys := (psys s)\<lparr>faults := pf, pwall := pt, confirm_events := ce\<rparr>\<rparr>) = sys_inv v s"
  by (simp add: sys_inv_def order_inv_def)

text \<open>What a direct call to the payment service does.\<close>

lemma stub_authorize_call:
  assumes "sys_inv v s" and "run_state (stubAuthorizePayment (grpc_stub (wTsn v) (wPayPg v) (wUrl v)) req) s = (r, s')"
  shows "sys_inv v s' \<and> orders_tab s' = orders_tab s \<and>
    (\<forall>k p. payment_of (psys s) k = Some p \<longrightarrow> payment_of (psys s') k = Some p)"
proof -
  have req: "\<lparr>arqOrderId = arqOrderId req, arqAmount = arqAmount req, arqCustomerEmail = arqCustomerEmail req\<rparr> = req"
    by simp
  show ?thesis
    using wpD [OF authorize_call [OF assms(1), of "arqOrderId req" "arqAmount req" "arqCustomerEmail req",
        unfolded PaymentClient_Authorize_def wp_bind wp_return req] assms(2)] by blast
qed

lemma stub_status_call:
  assumes "sys_inv v s" and "run_state (stubGetPaymentStatus (grpc_stub (wTsn v) (wPayPg v) (wUrl v)) q) s = (r, s')"
  shows "sys_inv v s' \<and> orders_tab s' = orders_tab s \<and> payment_of (psys s') = payment_of (psys s)"
proof -
  have q: "\<lparr>gsqOrderId = gsqOrderId q\<rparr> = q" by simp
  show ?thesis
    using wpD [OF status_call [OF assms(1), of "gsqOrderId q",
        unfolded PaymentClient_GetStatus_def wp_bind wp_return q] assms(2)] by blast
qed

lemma sys_step_refines:
  assumes "sys_inv v s" and "sys_step v ttl s s'"
  shows "sys_inv v s' \<and> order_steps (orders_tab s) (orders_tab s')"
  using assms(2)
proof cases
  case (place i r)
  then show ?thesis using wpD [OF sys.create_refines [OF assms(1)]] by (simp add: sys_create_def)
next
  case (look i r)
  then show ?thesis using wpD [OF sys.get_refines [OF assms(1)]] by (fastforce simp: sys_get_def)
next
  case (cancel i r)
  then show ?thesis using wpD [OF sys.cancel_refines [OF assms(1)]] by (simp add: sys_cancel_def)
next
  case (authorize req r)
  then show ?thesis using stub_authorize_call [OF assms(1)] by simp
next
  case (ask q r)
  then show ?thesis using stub_status_call [OF assms(1)] by simp
next
  case outside
  then show ?thesis using assms(1) by simp
qed

lemma sys_step_paid:
  assumes "sys_inv v s" and "paid_backed s" and "sys_step v ttl s s'"
  shows "paid_backed s'"
proof -
  have p: "sys.paid_inv v s" using assms(1,2) by (simp add: paid_inv_backed)
  from assms(3) show ?thesis
  proof cases
    case (place i r)
    then show ?thesis using wpD [OF sys.create_keeps_paid [OF p], folded sys_create_def] by (simp add: paid_inv_backed)
  next
    case (look i r)
    then show ?thesis using wpD [OF sys.get_keeps_paid [OF p], folded sys_get_def] by (simp add: paid_inv_backed)
  next
    case (cancel i r)
    then show ?thesis using wpD [OF sys.cancel_keeps_paid [OF p], folded sys_cancel_def] by (simp add: paid_inv_backed)
  next
    case (authorize req r)
    then show ?thesis using stub_authorize_call [OF assms(1)] assms(2) by (fastforce simp: paid_backed_def)
  next
    case (ask q r)
    then show ?thesis using stub_status_call [OF assms(1)] assms(2) by (simp add: paid_backed_def)
  next
    case outside
    then show ?thesis using assms(2) by (simp add: paid_backed_def)
  qed
qed

lemma sys_runs_inv:
  assumes "(sys_step v ttl)\<^sup>*\<^sup>* s s'" and "sys_inv v s"
  shows "sys_inv v s' \<and> order_steps (orders_tab s) (orders_tab s')"
  using assms
proof (induction rule: rtranclp_induct)
  case (step y z)
  then show ?case using sys_step_refines [of v y ttl z] by (meson rtranclp_trans)
qed simp

lemma sys_runs_paid:
  assumes "(sys_step v ttl)\<^sup>*\<^sup>* s s'" and "sys_inv v s" and "paid_backed s"
  shows "paid_backed s'"
  using assms
proof (induction rule: rtranclp_induct)
  case (step y z)
  then show ?case using sys_step_paid [of v y ttl z] sys_runs_inv [of v ttl s y] by blast
qed simp

text \<open>The example system after one order was placed.\<close>

definition demo_placed :: system where
  "demo_placed = snd (run_state (CreateOrder_Execute (sys_create demo_wiring) demo_input) demo_system)"

lemma demo_run: "(sys_step demo_wiring ttl)\<^sup>*\<^sup>* demo_system demo_placed"
proof -
  have "run_state (CreateOrder_Execute (sys_create demo_wiring) demo_input) demo_system =
      (fst (run_state (CreateOrder_Execute (sys_create demo_wiring) demo_input) demo_system), demo_placed)"
    by (simp add: demo_placed_def)
  then show ?thesis by (intro r_into_rtranclp sys_step.place)
qed

lemma demo_backed: "paid_backed demo_system"
  by (simp add: paid_backed_def demo_system_def)

end
