(* ===== verification/System_Props.thy ===== *)
theory System_Props
  imports System_Ok System_Runs
begin

text \<open>
  Placing an order end to end: the normal course, the replay of an idempotency key, the answer of
  the payment service lost on the way, and the retry of an order whose payment is recorded.
\<close>

text \<open>The row of a new order is inserted; what is left is its payment.\<close>

lemma create_inserts:
  assumes "sys_inv v s" and "faults s = []" and "fresh_ids s" and "valid_input i" and "key_free s (inIdempotencyKey i)"
    and "ord = placed_order s i"
  shows "\<exists>s1. run_state (CreateOrder_Execute (sys_create v) i) s =
      run_state (CreateOrder_pay (sys_create v) ord (TrimSpace (inCustomerEmail i))) s1 \<and>
    sys_inv v s1 \<and> faults s1 = [] \<and> psys s1 = psys s \<and> net s1 = net s \<and> pay_up s1 = pay_up s \<and>
    orders_tab s1 = (orders_tab s)(oID ord \<mapsto> ord\<lparr>oCreatedAt := ts_col (wPg v) (wall s)\<rparr>) \<and>
    idem_tab s1 = record_key (inIdempotencyKey i) (oID ord) (idem_tab s)"
proof -
  have inv: "order_inv (wPg v) s" using assms(1) by (simp add: sys_inv_def)
  let ?s1 = "s\<lparr>uuid_pos := Suc (uuid_pos s),
       orders_tab := (orders_tab s)(oID ord \<mapsto> ord\<lparr>oCreatedAt := ts_col (wPg v) (wall s)\<rparr>),
       idem_tab := record_key (inIdempotencyKey i) (oID ord) (idem_tab s)\<rparr>"
  have new: "run_state (repo_CreatePendingWithIdempotency (wPg v) (inIdempotencyKey i) (TrimSpace (inCustomerID i))
      (TrimSpace (inItemName i)) (inAmount i)) s = (Inr (ord, False), ?s1)"
    using assms(2-6) by (intro run_create_new [OF _ inv]) (simp_all add: fresh_ids_def valid_input_def)
  have "wp (repo_CreatePendingWithIdempotency (wPg v) (inIdempotencyKey i) (TrimSpace (inCustomerID i))
      (TrimSpace (inItemName i)) (inAmount i)) (\<lambda>r s'. order_inv (wPg v) s') s"
    by (rule wp_mono [OF create_spec [OF inv]]) blast
  from wpD [OF this new] have "sys_inv v ?s1" using assms(1) by (simp add: sys_inv_def)
  moreover have "run_state (CreateOrder_Execute (sys_create v) i) s =
      run_state (CreateOrder_pay (sys_create v) ord (TrimSpace (inCustomerEmail i))) ?s1"
    using new assms(6) by (simp add: run_create_execute [OF assms(4)] next_order_def)
  ultimately show ?thesis using assms(2) by (intro exI [of _ ?s1]) simp
qed

text \<open>The first two calls of a new order, with nothing lost before the answer.\<close>

lemma create_then_pay:
  assumes "sys_inv v s" and "quiet s" and "fresh_ids s" and "valid_input i" and "key_free s (inIdempotencyKey i)"
    and "\<forall>c m. next_net s \<noteq> Unsent c m" and "ord = placed_order s i"
    and "p = next_payment (psys s) (oID ord) (inAmount i)"
  shows "\<exists>s1 s2. run_state (CreateOrder_Execute (sys_create v) i) s =
      run_state (CreateOrder_pay (sys_create v) ord (TrimSpace (inCustomerEmail i))) s1 \<and>
    faults s1 = [] \<and> orders_tab s1 = (orders_tab s)(oID ord \<mapsto> ord\<lparr>oCreatedAt := ts_col (wPg v) (wall s)\<rparr>) \<and>
    idem_tab s1 = record_key (inIdempotencyKey i) (oID ord) (idem_tab s) \<and>
    run_state (PaymentClient_Authorize (grpc_stub (wTsn v) (wPayPg v) (wUrl v)) (oID ord) (oAmount ord)
      (TrimSpace (inCustomerEmail i))) s1 =
      (case answer_as (next_net s) () of Inl err \<Rightarrow> Inl (authorize_error err) | Inr _ \<Rightarrow> Inr (pTransactionID p, pStatus p), s2) \<and>
    faults s2 = [] \<and> orders_tab s2 = orders_tab s1 \<and> idem_tab s2 = idem_tab s1 \<and> net s2 = tl (net s) \<and>
    psys s2 = (psys s)\<lparr>puuid_pos := Suc (Suc (puuid_pos (psys s))),
      payments_tab := payments_tab (psys s) @ [p\<lparr>pCreatedAt := ts_col (wPayPg v) (pCreatedAt p)\<rparr>],
      published := published (psys s) @ events_of (wUrl v) p (inCustomerEmail i)\<rparr>"
proof -
  from create_inserts [OF assms(1) _ assms(3-5,7)] assms(2) obtain s1 where
    s1: "run_state (CreateOrder_Execute (sys_create v) i) s =
      run_state (CreateOrder_pay (sys_create v) ord (TrimSpace (inCustomerEmail i))) s1"
    "sys_inv v s1" "faults s1 = []" "psys s1 = psys s" "net s1 = net s" "pay_up s1 = pay_up s"
    "orders_tab s1 = (orders_tab s)(oID ord \<mapsto> ord\<lparr>oCreatedAt := ts_col (wPg v) (wall s)\<rparr>)"
    "idem_tab s1 = record_key (inIdempotencyKey i) (oID ord) (idem_tab s)" by (auto simp: quiet_def)
  have "quiet s1" "next_net s1 = next_net s" "pay_fresh (psys s1) (oID ord)" "oID ord \<noteq> []"
    using assms(2,3,7) s1(3-6) by (simp_all add: quiet_def next_net_def fresh_ids_def next_order_def)
  moreover have "0 <s oAmount ord" "TrimSpace (TrimSpace (inCustomerEmail i)) \<noteq> []" "p = next_payment (psys s1) (oID ord) (oAmount ord)"
    using assms(4,7,8) s1(4) by (simp_all add: valid_input_def next_order_def)
  ultimately have call: "run_state (PaymentClient_Authorize (grpc_stub (wTsn v) (wPayPg v) (wUrl v)) (oID ord) (oAmount ord)
      (TrimSpace (inCustomerEmail i))) s1 =
    (case answer_as (next_net s) () of Inl err \<Rightarrow> Inl (authorize_error err) | Inr _ \<Rightarrow> Inr (pTransactionID p, pStatus p),
     s1\<lparr>net := tl (net s1), plog := served_log methodAuthorizePayment (plog s1),
       psys := (psys s1)\<lparr>puuid_pos := Suc (Suc (puuid_pos (psys s1))),
         payments_tab := payments_tab (psys s1) @ [p\<lparr>pCreatedAt := ts_col (wPayPg v) (pCreatedAt p)\<rparr>],
         published := published (psys s1) @ events_of (wUrl v) p (TrimSpace (inCustomerEmail i))\<rparr>\<rparr>)"
    using run_client_authorize [OF _ s1(2), of "oID ord" "oAmount ord" "TrimSpace (inCustomerEmail i)" "next_net s" p] assms(6)
    by simp
  have ev: "events_of (wUrl v) p (TrimSpace (inCustomerEmail i)) = events_of (wUrl v) p (inCustomerEmail i)"
    by (simp add: events_of_def completed_event_def)
  show ?thesis
    by (rule exI [of _ s1], rule exI [of _ "s1\<lparr>net := tl (net s1), plog := served_log methodAuthorizePayment (plog s1),
       psys := (psys s1)\<lparr>puuid_pos := Suc (Suc (puuid_pos (psys s1))),
         payments_tab := payments_tab (psys s1) @ [p\<lparr>pCreatedAt := ts_col (wPayPg v) (pCreatedAt p)\<rparr>],
         published := published (psys s1) @ events_of (wUrl v) p (TrimSpace (inCustomerEmail i))\<rparr>\<rparr>"], intro conjI)
      (use s1 call ev in simp_all)
qed

text \<open>The payment recorded last is the payment of its order.\<close>

lemma payment_of_new:
  assumes "pay_fresh w (pOrderID p)" and "payments_tab w' = payments_tab w @ [p]"
  shows "payment_of w' = (payment_of w)(pOrderID p \<mapsto> p)"
proof -
  have "pOrderID p \<notin> pOrderID ` set (payments_tab w)" using assms(1) by (auto simp: pay_fresh_def)
  from payment_of_append [OF this] show ?thesis using assms(2) by (simp add: payment_of_def fun_eq_iff)
qed

text \<open>
  The normal course. The order is Paid when its amount is at most the limit and Failed otherwise;
  one payment is recorded for it, and one event is published when it is authorized.
\<close>

lemma create_normal:
  assumes "sys_inv v s" and "quiet s" and "fresh_ids s" and "valid_input i" and "key_free s (inIdempotencyKey i)"
    and "net s = []"
  shows "\<exists>ord s'. run_state (CreateOrder_Execute (sys_create v) i) s = ((Some ord, None), s') \<and>
    oStatus ord = (if inAmount i \<le>s MaxAuthorizedAmountCents then StatusPaid else StatusFailed) \<and>
    ord = (placed_order s i)\<lparr>oStatus := oStatus ord\<rparr> \<and>
    orders_tab s' = (orders_tab s)(oID ord \<mapsto> ord\<lparr>oCreatedAt := ts_col (wPg v) (wall s)\<rparr>) \<and>
    idem_tab s' = record_key (inIdempotencyKey i) (oID ord) (idem_tab s) \<and> faults s' = [] \<and>
    (let p = next_payment (psys s) (oID ord) (inAmount i) in
       payment_of (psys s') = (payment_of (psys s))(oID ord \<mapsto> p\<lparr>pCreatedAt := ts_col (wPayPg v) (pCreatedAt p)\<rparr>) \<and>
       published (psys s') = published (psys s) @ events_of (wUrl v) p (inCustomerEmail i))"
proof -
  define ord where "ord = placed_order s i"
  define p where "p = next_payment (psys s) (oID ord) (inAmount i)"
  have net: "next_net s = Delivered" using assms(6) by (simp add: next_net_def)
  from create_then_pay [OF assms(1-5) _ ord_def p_def] net obtain s1 s2 where
    e: "run_state (CreateOrder_Execute (sys_create v) i) s =
        run_state (CreateOrder_pay (sys_create v) ord (TrimSpace (inCustomerEmail i))) s1"
    "faults s1 = []" "orders_tab s1 = (orders_tab s)(oID ord \<mapsto> ord\<lparr>oCreatedAt := ts_col (wPg v) (wall s)\<rparr>)"
    "idem_tab s1 = record_key (inIdempotencyKey i) (oID ord) (idem_tab s)"
    "run_state (PaymentClient_Authorize (grpc_stub (wTsn v) (wPayPg v) (wUrl v)) (oID ord) (oAmount ord)
      (TrimSpace (inCustomerEmail i))) s1 = (Inr (pTransactionID p, pStatus p), s2)"
    "faults s2 = []" "orders_tab s2 = orders_tab s1" "idem_tab s2 = idem_tab s1"
    "psys s2 = (psys s)\<lparr>puuid_pos := Suc (Suc (puuid_pos (psys s))),
      payments_tab := payments_tab (psys s) @ [p\<lparr>pCreatedAt := ts_col (wPayPg v) (pCreatedAt p)\<rparr>],
      published := published (psys s) @ events_of (wUrl v) p (inCustomerEmail i)\<rparr>"
    by (auto simp: answer_as_def)
  have u: "uuid_in (wPg v) (oID ord) = Some (oID ord)"
    using assms(1) by (simp add: ord_def next_order_def sys_inv_def order_inv_def)
  have row: "orders_tab s1 (oID ord) = Some (ord\<lparr>oCreatedAt := ts_col (wPg v) (wall s)\<rparr>)" using e(3) by simp
  from run_pay_answered [OF e(2) u row e(5,6,7)] obtain m where
    run: "run_state (CreateOrder_pay (sys_create v) ord (TrimSpace (inCustomerEmail i))) s1 =
      ((Some (ord\<lparr>oStatus := newStatus (pStatus p)\<rparr>), None),
       s2\<lparr>orders_tab := (orders_tab s1)(oID ord \<mapsto> ord\<lparr>oCreatedAt := ts_col (wPg v) (wall s), oStatus := newStatus (pStatus p)\<rparr>),
          redis := m\<rparr>)" by auto
  let ?ord = "ord\<lparr>oStatus := newStatus (pStatus p)\<rparr>"
  let ?s3 = "s2\<lparr>orders_tab := (orders_tab s1)(oID ord \<mapsto> ord\<lparr>oCreatedAt := ts_col (wPg v) (wall s), oStatus := newStatus (pStatus p)\<rparr>),
          redis := m\<rparr>"
  have st: "newStatus (pStatus p) = (if inAmount i \<le>s MaxAuthorizedAmountCents then StatusPaid else StatusFailed)"
    by (simp add: p_def next_payment_def authorize_status_def newStatus_def paymentStatusAuthorized_def
        StatusAuthorized_def StatusDeclined_def go_int_order not_le)
  have upd: "ord\<lparr>oCreatedAt := t, oStatus := x\<rparr> = ord\<lparr>oStatus := x, oCreatedAt := t\<rparr>" for t x by simp
  have pay: "payment_of (psys s2) = (payment_of (psys s))(oID ord \<mapsto> p\<lparr>pCreatedAt := ts_col (wPayPg v) (pCreatedAt p)\<rparr>)"
    using payment_of_new [of "psys s" "p\<lparr>pCreatedAt := ts_col (wPayPg v) (pCreatedAt p)\<rparr>" "psys s2"] assms(3) e(9)
    by (simp add: p_def next_payment_def fresh_ids_def ord_def next_order_def)
  show ?thesis
    by (rule exI [of _ ?ord], rule exI [of _ ?s3])
      (use e(1,3,4,6,8,9) run st pay in \<open>simp add: p_def [symmetric] ord_def [symmetric] Let_def upd\<close>)
qed

text \<open>A key that names a settled order: the order is returned as it is and nothing changes.\<close>

lemma create_replay:
  assumes "sys_inv v s" and "faults s = []" and "valid_input i" and "key_used (inIdempotencyKey i) = Some k"
    and "idem_tab s k = Some oid" and "orders_tab s oid = Some ord" and "oStatus ord \<noteq> StatusPending"
  shows "run_state (CreateOrder_Execute (sys_create v) i) s = ((Some ord, None), s)"
proof -
  have inv: "order_inv (wPg v) s" using assms(1) by (simp add: sys_inv_def)
  have "oStatus ord \<in> set statuses" using inv_row [OF inv assms(6)] by simp
  then have "oStatus ord = StatusPaid \<or> oStatus ord = StatusFailed \<or> oStatus ord = StatusCancelled"
    using assms(7) by (simp add: statuses_def)
  then show ?thesis
    using run_create_replay [OF assms(2) inv assms(4-6)] by (auto simp: run_create_execute [OF assms(3)])
qed

text \<open>The same request twice: the second answer is the order of the first, and nothing is done again.\<close>

lemma create_repeated:
  assumes "sys_inv v s" and "quiet s" and "fresh_ids s" and "valid_input i" and "key_used (inIdempotencyKey i) = Some k"
    and "idem_tab s k = None" and "net s = []"
  shows "\<exists>ord s1. run_state (CreateOrder_Execute (sys_create v) i) s = ((Some ord, None), s1) \<and>
    run_state (CreateOrder_Execute (sys_create v) i) s1 = ((Some (ord\<lparr>oCreatedAt := ts_col (wPg v) (wall s)\<rparr>), None), s1)"
proof -
  have free: "key_free s (inIdempotencyKey i)" using assms(5,6) by (simp add: key_free_def)
  from create_normal [OF assms(1-4) free assms(7)] obtain ord s1 where
    o: "run_state (CreateOrder_Execute (sys_create v) i) s = ((Some ord, None), s1)"
    "oStatus ord = (if inAmount i \<le>s MaxAuthorizedAmountCents then StatusPaid else StatusFailed)"
    "orders_tab s1 = (orders_tab s)(oID ord \<mapsto> ord\<lparr>oCreatedAt := ts_col (wPg v) (wall s)\<rparr>)"
    "idem_tab s1 = record_key (inIdempotencyKey i) (oID ord) (idem_tab s)" "faults s1 = []" by blast
  have inv: "sys_inv v s1"
    using wpD [OF sys.create_refines [OF assms(1), folded sys_create_def] o(1)] by blast
  have "run_state (CreateOrder_Execute (sys_create v) i) s1 = ((Some (ord\<lparr>oCreatedAt := ts_col (wPg v) (wall s)\<rparr>), None), s1)"
    by (rule create_replay [OF inv o(5) assms(4,5)]) (use o(2-4) assms(5) in \<open>auto simp: record_key_def\<close>)
  with o(1) show ?thesis by blast
qed

text \<open>
  A Pending order whose payment is recorded: the retry over gRPC is answered \<open>Internal\<close>, which the
  client reports as \<open>ErrPaymentUnavailable\<close>; the order stays Pending.
\<close>

lemma create_retry_stuck:
  assumes "sys_inv v s" and "quiet s" and "net s = []" and "valid_input i" and "key_used (inIdempotencyKey i) = Some k"
    and "idem_tab s k = Some oid" and "orders_tab s oid = Some ord" and "oStatus ord = StatusPending"
    and "payment_of (psys s) oid = Some p" and "oid \<noteq> []"
  shows "\<exists>l. run_state (CreateOrder_Execute (sys_create v) i) s =
    ((Some ord, Some (Sentinel ErrPaymentUnavailable)), s\<lparr>plog := l\<rparr>)"
proof -
  have inv: "order_inv (wPg v) s" and f: "faults s = []" using assms(1,2) by (simp_all add: sys_inv_def quiet_def)
  note row = inv_row [OF inv assms(7)]
  from run_client_again [of s oid p "oAmount ord" "wTsn v" "wPayPg v" "wUrl v" "TrimSpace (inCustomerEmail i)"] obtain l where
    call: "run_state (PaymentClient_Authorize (grpc_stub (wTsn v) (wPayPg v) (wUrl v)) oid (oAmount ord)
      (TrimSpace (inCustomerEmail i))) s = (Inl (Sentinel ErrPaymentUnavailable), s\<lparr>plog := l\<rparr>)"
    using assms(2,3,9,10) row by (auto simp: quiet_def pay_quiet_def)
  have "run_state (repo_GetByID (wPg v) oid) (s\<lparr>plog := l\<rparr>) = (Inr (Some ord), s\<lparr>plog := l\<rparr>)"
    using run_get_ok [of "s\<lparr>plog := l\<rparr>" "wPg v" oid oid] f row assms(7) by simp
  with call have "run_state (CreateOrder_pay (sys_create v) ord (TrimSpace (inCustomerEmail i))) s =
      ((Some ord, Some (Sentinel ErrPaymentUnavailable)), s\<lparr>plog := l\<rparr>)"
    using row by (simp add: CreateOrder_pay_def sys_pay_def)
  then show ?thesis
    using run_create_replay [OF f inv assms(5-7)] assms(8)
    by (auto simp: run_create_execute [OF assms(4)])
qed

text \<open>
  The answer of the payment service is lost with a status other than \<open>InvalidArgument\<close> and
  \<open>Internal\<close>: the order is written Failed although its payment is recorded and its event published.
\<close>

lemma create_answer_lost:
  assumes "sys_inv v s" and "quiet s" and "fresh_ids s" and "valid_input i" and "key_free s (inIdempotencyKey i)"
    and "next_net s = AnswerLost c m" and "c \<noteq> InvalidArgument" and "c \<noteq> Internal"
  shows "\<exists>ord s'. run_state (CreateOrder_Execute (sys_create v) i) s =
      ((Some ord, Some (Wrapf ''payment authorization failed: '' (Status c m) [])), s') \<and>
    oID ord = uuid_seq s (uuid_pos s) \<and> orders_tab s' (oID ord) = Some ord \<and> oStatus ord = StatusFailed \<and>
    (\<exists>p. payment_of (psys s') (oID ord) = Some p \<and> pAmount p = inAmount i \<and> pStatus p = authorize_status (inAmount i)) \<and>
    published (psys s') = published (psys s) @
      events_of (wUrl v) (next_payment (psys s) (oID ord) (inAmount i)) (inCustomerEmail i)"
proof -
  define ord where "ord = placed_order s i"
  define p where "p = next_payment (psys s) (oID ord) (inAmount i)"
  let ?err = "Wrapf ''payment authorization failed: '' (Status c m) []"
  have lost: "authorize_error (StatusErr c m) = ?err" using assms(7,8) by (simp add: authorize_error_def)
  from create_then_pay [OF assms(1-5) _ ord_def p_def] assms(6) lost obtain s1 s2 where
    e: "run_state (CreateOrder_Execute (sys_create v) i) s =
        run_state (CreateOrder_pay (sys_create v) ord (TrimSpace (inCustomerEmail i))) s1"
    "faults s1 = []" "orders_tab s1 = (orders_tab s)(oID ord \<mapsto> ord\<lparr>oCreatedAt := ts_col (wPg v) (wall s)\<rparr>)"
    "run_state (PaymentClient_Authorize (grpc_stub (wTsn v) (wPayPg v) (wUrl v)) (oID ord) (oAmount ord)
      (TrimSpace (inCustomerEmail i))) s1 = (Inl ?err, s2)"
    "faults s2 = []" "orders_tab s2 = orders_tab s1"
    "psys s2 = (psys s)\<lparr>puuid_pos := Suc (Suc (puuid_pos (psys s))),
      payments_tab := payments_tab (psys s) @ [p\<lparr>pCreatedAt := ts_col (wPayPg v) (pCreatedAt p)\<rparr>],
      published := published (psys s) @ events_of (wUrl v) p (inCustomerEmail i)\<rparr>"
    by (auto simp: answer_as_def)
  have u: "uuid_in (wPg v) (oID ord) = Some (oID ord)"
    using assms(1) by (simp add: ord_def next_order_def sys_inv_def order_inv_def)
  let ?row = "ord\<lparr>oCreatedAt := ts_col (wPg v) (wall s)\<rparr>"
  from run_pay_failed [OF u _ e(4,5,6)] e(3) obtain m' where
    run: "run_state (CreateOrder_pay (sys_create v) ord (TrimSpace (inCustomerEmail i))) s1 =
      ((Some (?row\<lparr>oStatus := StatusFailed\<rparr>), Some ?err),
       s2\<lparr>orders_tab := (orders_tab s1)(oID ord \<mapsto> ?row\<lparr>oStatus := StatusFailed\<rparr>), redis := m'\<rparr>)" by auto
  let ?s4 = "s2\<lparr>orders_tab := (orders_tab s1)(oID ord \<mapsto> ?row\<lparr>oStatus := StatusFailed\<rparr>), redis := m'\<rparr>"
  have pay: "payment_of (psys s2) = (payment_of (psys s))(oID ord \<mapsto> p\<lparr>pCreatedAt := ts_col (wPayPg v) (pCreatedAt p)\<rparr>)"
    using payment_of_new [of "psys s" "p\<lparr>pCreatedAt := ts_col (wPayPg v) (pCreatedAt p)\<rparr>" "psys s2"] assms(3) e(7)
    by (simp add: p_def next_payment_def fresh_ids_def ord_def next_order_def)
  show ?thesis
  proof (rule exI [of _ "?row\<lparr>oStatus := StatusFailed\<rparr>"], rule exI [of _ ?s4], intro conjI)
    show "run_state (CreateOrder_Execute (sys_create v) i) s = ((Some (?row\<lparr>oStatus := StatusFailed\<rparr>), Some ?err), ?s4)"
      using e(1) run by simp
    show "oID (?row\<lparr>oStatus := StatusFailed\<rparr>) = uuid_seq s (uuid_pos s)" by (simp add: ord_def next_order_def)
    show "\<exists>q. payment_of (psys ?s4) (oID (?row\<lparr>oStatus := StatusFailed\<rparr>)) = Some q \<and> pAmount q = inAmount i \<and>
        pStatus q = authorize_status (inAmount i)"
      using pay by (simp add: p_def next_payment_def)
    show "published (psys ?s4) = published (psys s) @
        events_of (wUrl v) (next_payment (psys s) (oID (?row\<lparr>oStatus := StatusFailed\<rparr>)) (inAmount i)) (inCustomerEmail i)"
      using e(7) by (simp add: p_def)
  qed simp_all
qed

end
