(* ===== verification/Rest_System.thy ===== *)
theory Rest_System
  imports Wire System_Props
begin

text \<open>
  The order service over the REST adapter: the client of \<^verbatim>\<open>rest_client.go\<close> calls the HTTP interface
  of the payment service. The network loses calls as in the gRPC case. \<open>match\<close> is \<open>gin\<close>'s router on
  the address that the client asks for; \<open>routes_payments\<close> says what it has to do with the two
  addresses that the client builds. \<^verbatim>\<open>cmd/order-service/main.go\<close> wires the gRPC client; the REST
  client meets the same port, so the use cases work over it unchanged.
\<close>

section \<open>A call over HTTP\<close>

definition http_lost :: "code \<Rightarrow> string \<Rightarrow> http_err" where
  "http_lost c m = \<lparr>heDeadline = (c = DeadlineExceeded), heNet = Some (c = DeadlineExceeded), heText = m\<rparr>"

definition rest_call :: "(pay_world, http_response) state \<Rightarrow> (system, http_err + http_response) state" where
  "rest_call handler = State (\<lambda>s.
     let s0 = s\<lparr>net := tl (net s)\<rparr>
     in case next_net s of
          Unsent c m \<Rightarrow> (Inl (http_lost c m), s0)
        | outcome \<Rightarrow>
            if \<not> pay_up s then (Inl \<lparr>heDeadline = False, heNet = Some False, heText = ''connect: connection refused''\<rparr>, s0)
            else
              (case run_state handler (psys s) of (r, p) \<Rightarrow>
                 (case outcome of
                    AnswerLost c m \<Rightarrow> (Inl (http_lost c m), s0\<lparr>psys := p\<rparr>)
                  | _ \<Rightarrow> (Inr r, s0\<lparr>psys := p\<rparr>))))"

text \<open>The handlers as \<^verbatim>\<open>payment-service/cmd/payment-service/main.go\<close> builds them (lines 64 to 66).\<close>

definition payment_handlers :: "postgres \<Rightarrow> string \<Rightarrow> pay_world PayHandlers" where
  "payment_handlers pg url = NewPayHandlers (NewAuthorizePayment (payment_repo pg) (publisher_of url))
     (NewGetPaymentByOrder (payment_repo pg))"

type_synonym router = "string \<Rightarrow> string \<Rightarrow> (string \<rightharpoonup> string) option"

definition rest_do :: "wiring \<Rightarrow> (string \<Rightarrow> createPaymentRequest option) \<Rightarrow> router \<Rightarrow> system transport" where
  "rest_do v decode match q =
     rest_call (serve match (RegisterPaymentRoutes decode pay_runtime (payment_handlers (wPayPg v) (wUrl v))) q)"

definition rest_pay :: "wiring \<Rightarrow> (string \<Rightarrow> createPaymentRequest option) \<Rightarrow> router \<Rightarrow> string \<Rightarrow> (string \<Rightarrow> string option) \<Rightarrow>
    system PaymentAuthorizer" where
  "rest_pay v decode match base bad = rest_client (NewRestClient base (rest_do v decode match) bad)"

definition rest_create :: "wiring \<Rightarrow> (string \<Rightarrow> createPaymentRequest option) \<Rightarrow> router \<Rightarrow> string \<Rightarrow> (string \<Rightarrow> string option) \<Rightarrow>
    system CreateOrder" where
  "rest_create v decode match base bad = NewCreateOrder (order_repo (wPg v)) (rest_pay v decode match base bad) (sys_cache v)"

section \<open>The contract\<close>

lemma handler_create_inv:
  assumes "pay_inv pg w"
  shows "wp (Handlers_CreatePayment decode pay_runtime (payment_handlers pg url) q) (\<lambda>r w'. pay_inv pg w') w"
proof (cases "bind_createPayment decode (hqBody q)")
  case None
  then show ?thesis using assms by (simp add: Handlers_CreatePayment_def)
next
  case (Some req)
  let ?i = "\<lparr>aiOrderID = TrimSpace (cpOrderID req), aiAmount = cpAmount req, aiCustomerEmail = TrimSpace (cpCustomerEmail req)\<rparr>"
  have "wp (AuthorizePayment_Execute pay_runtime (NewAuthorizePayment (payment_repo pg) (publisher_of url)) ?i)
      (\<lambda>r w'. pay_inv pg w') w"
    by (rule wp_mono [OF pay_ports.authorize_records [OF assms]]) simp
  with Some show ?thesis
    by (auto simp: Handlers_CreatePayment_def payment_handlers_def NewPayHandlers_def wp_def split: prod.splits)
qed

lemma handler_get_inv:
  "wp (Handlers_GetPaymentByOrderID (payment_handlers pg url) param)
    (\<lambda>r w'. pay_inv pg w' = pay_inv pg w \<and> payment_of w' = payment_of w) w"
  unfolding Handlers_GetPaymentByOrderID_def GetPaymentByOrder_Execute_def Let_def
  by (auto simp: payment_handlers_def NewPayHandlers_def NewGetPaymentByOrder_def payment_repo_def
      intro!: wp_mono [OF repo_get_spec])

lemma serve_inv:
  assumes "pay_inv pg w"
  shows "wp (serve match (RegisterPaymentRoutes decode pay_runtime (payment_handlers pg url)) q) (\<lambda>r w'. pay_inv pg w') w"
proof -
  have "wp (Handlers_GetPaymentByOrderID (payment_handlers pg url) param) (\<lambda>r w'. pay_inv pg w') w" for param
    by (rule wp_mono [OF handler_get_inv]) (use assms in simp)
  with assms handler_create_inv [OF assms] show ?thesis
    by (auto simp: RegisterPaymentRoutes_def split: option.splits)
qed

lemma rest_call_effect:
  assumes "sys_inv v s" and "run_state (rest_do v decode match q) s = (r, s')"
  shows "sys_inv v s' \<and> orders_tab s' = orders_tab s"
proof -
  have "pay_inv (wPayPg v) (psys s)" using assms(1) by (simp add: sys_inv_def)
  note inv = wpD [OF serve_inv [OF this]]
  obtain x p where run: "run_state (serve match (RegisterPaymentRoutes decode pay_runtime (payment_handlers (wPayPg v) (wUrl v))) q)
      (psys s) = (x, p)" by fastforce
  have "pay_inv (wPayPg v) p" by (rule inv [OF run])
  then show ?thesis
    using assms run
    by (auto simp: rest_do_def rest_call_def sys_inv_def Let_def split: net_outcome.splits if_splits)
qed

interpretation rest: rest_transport "rest_do v decode match" orders_tab "sys_inv v" base bad
  for v decode match base bad
  by unfold_locales (rule rest_call_effect)

lemma rest_usecases:
  "order_usecases (order_repo (wPg v)) orders_tab (uuid_in (wPg v)) (sys_inv v) (rest_pay v decode match base bad)
    (sys_cache v) (sys_cached v)"
  unfolding rest_pay_def
  by (intro order_usecases.intro sys_repo rest.payment_authorizer_axioms order_usecases_axioms.intro sys_cache_laws)

interpretation rest_uc: order_usecases "order_repo (wPg v)" orders_tab "uuid_in (wPg v)" "sys_inv v"
    "rest_pay v decode match base bad" "sys_cache v" "sys_cached v" for v decode match base bad
  by (rule rest_usecases)

section \<open>Reconciliation\<close>

text \<open>
  What the client relies on of its surroundings: the address is accepted, the router finds the two
  routes of the payment service and yields the order identifier, and the decoder reads the body
  that the client wrote.
\<close>

definition routes_payments :: "router \<Rightarrow> (string \<Rightarrow> string option) \<Rightarrow> string \<Rightarrow> string \<Rightarrow> bool" where
  "routes_payments match bad base oid \<longleftrightarrow>
     (let b = TrimRight (TrimSpace base) (CHR ''/'')
      in bad (b @ ''/payments'') = None \<and> bad (b @ ''/payments/'' @ PathEscape oid) = None \<and>
         match ''/payments'' (b @ ''/payments'') \<noteq> None \<and>
         match ''/payments/:order_id'' (b @ ''/payments/'' @ PathEscape oid) = Some [''order_id'' \<mapsto> oid])"

lemma rest_authorize_again:
  assumes "pay_up s" and "net s = []" and "faults (psys s) = []" and "payment_of (psys s) oid = Some p"
    and "0 <s a" and "oid \<noteq> []" and "TrimSpace oid = oid" and "e \<noteq> []" and "routes_payments match bad base oid"
    and "decode (authorize_body oid a e) = Some \<lparr>cpOrderID = oid, cpAmount = a, cpCustomerEmail = e\<rparr>"
  shows "run_state (RestClient_Authorize (NewRestClient base (rest_do v decode match) bad) oid a e) s =
    (Inl (Sentinel ErrPaymentAlreadyRecorded), s)"
proof -
  let ?b = "TrimRight (TrimSpace base) (CHR ''/'')"
  let ?q = "\<lparr>hqMethod = ''POST'', hqURL = ?b @ ''/payments'', hqHeader = [(''Content-Type'', ''application/json'')],
    hqBody = authorize_body oid a e\<rparr>"
  have bind: "bind_createPayment decode (authorize_body oid a e) = Some \<lparr>cpOrderID = oid, cpAmount = a, cpCustomerEmail = e\<rparr>"
    using assms(5,6,8,10) by (auto simp: bind_createPayment_def createPayment_binding_def go_int_order)
  have msgs: "\<not> Contains ''payment already exists for this order'' ''amount must be greater than zero''"
    "\<not> Contains ''payment already exists for this order'' ''order_id is required''"
    "\<not> Contains ''payment already exists for this order'' ''customer_email is required''"
    "Contains ''payment already exists for this order'' ''payment already exists''"
    by simp_all
  have create: "run_state (Handlers_CreatePayment decode pay_runtime (payment_handlers (wPayPg v) (wUrl v)) ?q) (psys s) =
      (respond StatusConflict (error_body ''payment already exists for this order''), psys s)"
    using run_authorize_again [OF assms(3,4,5,6), of "wPayPg v" "publisher_of (wUrl v)" "TrimSpace e"] bind assms(7) msgs
    by (simp add: Handlers_CreatePayment_def payment_handlers_def NewPayHandlers_def perror_text_def payment_error_response_def)
  obtain ps where ps: "match ''/payments'' (?b @ ''/payments'') = Some ps"
    using assms(9) by (auto simp: routes_payments_def Let_def)
  have "run_state (rest_do v decode match ?q) s =
      (Inr (respond StatusConflict (error_body ''payment already exists for this order'')), s)"
    using assms(1,2) create ps
    by (cases s) (simp add: rest_do_def rest_call_def RegisterPaymentRoutes_def next_net_def)
  moreover have "bad (?b @ ''/payments'') = None" using assms(9) by (simp add: routes_payments_def Let_def)
  ultimately show ?thesis
    by (simp add: RestClient_Authorize_def NewRestClient_def authorize_answer_def respond_def http_codes)
qed

lemma rest_get_status:
  assumes "pay_up s" and "net s = []" and "faults (psys s) = []" and "payment_of (psys s) oid = Some p"
    and "oid \<noteq> []" and "TrimSpace oid = oid" and "routes_payments match bad base oid"
    and "length (render (getPaymentResponse p)) \<le> 1048576"
  shows "run_state (RestClient_GetStatus (NewRestClient base (rest_do v decode match) bad) oid) s =
    (Inr (to_valid (pStatus p)), s)"
proof -
  let ?b = "TrimRight (TrimSpace base) (CHR ''/'')"
  let ?q = "\<lparr>hqMethod = ''GET'', hqURL = ?b @ ''/payments/'' @ PathEscape oid, hqHeader = [], hqBody = []\<rparr>"
  have get: "run_state (Handlers_GetPaymentByOrderID (payment_handlers (wPayPg v) (wUrl v)) oid) (psys s) =
      (respond StatusOK (getPaymentResponse p), psys s)"
    using assms(3-6)
    by (simp add: Handlers_GetPaymentByOrderID_def payment_handlers_def NewPayHandlers_def GetPaymentByOrder_Execute_def
        NewGetPaymentByOrder_def payment_repo_def repo_GetByOrderID_def sql_get_payment_def)
  have r: "match ''/payments/:order_id'' (?b @ ''/payments/'' @ PathEscape oid) = Some [''order_id'' \<mapsto> oid]"
    "bad (?b @ ''/payments/'' @ PathEscape oid) = None"
    using assms(7) by (simp_all add: routes_payments_def Let_def)
  then have "run_state (rest_do v decode match ?q) s = (Inr (respond StatusOK (getPaymentResponse p)), s)"
    using assms(1,2) get
    by (cases s) (simp add: rest_do_def rest_call_def RegisterPaymentRoutes_def next_net_def Param_def)
  moreover have "status_answer (respond StatusOK (getPaymentResponse p)) = Inr (to_valid (pStatus p))"
    using assms(8) getPaymentResponse_read [of p] by (simp add: status_answer_def respond_def read_limited_def http_codes)
  ultimately show ?thesis
    using r(2) assms(6) by (simp add: RestClient_GetStatus_def NewRestClient_def)
qed

text \<open>
  Over REST a Pending order whose payment is recorded is settled by the retry: the payment service
  answers 409, the use case asks for the payment's status and writes the order's.
\<close>

lemma rest_retry_settles:
  assumes "sys_inv v s" and "quiet s" and "net s = []" and "valid_input i" and "key_used (inIdempotencyKey i) = Some k"
    and "idem_tab s k = Some oid" and "orders_tab s oid = Some ord" and "oStatus ord = StatusPending"
    and "payment_of (psys s) oid = Some p" and "oid \<noteq> []" and "TrimSpace oid = oid"
    and "routes_payments match bad base oid" and "length (render (getPaymentResponse p)) \<le> 1048576"
    and "decode (authorize_body oid (oAmount ord) (TrimSpace (inCustomerEmail i))) =
      Some \<lparr>cpOrderID = oid, cpAmount = oAmount ord, cpCustomerEmail = TrimSpace (inCustomerEmail i)\<rparr>"
  shows "\<exists>m. run_state (CreateOrder_Execute (rest_create v decode match base bad) i) s =
    ((Some (ord\<lparr>oStatus := newStatus (pStatus p)\<rparr>), None),
     s\<lparr>orders_tab := (orders_tab s)(oid \<mapsto> ord\<lparr>oStatus := newStatus (pStatus p)\<rparr>), redis := m\<rparr>)"
proof -
  have inv: "order_inv (wPg v) s" and pinv: "pay_inv (wPayPg v) (psys s)" and f: "faults s = []"
    and up: "pay_up s" and pf: "faults (psys s) = []"
    using assms(1,2) by (simp_all add: sys_inv_def quiet_def pay_quiet_def)
  note row = inv_row [OF inv assms(7)]
  let ?e = "TrimSpace (inCustomerEmail i)"
  let ?st = "newStatus (pStatus p)"
  let ?uc = "rest_create v decode match base bad"
  have e: "?e \<noteq> []" using assms(4) by (simp add: valid_input_def)
  have auth: "run_state (RestClient_Authorize (NewRestClient base (rest_do v decode match) bad) oid (oAmount ord) ?e) s =
      (Inl (Sentinel ErrPaymentAlreadyRecorded), s)"
    by (rule rest_authorize_again [where decode = decode, OF up assms(3) pf assms(9) _ assms(10,11) e assms(12,14)]) (use row in simp)
  have "p \<in> set (payments_tab (psys s))"
    using assms(9) payment_of_mem by blast
  then have "pStatus p = StatusAuthorized \<or> pStatus p = StatusDeclined" using pinv by (auto simp: pay_inv_def)
  then have "valid_utf8 (pStatus p)"
    by (auto intro!: ascii_valid simp: StatusAuthorized_def StatusDeclined_def byte_def)
  then have status: "run_state (RestClient_GetStatus (NewRestClient base (rest_do v decode match) bad) oid) s = (Inr (pStatus p), s)"
    using rest_get_status [OF up assms(3) pf assms(9-13)] by (simp add: to_valid_valid)
  let ?s1 = "s\<lparr>orders_tab := (orders_tab s)(oid \<mapsto> ord\<lparr>oStatus := ?st\<rparr>)\<rparr>"
  have upd: "run_state (repo_UpdateStatus (wPg v) oid ?st) s = (None, ?s1)"
    using run_update_ok [OF f _ assms(7), of "wPg v" oid ?st] row by (simp add: newStatus_def statuses_def)
  have "faults ?s1 = []" using f by simp
  from run_invalidate_ok [OF this, of v oid] obtain m where
    "run_state (invalidate (sys_create v) oid) ?s1 = ((), ?s1\<lparr>redis := m\<rparr>)" by blast
  then have inval: "run_state (invalidate ?uc oid) ?s1 = ((), ?s1\<lparr>redis := m\<rparr>)"
    by (simp add: invalidate_def rest_create_def NewCreateOrder_def)
  have pay: "run_state (CreateOrder_pay ?uc ord ?e) s =
      ((Some (ord\<lparr>oStatus := ?st\<rparr>), None), ?s1\<lparr>redis := m\<rparr>)"
    using auth status upd inval row
    by (simp add: CreateOrder_pay_def reconcileFromPaymentService_def rest_create_def NewCreateOrder_def rest_pay_def)
  have "\<not> inAmount i \<le>s 0" using assms(4) by (simp add: valid_input_def go_int_order)
  then have "run_state (CreateOrder_Execute ?uc i) s = run_state (CreateOrder_pay ?uc ord ?e) s"
    using run_create_replay [OF f inv assms(5-7)] assms(4,8)
    by (simp add: CreateOrder_Execute_def Let_def valid_input_def rest_create_def NewCreateOrder_def)
  with pay show ?thesis by auto
qed

end
