(* ===== verification/Order_Http.thy ===== *)
theory Order_Http
  imports Http Go_Time Order_Usecase
begin

text \<open>
  The HTTP interface of the order service (\<^verbatim>\<open>order-service/internal/transport/http\<close>): the request
  body with its binding tags, the three handlers, the body of a response and the routes. A handler
  is a computation over the use cases' state that yields the response. The JSON decoder and the
  router are \<open>gin\<close>'s and so parameters: \<open>decode\<close> reads a body into the fields of the
  request, \<open>match\<close> matches a path against the pattern of a route and yields the path parameters.
  \<open>gin.H\<close> is a map, which \<open>encoding/json\<close> writes with its keys in order.
\<close>

section \<open>The request\<close>

record createOrderRequest =
  crCustomerID :: string
  crCustomerEmail :: string
  crItemName :: string
  crAmount :: int64

text \<open>The tags \<open>binding:"required"\<close> and \<open>binding:"required,gt=0"\<close>.\<close>

definition createOrder_binding :: "createOrderRequest \<Rightarrow> bool" where
  "createOrder_binding r \<longleftrightarrow> crCustomerID r \<noteq> [] \<and> crCustomerEmail r \<noteq> [] \<and> crItemName r \<noteq> [] \<and>
     crAmount r \<noteq> 0 \<and> 0 <s crAmount r"

definition bind_createOrder :: "(string \<Rightarrow> createOrderRequest option) \<Rightarrow> string \<Rightarrow> createOrderRequest option" where
  "bind_createOrder decode body =
     (case decode body of None \<Rightarrow> None | Some r \<Rightarrow> if createOrder_binding r then Some r else None)"

section \<open>The response\<close>

definition toOrderResponse :: "Order option \<Rightarrow> json" where
  "toOrderResponse x =
     (case x of
        None \<Rightarrow> JNull
      | Some ord \<Rightarrow> JObj
          [(''amount'', JNum (int_text (sint (oAmount ord)))), (''created_at'', JStr (FormatRFC3339 (oCreatedAt ord))),
           (''customer_id'', JStr (oCustomerID ord)), (''id'', JStr (oID ord)), (''item_name'', JStr (oItemName ord)),
           (''status'', JStr (oStatus ord))])"

definition error_with_order :: "string \<Rightarrow> Order option \<Rightarrow> json" where
  "error_with_order m x = JObj [(''error'', JStr m), (''order'', toOrderResponse x)]"

section \<open>The handlers\<close>

record 'w Handlers =
  hCreate :: "'w CreateOrder"
  hGet :: "'w GetOrder"
  hCancel :: "'w CancelOrder"

definition NewHandlers :: "'w CreateOrder \<Rightarrow> 'w GetOrder \<Rightarrow> 'w CancelOrder \<Rightarrow> 'w Handlers" where
  "NewHandlers c g x = \<lparr>hCreate = c, hGet = g, hCancel = x\<rparr>"

definition uerror_text :: "uerror \<Rightarrow> string" where
  "uerror_text e = error_text usecase_error_text e"

text \<open>The answer to what the use case returned (lines 43 to 62).\<close>

definition create_response :: "Order option \<times> uerror option \<Rightarrow> http_response" where
  "create_response r =
     (case r of
        (order, None) \<Rightarrow> respond StatusOK (toOrderResponse order)
      | (order, Some err) \<Rightarrow>
          if errors_Is err ErrInvalidInput
          then respond StatusBadRequest (error_body ''customer_id, customer_email, item_name, and amount > 0 are required'')
          else if errors_Is err ErrPaymentUnavailable
          then respond StatusServiceUnavailable (error_with_order ''payment service unavailable'' order)
          else respond StatusBadGateway (error_with_order (uerror_text err) order))"

definition idempotency_key :: "http_request \<Rightarrow> string option" where
  "idempotency_key q =
     (let v = TrimSpace (Header_Get ''Idempotency-Key'' (hqHeader q)) in if v \<noteq> [] then Some v else None)"

definition Handlers_CreateOrder ::
    "(string \<Rightarrow> createOrderRequest option) \<Rightarrow> 'w Handlers \<Rightarrow> http_request \<Rightarrow> ('w, http_response) state" where
  "Handlers_CreateOrder decode h q =
     (case bind_createOrder decode (hqBody q) of
        None \<Rightarrow> State_Monad.return (respond StatusBadRequest (error_body ''invalid json body''))
      | Some req \<Rightarrow> do {
          r \<leftarrow> CreateOrder_Execute (hCreate h)
                 \<lparr>inCustomerID = crCustomerID req, inCustomerEmail = crCustomerEmail req, inItemName = crItemName req,
                  inAmount = crAmount req, inIdempotencyKey = idempotency_key q\<rparr>;
          State_Monad.return (create_response r)
        })"

definition Handlers_GetOrder :: "'w Handlers \<Rightarrow> string \<Rightarrow> ('w, http_response) state" where
  "Handlers_GetOrder h param = do {
     r \<leftarrow> GetOrder_Execute (hGet h) (TrimSpace param);
     State_Monad.return
       (case r of
          Inl err \<Rightarrow>
            if errors_Is err ErrOrderNotFound then respond StatusNotFound (error_body ''order not found'')
            else respond StatusInternalServerError (error_body ''internal error'')
        | Inr order \<Rightarrow> respond StatusOK (toOrderResponse (Some order)))
   }"

definition Handlers_CancelOrder :: "'w Handlers \<Rightarrow> string \<Rightarrow> ('w, http_response) state" where
  "Handlers_CancelOrder h param = do {
     r \<leftarrow> CancelOrder_Execute (hCancel h) (TrimSpace param);
     State_Monad.return
       (case r of
          Inl err \<Rightarrow>
            if errors_Is err ErrOrderNotFound then respond StatusNotFound (error_body ''order not found'')
            else if errors_Is err ErrCancelNotAllowed
            then respond StatusConflict
              (error_body ''only pending orders can be cancelled; Paid, Failed, and Cancelled orders cannot'')
            else respond StatusInternalServerError (error_body ''internal error'')
        | Inr order \<Rightarrow> respond StatusOK (toOrderResponse (Some order)))
   }"

section \<open>The routes\<close>

definition RegisterRoutes :: "(string \<Rightarrow> createOrderRequest option) \<Rightarrow> 'w Handlers \<Rightarrow> 'w route list" where
  "RegisterRoutes decode h =
     [(''POST'', ''/orders'', \<lambda>ps q. Handlers_CreateOrder decode h q),
      (''GET'', ''/orders/:id'', \<lambda>ps q. Handlers_GetOrder h (Param ps ''id'')),
      (''PATCH'', ''/orders/:id/cancel'', \<lambda>ps q. Handlers_CancelOrder h (Param ps ''id''))]"

section \<open>What a client learns from a response\<close>

text \<open>The status code of a creation says which of the results the use case had.\<close>

lemma create_response_status:
  "hrStatus (create_response (x, e)) =
     (case e of
        None \<Rightarrow> 200
      | Some err \<Rightarrow> if errors_Is err ErrInvalidInput then 400 else if errors_Is err ErrPaymentUnavailable then 503 else 502)"
  by (simp add: create_response_def respond_def http_codes split: option.splits)

end
