(* ===== verification/System_Stuck.thy ===== *)
theory System_Stuck
  imports System_Props
begin

text \<open>
  An order whose payment is recorded but that is not Paid. The payment is saved before its event
  is published, so a broker that refuses the event leaves such an order behind: the server
  answers \<open>Internal\<close>, the client reports \<open>ErrPaymentUnavailable\<close>, the order stays Pending. A second
  authorization is refused because the payment is there, and over gRPC the refusal is again
  \<open>Internal\<close>: no run of the two services ever makes that order Paid.
\<close>

section \<open>A recorded payment stops the order from becoming Paid\<close>

text \<open>The contract of \<open>paid_orders\<close> once more, with ``is another order'' for ``is paid''.\<close>

definition recorded_inv :: "wiring \<Rightarrow> string \<Rightarrow> system \<Rightarrow> bool" where
  "recorded_inv v k s \<longleftrightarrow> sys_inv v s \<and> payment_of (psys s) k \<noteq> None"

definition recorded_part :: "wiring \<Rightarrow> string \<Rightarrow> (unit system_ext) \<Rightarrow> bool" where
  "recorded_part v k m \<longleftrightarrow> pay_part v m \<and> (\<forall>s. order_world.more s = m \<longrightarrow> payment_of (psys s) k \<noteq> None)"

lemma recorded_inv_more: "recorded_inv v k = (\<lambda>s. order_inv (wPg v) s \<and> recorded_part v k (order_world.more s))"
proof
  fix s :: system
  have "(\<forall>t. order_world.more t = order_world.more s \<longrightarrow> payment_of (psys t) k \<noteq> None) \<longleftrightarrow> payment_of (psys s) k \<noteq> None"
    by (metis psys_more)
  then show "recorded_inv v k s \<longleftrightarrow> order_inv (wPg v) s \<and> recorded_part v k (order_world.more s)"
    by (simp add: recorded_inv_def recorded_part_def sys_inv_more)
qed

lemma recorded_usecases:
  "order_usecases (order_repo (wPg v)) orders_tab (uuid_in (wPg v)) (recorded_inv v k) (sys_pay v) (sys_cache v) (sys_cached v)"
proof (intro order_usecases.intro order_usecases_axioms.intro)
  show "order_repository (order_repo (wPg v)) orders_tab (uuid_in (wPg v)) (recorded_inv v k)"
    unfolding recorded_inv_more by (rule pg_repo.order_repository_axioms)
  show "payment_authorizer (sys_pay v) orders_tab (recorded_inv v k)"
  proof (unfold_locales, goal_cases)
    case (1 w i a e r w')
    then show ?case using wpD [OF authorize_call, of v w i a e r w'] by (fastforce simp: recorded_inv_def sys_pay_def)
  next
    case (2 w i q w')
    then show ?case using wpD [OF status_call, of v w i q w'] by (simp add: recorded_inv_def sys_pay_def)
  qed
  show "order_cache c orders_tab (recorded_inv v k) (sys_cached v)" if "sys_cache v = Some c" for c
  proof -
    from that obtain x where x: "wCache v = Some x" "c = order_cache_store x" by (auto simp: sys_cache_def)
    then have "sys_cached v = cached x" by (simp add: sys_cached_def fun_eq_iff)
    with x show ?thesis unfolding recorded_inv_more by (simp add: redis_cache.order_cache_axioms)
  qed
qed

interpretation recorded: paid_orders "order_repo (wPg v)" orders_tab "uuid_in (wPg v)" "recorded_inv v k" "sys_pay v"
    "sys_cache v" "sys_cached v" "\<lambda>_ i _. i \<noteq> k" for v k
proof (rule paid_orders.intro [OF recorded_usecases], unfold_locales, goal_cases)
  case (9 w i a e t w')
  then have "payment_of (psys w) i = None"
    using wpD [OF authorize_call, of v w i a e "Inr (t, paymentStatusAuthorized)" w']
    by (simp add: recorded_inv_def sys_pay_def)
  with 9 show ?case by (auto simp: recorded_inv_def)
next
  case (10 w i a e w1 w2)
  then show ?case using wpD [OF authorize_not_recorded] by (fastforce simp: sys_pay_def)
qed simp_all

lemma recorded_unpaid: "recorded.paid_inv v k s \<longleftrightarrow> recorded_inv v k s \<and>
    (\<forall>ord. orders_tab s k = Some ord \<longrightarrow> oStatus ord \<noteq> StatusPaid)"
  by (auto simp: recorded.paid_inv_def)

lemma recorded_step:
  assumes "recorded.paid_inv v k s" and "sys_step v ttl s s'"
  shows "recorded.paid_inv v k s'"
proof -
  have inv: "sys_inv v s" using assms(1) by (simp add: recorded_unpaid recorded_inv_def)
  from assms(2) show ?thesis
  proof cases
    case (place i r)
    then show ?thesis using wpD [OF recorded.create_keeps_paid [OF assms(1)], folded sys_create_def] by simp
  next
    case (look i r)
    then show ?thesis using wpD [OF recorded.get_keeps_paid [OF assms(1)], folded sys_get_def] by simp
  next
    case (cancel i r)
    then show ?thesis using wpD [OF recorded.cancel_keeps_paid [OF assms(1)], folded sys_cancel_def] by simp
  next
    case (authorize req r)
    then show ?thesis using stub_authorize_call [OF inv authorize] assms(1)
      by (auto simp: recorded_unpaid recorded_inv_def)
  next
    case (ask q r)
    then show ?thesis using stub_status_call [OF inv ask] assms(1) by (auto simp: recorded_unpaid recorded_inv_def)
  next
    case outside
    then show ?thesis using assms(1) by (simp add: recorded_unpaid recorded_inv_def)
  qed
qed

lemma recorded_runs:
  assumes "(sys_step v ttl)\<^sup>*\<^sup>* s s'" and "recorded.paid_inv v k s"
  shows "recorded.paid_inv v k s'"
  using assms by (induction rule: rtranclp_induct) (auto intro: recorded_step)

section \<open>The broker refuses the event\<close>

lemma run_publish_refused:
  assumes "faults w = []" and "confirms w = []" and "confirm_events w = [InTime False]"
  shows "run_state (Publisher_PublishPaymentCompleted ev) w =
    (Some (Errorf ''broker did not ack publish''), w\<lparr>confirm_events := [],
       published := published w @ [(exchangeName, routingPaymentCompleted, completed_body ev)]\<rparr>)"
  using assms
  by (cases w) (simp add: Publisher_PublishPaymentCompleted_def amqp_publish_def await_confirm_def ack_result_def)

lemma run_authorize_refused:
  assumes "faults w = []" and "confirms w = []" and "confirm_events w = [InTime False]"
    and "pay_inv pg w" and "pay_fresh w i" and "0 <s a" and "a \<le>s MaxAuthorizedAmountCents" and "i \<noteq> []"
    and "TrimSpace e \<noteq> []" and "url \<noteq> []" and "p = next_payment w i a"
  shows "\<exists>w'. run_state (AuthorizePayment_Execute pay_runtime (NewAuthorizePayment (payment_repo pg) (publisher_of url))
      \<lparr>aiOrderID = i, aiAmount = a, aiCustomerEmail = e\<rparr>) w =
    (Inl (Wrapf ''publish payment completed event: '' (Errorf ''broker did not ack publish'') []), w') \<and>
    payments_tab w' = payments_tab w @ [p\<lparr>pCreatedAt := ts_col pg (pCreatedAt p)\<rparr>]"
proof -
  have none: "payment_of w i = None" using assms(5) by (auto simp: payment_of_None pay_fresh_def)
  let ?w2 = "w\<lparr>puuid_pos := Suc (Suc (puuid_pos w))\<rparr>"
  let ?w3 = "?w2\<lparr>payments_tab := payments_tab w @ [p\<lparr>pCreatedAt := ts_col pg (pCreatedAt p)\<rparr>]\<rparr>"
  note save = run_save_ok [OF assms(1,4,5,6,11) refl, of "Suc (Suc (puuid_pos w))"]
  have st: "pStatus p = StatusAuthorized"
    using assms(7,11) by (simp add: next_payment_def authorize_status_def go_int_order)
  have "\<exists>w'. run_state (publish_completed (NewAuthorizePayment (payment_repo pg) (publisher_of url)) p e) ?w3 =
      (Inl (Wrapf ''publish payment completed event: '' (Errorf ''broker did not ack publish'') []), w') \<and>
      payments_tab w' = payments_tab ?w3"
    using assms(9,10) st run_publish_refused [of ?w3] assms(1-3)
    by (simp add: publish_completed_def NewAuthorizePayment_def publisher_of_def amqp_publisher_def)
  moreover have "\<not> a \<le>s 0" using assms(6) by (simp add: go_int_order)
  ultimately show ?thesis
    using assms(1,8,11) none save
    by (simp add: AuthorizePayment_Execute_def NewAuthorizePayment_def payment_repo_def repo_GetByOrderID_def
        sql_get_payment_def pay_runtime_def next_payment_def Let_def)
qed

lemma run_client_refused:
  assumes "sys_inv v s" and "pay_up s" and "net s = []" and "faults (psys s) = []" and "confirms (psys s) = []"
    and "confirm_events (psys s) = [InTime False]" and "pay_fresh (psys s) i" and "0 <s a"
    and "a \<le>s MaxAuthorizedAmountCents" and "i \<noteq> []" and "TrimSpace e \<noteq> []" and "wUrl v \<noteq> []"
    and "p = next_payment (psys s) i a"
  shows "\<exists>l w'. run_state (PaymentClient_Authorize (grpc_stub (wTsn v) (wPayPg v) (wUrl v)) i a e) s =
    (Inl (Sentinel ErrPaymentUnavailable), s\<lparr>plog := l, psys := w'\<rparr>) \<and>
    payments_tab w' = payments_tab (psys s) @ [p\<lparr>pCreatedAt := ts_col (wPayPg v) (pCreatedAt p)\<rparr>]"
proof -
  let ?req = "\<lparr>arqOrderId = i, arqAmount = a, arqCustomerEmail = e\<rparr>"
  have "pay_inv (wPayPg v) (psys s)" using assms(1) by (simp add: sys_inv_def)
  from run_authorize_refused [OF assms(4-6) this assms(7-13)] obtain w' where
    w': "run_state (AuthorizePayment_Execute pay_runtime (NewAuthorizePayment (payment_repo (wPayPg v)) (publisher_of (wUrl v)))
        \<lparr>aiOrderID = i, aiAmount = a, aiCustomerEmail = e\<rparr>) (psys s) =
      (Inl (Wrapf ''publish payment completed event: '' (Errorf ''broker did not ack publish'') []), w')"
    "payments_tab w' = payments_tab (psys s) @ [p\<lparr>pCreatedAt := ts_col (wPayPg v) (pCreatedAt p)\<rparr>]" by blast
  have "\<not> a \<le>s 0" using assms(8) by (simp add: go_int_order)
  then have "\<exists>m. run_state (Server_AuthorizePayment (wTsn v) pay_runtime (payment_server (wPayPg v) (wUrl v)) ?req) (psys s) =
      (Fail Internal m, w')"
    using w'(1) assms(10) by (simp add: Server_AuthorizePayment_def perror_text_def)
  then obtain m where "run_state (Server_AuthorizePayment (wTsn v) pay_runtime (payment_server (wPayPg v) (wUrl v)) ?req) (psys s) =
      (Fail Internal m, w')" ..
  then show ?thesis
    using assms(2,3) w'(2) by (cases s)
      (auto simp: PaymentClient_Authorize_def grpc_stub_def rpc_call_def run_interceptor authorize_error_def)
qed

text \<open>The order stays Pending with an authorized payment.\<close>

lemma create_refused:
  assumes "sys_inv v s" and "faults s = []" and "pay_up s" and "net s = []" and "faults (psys s) = []"
    and "confirms (psys s) = []" and "confirm_events (psys s) = [InTime False]"
    and "fresh_ids s" and "valid_input i" and "key_free s (inIdempotencyKey i)"
    and "inAmount i \<le>s MaxAuthorizedAmountCents" and "wUrl v \<noteq> []"
  shows "\<exists>ord s' p. run_state (CreateOrder_Execute (sys_create v) i) s =
      ((Some ord, Some (Sentinel ErrPaymentUnavailable)), s') \<and>
    orders_tab s' (oID ord) = Some ord \<and> oStatus ord = StatusPending \<and> oAmount ord = inAmount i \<and>
    payment_of (psys s') (oID ord) = Some p \<and> pStatus p = StatusAuthorized \<and> pAmount p = inAmount i"
proof -
  define ord where "ord = placed_order s i"
  define p where "p = next_payment (psys s) (oID ord) (inAmount i)"
  from create_inserts [OF assms(1,2,8,9,10) ord_def] obtain s1 where
    s1: "run_state (CreateOrder_Execute (sys_create v) i) s =
      run_state (CreateOrder_pay (sys_create v) ord (TrimSpace (inCustomerEmail i))) s1"
    "sys_inv v s1" "faults s1 = []" "psys s1 = psys s" "net s1 = net s" "pay_up s1 = pay_up s"
    "orders_tab s1 = (orders_tab s)(oID ord \<mapsto> ord\<lparr>oCreatedAt := ts_col (wPg v) (wall s)\<rparr>)" by blast
  have o: "oID ord \<noteq> []" "oAmount ord = inAmount i" "oStatus ord = StatusPending" "pay_fresh (psys s) (oID ord)"
    using assms(8) by (simp_all add: ord_def next_order_def fresh_ids_def)
  from run_client_refused [OF s1(2), of "oID ord" "inAmount i" "TrimSpace (inCustomerEmail i)" p] obtain l w' where
    call: "run_state (PaymentClient_Authorize (grpc_stub (wTsn v) (wPayPg v) (wUrl v)) (oID ord) (inAmount i)
      (TrimSpace (inCustomerEmail i))) s1 = (Inl (Sentinel ErrPaymentUnavailable), s1\<lparr>plog := l, psys := w'\<rparr>)"
    "payments_tab w' = payments_tab (psys s) @ [p\<lparr>pCreatedAt := ts_col (wPayPg v) (pCreatedAt p)\<rparr>]"
    using assms(3-7,9,11,12) s1(4-6) o by (auto simp: p_def valid_input_def)
  let ?s2 = "s1\<lparr>plog := l, psys := w'\<rparr>"
  let ?row = "ord\<lparr>oCreatedAt := ts_col (wPg v) (wall s)\<rparr>"
  have u: "uuid_in (wPg v) (oID ord) = Some (oID ord)"
    using assms(1) by (simp add: ord_def next_order_def sys_inv_def order_inv_def)
  have "run_state (repo_GetByID (wPg v) (oID ord)) ?s2 = (Inr (Some ?row), ?s2)"
    using run_get_ok [of ?s2 "wPg v" "oID ord" "oID ord"] s1(3,7) u by simp
  then have "run_state (CreateOrder_Execute (sys_create v) i) s = ((Some ?row, Some (Sentinel ErrPaymentUnavailable)), ?s2)"
    using s1(1) call(1) o(2) by (simp add: CreateOrder_pay_def sys_pay_def)
  moreover have "payment_of w' (oID ord) = Some (p\<lparr>pCreatedAt := ts_col (wPayPg v) (pCreatedAt p)\<rparr>)"
    using payment_of_new [OF _ call(2)] o(4) by (simp add: p_def next_payment_def)
  moreover have "pStatus p = StatusAuthorized" "pAmount p = inAmount i"
    using assms(11) by (simp_all add: p_def next_payment_def authorize_status_def go_int_order)
  ultimately show ?thesis
    using s1(7) o by (intro exI [of _ ?row] exI [of _ ?s2] exI conjI) (assumption | simp)+
qed

end
