(* ===== verification/Order_Stream.thy ===== *)
theory Order_Stream
  imports Order_Domain Postgres
begin

text \<open>
  The streaming server of the order service (\<^verbatim>\<open>order-service/internal/transport/grpc/server.go\<close>). Its
  state is the map from the requested order identifier to the subscribers, the statuses the
  monitor saw last, the \<open>done\<close> channel of each subscriber (closed or not), and where each goroutine
  is: handlers that have read their order (\<open>admitted\<close>), that are registered and about to send
  (\<open>starting\<close>), that wait on \<open>done\<close> (\<open>waiting\<close>); the monitor with the identifiers of its tick that it has
  still to check (\<open>to_check\<close>) and the change it is about to tell the subscribers of (\<open>noticed\<close>); the
  goroutines that are about to send (\<open>pending\<close>); and what each stream received. A subscriber is
  known by a number. The orders table is the database that other requests change.

  The operations are functions; \<open>stream_step\<close> interleaves them. Which identifiers a tick lists first,
  which reads fail and which sends fail are arbitrary.
\<close>

record OrderStatusUpdate =
  ouOrderId :: string
  ouCustomerId :: string
  ouItemName :: string
  ouAmount :: int64
  ouStatus :: string
  ouUpdatedAt :: "int \<times> int"

record OrderServer =
  subs :: "string \<rightharpoonup> nat list"
  sub_order :: "nat \<rightharpoonup> string"
  next_sub :: nat
  closed :: "nat list"
  admitted :: "(string \<times> Order) list"
  starting :: "(nat \<times> Order) list"
  waiting :: "nat list"
  to_check :: "string list"
  noticed :: "(string \<times> Order) option"
  pending :: "(nat \<times> OrderStatusUpdate) list"
  received :: "nat \<Rightarrow> OrderStatusUpdate list"
  lastStatuses :: "string \<rightharpoonup> string"
  stopped :: bool
  monitor_done :: bool
  crashed :: bool
  sdb :: order_table

definition NewOrderServer :: "order_table \<Rightarrow> OrderServer" where
  "NewOrderServer db = \<lparr>subs = Map.empty, sub_order = Map.empty, next_sub = 0, closed = [], admitted = [], starting = [],
     waiting = [], to_check = [], noticed = None, pending = [], received = (\<lambda>_. []), lastStatuses = Map.empty,
     stopped = False, monitor_done = False, crashed = False, sdb = db\<rparr>"

section \<open>Operations\<close>

definition getOrder :: "postgres \<Rightarrow> (string \<Rightarrow> bool) \<Rightarrow> order_table \<Rightarrow> string \<Rightarrow> Order option" where
  "getOrder pg bad db i =
     (if bad i then None else case uuid_in pg i of None \<Rightarrow> None | Some k \<Rightarrow> db k)"

definition status_update :: "int \<times> int \<Rightarrow> Order \<Rightarrow> OrderStatusUpdate" where
  "status_update now ord = \<lparr>ouOrderId = oID ord, ouCustomerId = oCustomerID ord, ouItemName = oItemName ord,
     ouAmount = oAmount ord, ouStatus = oStatus ord, ouUpdatedAt = now\<rparr>"

text \<open>A Go map of slices reads as the empty slice where it has no key.\<close>

definition listed :: "(string \<rightharpoonup> nat list) \<Rightarrow> string \<Rightarrow> nat list" where
  "listed m i = (case m i of None \<Rightarrow> [] | Some l \<Rightarrow> l)"

lemma listed_upd [simp]:
  "listed (m(i \<mapsto> l)) j = (if j = i then l else listed m j)"
  "listed (m(i := None)) j = (if j = i then [] else listed m j)"
  by (simp_all add: listed_def)

abbreviation subs_of :: "OrderServer \<Rightarrow> string \<Rightarrow> nat list" where
  "subs_of s i \<equiv> listed (subs s) i"

text \<open>
  \<open>SubscribeToOrderUpdates\<close> up to its look at the order (lines 55 to 63): \<open>Inl\<close> when it returns at once,
  otherwise the order it read, with which it goes on.
\<close>

definition SubscribeToOrderUpdates ::
    "postgres \<Rightarrow> (string \<Rightarrow> bool) \<Rightarrow> string \<Rightarrow> OrderServer \<Rightarrow> (unit error + Order) \<times> OrderServer" where
  "SubscribeToOrderUpdates pg bad i s =
     (if i = [] then (Inl (Status InvalidArgument ''order_id is required''), s)
      else
        (case getOrder pg bad (sdb s) i of
           None \<Rightarrow> (Inl (Status NotFound (''order not found: '' @ i)), s)
         | Some order \<Rightarrow> (Inr order, s\<lparr>admitted := admitted s @ [(i, order)]\<rparr>)))"

text \<open>The registration (lines 65 to 74), under the lock.\<close>

definition register :: "string \<times> Order \<Rightarrow> OrderServer \<Rightarrow> OrderServer" where
  "register x s =
     (case x of (i, order) \<Rightarrow>
        let n = next_sub s
        in s\<lparr>next_sub := Suc n, sub_order := (sub_order s)(n \<mapsto> i), subs := (subs s)(i \<mapsto> subs_of s i @ [n]),
             admitted := remove1 x (admitted s), starting := starting s @ [(n, order)]\<rparr>)"

text \<open>
  The first send (lines 79 to 91). When it fails the handler returns, and leaves the subscriber
  registered; otherwise the handler waits on \<open>done\<close>.
\<close>

definition send_initial :: "int \<times> int \<Rightarrow> nat \<times> Order \<Rightarrow> string option \<Rightarrow> OrderServer \<Rightarrow> unit error option \<times> OrderServer" where
  "send_initial now x sendErr s =
     (case x of (n, order) \<Rightarrow>
        let s1 = s\<lparr>starting := remove1 x (starting s)\<rparr>
        in case sendErr of
             Some e \<Rightarrow> (Some (Errorf e), s1)
           | None \<Rightarrow> (None, s1\<lparr>received := (received s1)(n := received s1 n @ [status_update now order]),
                               waiting := waiting s1 @ [n]\<rparr>))"

text \<open>The loop over a snapshot of the subscribers (lines 165 to 185): one goroutine each.\<close>

definition notifySubscribers :: "int \<times> int \<Rightarrow> string \<Rightarrow> Order \<Rightarrow> OrderServer \<Rightarrow> OrderServer" where
  "notifySubscribers now i order s =
     s\<lparr>noticed := None, pending := pending s @ map (\<lambda>n. (n, status_update now order)) (subs_of s i)\<rparr>"

text \<open>
  One round of the loop of \<open>checkForUpdates\<close> (lines 123 to 139), up to the call of
  \<open>notifySubscribers\<close>; \<open>lastStatuses\<close> belongs to the monitor alone.
\<close>

definition check_order :: "postgres \<Rightarrow> (string \<Rightarrow> bool) \<Rightarrow> string \<Rightarrow> OrderServer \<Rightarrow> OrderServer" where
  "check_order pg bad i s =
     (case getOrder pg bad (sdb s) i of
        None \<Rightarrow> s
      | Some order \<Rightarrow>
          (case lastStatuses s i of
             None \<Rightarrow> s\<lparr>lastStatuses := (lastStatuses s)(i \<mapsto> oStatus order)\<rparr>
           | Some lastStatus \<Rightarrow>
               if oStatus order \<noteq> lastStatus
               then s\<lparr>lastStatuses := (lastStatuses s)(i \<mapsto> oStatus order), noticed := Some (i, order)\<rparr>
               else s))"

text \<open>
  The rounds in a row, without an interruption by another goroutine; \<open>ids\<close> is the order in which the
  map's keys were listed.
\<close>

definition check_and_notify :: "postgres \<Rightarrow> (string \<Rightarrow> bool) \<Rightarrow> int \<times> int \<Rightarrow> string \<Rightarrow> OrderServer \<Rightarrow> OrderServer" where
  "check_and_notify pg bad now i s =
     (let s1 = check_order pg bad i s
      in case noticed s1 of None \<Rightarrow> s1 | Some (j, order) \<Rightarrow> notifySubscribers now j order s1)"

definition checkForUpdates ::
    "postgres \<Rightarrow> (string \<Rightarrow> bool) \<Rightarrow> int \<times> int \<Rightarrow> string list \<Rightarrow> OrderServer \<Rightarrow> OrderServer" where
  "checkForUpdates pg bad now ids s = fold (check_and_notify pg bad now) ids s"

text \<open>\<open>close\<close> of a channel that is closed already panics, which ends the process.\<close>

definition close_done :: "nat \<Rightarrow> OrderServer \<Rightarrow> OrderServer" where
  "close_done n s = (if n \<in> set (closed s) then s\<lparr>crashed := True\<rparr> else s\<lparr>closed := n # closed s\<rparr>)"

text \<open>The goroutine of \<open>notifySubscribers\<close> (lines 179 to 184).\<close>

definition send_update :: "nat \<times> OrderStatusUpdate \<Rightarrow> bool \<Rightarrow> OrderServer \<Rightarrow> OrderServer" where
  "send_update x ok s =
     (case x of (n, u) \<Rightarrow>
        let s1 = s\<lparr>pending := remove1 x (pending s)\<rparr>
        in if ok then s1\<lparr>received := (received s1)(n := received s1 n @ [u])\<rparr> else close_done n s1)"

definition removeSubscriber :: "nat \<Rightarrow> string \<Rightarrow> OrderServer \<Rightarrow> OrderServer" where
  "removeSubscriber n i s =
     (let rest = remove1 n (subs_of s i)
      in s\<lparr>subs := (if rest = [] then (subs s)(i := None)
                    else (subs s)(i \<mapsto> rest))\<rparr>)"

definition Stop :: "OrderServer \<Rightarrow> OrderServer" where
  "Stop s = s\<lparr>stopped := True\<rparr>"

section \<open>Interleaving\<close>

text \<open>
  The monitor's steps are the listing of a tick, the rounds, the notifications, and leaving the loop;
  it looks at its context only between two ticks.
\<close>

inductive stream_step :: "postgres \<Rightarrow> OrderServer \<Rightarrow> OrderServer \<Rightarrow> bool" for pg where
  subscribe: "\<not> crashed s \<Longrightarrow> SubscribeToOrderUpdates pg bad i s = (r, s') \<Longrightarrow> stream_step pg s s'"
| register: "\<not> crashed s \<Longrightarrow> x \<in> set (admitted s) \<Longrightarrow> stream_step pg s (register x s)"
| greet: "\<not> crashed s \<Longrightarrow> x \<in> set (starting s) \<Longrightarrow> send_initial now x e s = (r, s') \<Longrightarrow> stream_step pg s s'"
| tick: "\<not> crashed s \<Longrightarrow> \<not> monitor_done s \<Longrightarrow> to_check s = [] \<Longrightarrow> noticed s = None \<Longrightarrow> distinct ids \<Longrightarrow>
    set ids = dom (subs s) \<Longrightarrow> stream_step pg s (s\<lparr>to_check := ids\<rparr>)"
| check: "\<not> crashed s \<Longrightarrow> noticed s = None \<Longrightarrow> to_check s = i # ids \<Longrightarrow>
    stream_step pg s (check_order pg bad i (s\<lparr>to_check := ids\<rparr>))"
| notify: "\<not> crashed s \<Longrightarrow> noticed s = Some (i, order) \<Longrightarrow> stream_step pg s (notifySubscribers now i order s)"
| send: "\<not> crashed s \<Longrightarrow> x \<in> set (pending s) \<Longrightarrow> stream_step pg s (send_update x ok s)"
| resume: "\<not> crashed s \<Longrightarrow> n \<in> set (waiting s) \<Longrightarrow> n \<in> set (closed s) \<Longrightarrow> sub_order s n = Some i \<Longrightarrow>
    stream_step pg s (removeSubscriber n i (s\<lparr>waiting := remove1 n (waiting s)\<rparr>))"
| change: "order_step (sdb s) db \<Longrightarrow> (\<forall>k ord. db k = Some ord \<longrightarrow> oID ord = k) \<Longrightarrow> stream_step pg s (s\<lparr>sdb := db\<rparr>)"
| halt: "\<not> crashed s \<Longrightarrow> stream_step pg s (Stop s)"
| exit: "\<not> crashed s \<Longrightarrow> stopped s \<Longrightarrow> to_check s = [] \<Longrightarrow> noticed s = None \<Longrightarrow>
    stream_step pg s (s\<lparr>monitor_done := True\<rparr>)"

inductive_cases stream_stepE: "stream_step pg s s'"

section \<open>The invariant of the registrations\<close>

text \<open>
  A registered subscriber is one that was created for that identifier, once, and no identifier
  has an empty list; a handler that is about to send or waits is registered; numbers are fresh; a
  monitor that has left its loop is between two ticks.
\<close>

definition stream_inv :: "OrderServer \<Rightarrow> bool" where
  "stream_inv s \<longleftrightarrow>
     (\<forall>i. subs s i \<noteq> Some []) \<and>
     (\<forall>i. distinct (subs_of s i) \<and> (\<forall>n \<in> set (subs_of s i). sub_order s n = Some i)) \<and>
     (\<forall>n i. sub_order s n = Some i \<longrightarrow> n < next_sub s) \<and>
     distinct (map fst (starting s) @ waiting s) \<and>
     (\<forall>n \<in> fst ` set (starting s) \<union> set (waiting s). \<exists>i. n \<in> set (subs_of s i)) \<and>
     (\<forall>x \<in> set (pending s). sub_order s (fst x) \<noteq> None) \<and>
     (monitor_done s \<longrightarrow> to_check s = [] \<and> noticed s = None)"

lemma stream_inv_frame:
  assumes "stream_inv s" and "subs s' = subs s" "sub_order s' = sub_order s" "next_sub s' = next_sub s"
    "waiting s' = waiting s" "starting s' = starting s" and "\<forall>x \<in> set (pending s'). sub_order s (fst x) \<noteq> None"
    and "monitor_done s' \<longrightarrow> to_check s' = [] \<and> noticed s' = None"
  shows "stream_inv s'"
  using assms by (simp add: stream_inv_def)

lemma check_order_frame [simp]:
  "subs (check_order pg bad i s) = subs s" "sub_order (check_order pg bad i s) = sub_order s"
  "next_sub (check_order pg bad i s) = next_sub s" "waiting (check_order pg bad i s) = waiting s"
  "sdb (check_order pg bad i s) = sdb s" "closed (check_order pg bad i s) = closed s"
  "crashed (check_order pg bad i s) = crashed s" "stopped (check_order pg bad i s) = stopped s"
  "received (check_order pg bad i s) = received s" "starting (check_order pg bad i s) = starting s"
  "monitor_done (check_order pg bad i s) = monitor_done s" "admitted (check_order pg bad i s) = admitted s"
  "to_check (check_order pg bad i s) = to_check s" "pending (check_order pg bad i s) = pending s"
  by (auto simp: check_order_def split: option.splits)

lemma check_order_inv:
  assumes "stream_inv s" and "\<not> monitor_done s"
  shows "stream_inv (check_order pg bad i s)"
  by (rule stream_inv_frame [OF assms(1)]) (use assms in \<open>simp_all add: stream_inv_def\<close>)

lemma notify_inv:
  assumes "stream_inv s" and "\<not> monitor_done s"
  shows "stream_inv (notifySubscribers now i order s)"
  by (rule stream_inv_frame [OF assms(1)]) (use assms in \<open>auto simp: notifySubscribers_def stream_inv_def\<close>)

text \<open>A new registration, and its first send.\<close>

lemma handler_registered:
  assumes "stream_inv s" and "n \<in> fst ` set (starting s) \<union> set (waiting s)"
  shows "\<exists>i. n \<in> set (subs_of s i)"
  using assms unfolding stream_inv_def by blast

lemma registered_number:
  assumes "stream_inv s" and "n \<in> set (subs_of s j) \<or> n \<in> fst ` set (starting s) \<or> n \<in> set (waiting s)"
  shows "n < next_sub s"
proof -
  have "\<exists>i. n \<in> set (subs_of s i)" using assms handler_registered by blast
  then show ?thesis using assms(1) unfolding stream_inv_def by blast
qed

lemma fresh_number:
  assumes "stream_inv s"
  shows "sub_order s (next_sub s) = None"
  using assms by (cases "sub_order s (next_sub s)") (auto simp: stream_inv_def)

text \<open>What a subscription does, when it does anything.\<close>

lemma subscribe_cases:
  assumes "SubscribeToOrderUpdates pg bad i s = (r, s')"
  obtains (refused) "s' = s"
  | (admitted) ord where "getOrder pg bad (sdb s) i = Some ord" and "s' = s\<lparr>admitted := admitted s @ [(i, ord)]\<rparr>"
proof (cases "i = [] \<or> getOrder pg bad (sdb s) i = None")
  case True
  then have "s' = s" using assms by (auto simp: SubscribeToOrderUpdates_def split: if_splits)
  then show thesis by (rule refused)
next
  case False
  then obtain ord where "getOrder pg bad (sdb s) i = Some ord" by blast
  with False assms show thesis by (intro admitted [of ord]) (simp_all add: SubscribeToOrderUpdates_def)
qed

lemma register_inv:
  assumes "stream_inv s"
  shows "stream_inv (register x s)"
proof -
  obtain i ord where x: "x = (i, ord)" by (cases x)
  let ?s = "register x s"
  have s': "subs ?s = (subs s)(i \<mapsto> subs_of s i @ [next_sub s])" "sub_order ?s = (sub_order s)(next_sub s \<mapsto> i)"
    "next_sub ?s = Suc (next_sub s)" "starting ?s = starting s @ [(next_sub s, ord)]" "waiting ?s = waiting s"
    "pending ?s = pending s" "monitor_done ?s = monitor_done s" "to_check ?s = to_check s" "noticed ?s = noticed s"
    by (simp_all add: x register_def Let_def)
  have fresh: "sub_order s (next_sub s) = None" by (rule fresh_number [OF assms])
  have new: "next_sub s \<notin> set (subs_of s j)" "next_sub s \<notin> fst ` set (starting s)" "next_sub s \<notin> set (waiting s)" for j
    using registered_number [OF assms, of "next_sub s"] by blast+
  have reg: "\<exists>j. m \<in> set (subs_of ?s j)" if "m \<in> fst ` set (starting ?s) \<union> set (waiting ?s)" for m
  proof (cases "m = next_sub s")
    case True
    then show ?thesis by (intro exI [of _ i]) (simp add: s')
  next
    case False
    with that have "m \<in> fst ` set (starting s) \<union> set (waiting s)" by (auto simp: s')
    with handler_registered [OF assms] obtain j where "m \<in> set (subs_of s j)" by blast
    then show ?thesis by (intro exI [of _ j]) (auto simp: s')
  qed
  show ?thesis
    unfolding stream_inv_def
  proof (intro conjI ballI)
    fix m assume "m \<in> fst ` set (starting ?s) \<union> set (waiting ?s)"
    then show "\<exists>j. m \<in> set (subs_of ?s j)" by (rule reg)
  qed (use assms fresh new in \<open>auto simp: stream_inv_def s' less_Suc_eq\<close>)
qed

lemma greet_inv:
  assumes "stream_inv s" and "x \<in> set (starting s)" and "send_initial now x e s = (r, s')"
  shows "stream_inv s'"
proof -
  obtain n ord where x: "x = (n, ord)" by (cases x)
  let ?rest = "remove1 x (starting s)"
  have d: "distinct (map fst (starting s) @ waiting s)" using assms(1) by (simp add: stream_inv_def)
  then have inj: "inj_on fst (set (starting s))" and ds: "distinct (starting s)" by (simp_all add: distinct_map)
  have rest: "set ?rest = set (starting s) - {x}" using ds by simp
  have gone: "n \<notin> fst ` set ?rest"
    using inj_onD [OF inj _ _ assms(2)] rest x by auto
  have d': "distinct (map fst ?rest)" using ds inj rest by (auto simp: distinct_map intro: inj_on_subset)
  have s': "starting s' = ?rest" "waiting s' = waiting s \<or> waiting s' = waiting s @ [n]" "subs s' = subs s"
    "sub_order s' = sub_order s" "next_sub s' = next_sub s" "pending s' = pending s" "monitor_done s' = monitor_done s"
    "to_check s' = to_check s" "noticed s' = noticed s"
    using assms(3) x by (auto simp: send_initial_def Let_def split: option.splits)
  have nw: "n \<notin> set (waiting s)" using d assms(2) x by force
  have "fst ` set ?rest \<inter> set (waiting s) = {}" using rest d by auto
  then have "distinct (map fst (starting s') @ waiting s')"
    using s'(2) d d' gone nw by (elim disjE) (simp_all add: s'(1))
  moreover have "fst ` set (starting s') \<union> set (waiting s') \<subseteq> fst ` set (starting s) \<union> set (waiting s)"
    using s'(1,2) rest assms(2) x by (auto intro: rev_image_eqI)
  then have "\<forall>m \<in> fst ` set (starting s') \<union> set (waiting s'). \<exists>j. m \<in> set (subs_of s j)"
    using handler_registered [OF assms(1)] by blast
  ultimately show ?thesis
    using assms(1) unfolding stream_inv_def s'(3-9) by (elim conjE, intro conjI)
qed

lemma send_inv:
  assumes "stream_inv s"
  shows "stream_inv (send_update x ok s)"
proof (rule stream_inv_frame [OF assms])
  have "set (pending (send_update x ok s)) \<subseteq> set (pending s)"
    using set_remove1_subset [of x "pending s"]
    by (auto simp: send_update_def close_done_def Let_def split: prod.splits)
  then show "\<forall>y \<in> set (pending (send_update x ok s)). sub_order s (fst y) \<noteq> None"
    using assms by (auto simp: stream_inv_def)
  show "monitor_done (send_update x ok s) \<longrightarrow> to_check (send_update x ok s) = [] \<and> noticed (send_update x ok s) = None"
    using assms by (simp add: send_update_def close_done_def Let_def stream_inv_def split: prod.splits)
qed (simp_all add: send_update_def close_done_def Let_def split: prod.splits)

lemma resume_inv:
  assumes "stream_inv s" and "n \<in> set (waiting s)" and "sub_order s n = Some i"
  shows "stream_inv (removeSubscriber n i (s\<lparr>waiting := remove1 n (waiting s)\<rparr>))"
proof -
  let ?t = "removeSubscriber n i (s\<lparr>waiting := remove1 n (waiting s)\<rparr>)"
  have dw: "distinct (map fst (starting s) @ waiting s)" and d: "distinct (subs_of s i)"
    using assms(1) by (simp_all add: stream_inv_def)
  let ?rest = "remove1 n (subs_of s i)"
  have list: "subs_of ?t j = (if j = i then ?rest else subs_of s j)" for j
    by (simp add: removeSubscriber_def Let_def)
  have rest: "set ?rest = set (subs_of s i) - {n}" using d by simp
  have fields: "starting ?t = starting s" "waiting ?t = remove1 n (waiting s)" "sub_order ?t = sub_order s"
    "next_sub ?t = next_sub s" "pending ?t = pending s" "monitor_done ?t = monitor_done s" "to_check ?t = to_check s"
    "noticed ?t = noticed s"
    by (simp_all add: removeSubscriber_def Let_def)
  have reg: "\<exists>j. m \<in> set (subs_of ?t j)" if m: "m \<in> fst ` set (starting ?t) \<union> set (waiting ?t)" for m
  proof -
    from m dw assms(2) have "m \<in> fst ` set (starting s) \<union> set (waiting s)" "m \<noteq> n" by (auto simp: fields)
    with handler_registered [OF assms(1)] obtain j where "m \<in> set (subs_of s j)" by blast
    with \<open>m \<noteq> n\<close> rest show ?thesis by (intro exI [of _ j]) (auto simp: list)
  qed
  show ?thesis
    unfolding stream_inv_def
  proof (intro conjI ballI)
    show "\<forall>j. subs ?t j \<noteq> Some []" using assms(1) by (simp add: removeSubscriber_def Let_def stream_inv_def)
    show "\<forall>j. distinct (subs_of ?t j) \<and> (\<forall>m \<in> set (subs_of ?t j). sub_order ?t m = Some j)"
      using assms(1) rest unfolding list fields stream_inv_def by auto
    show "distinct (map fst (starting ?t) @ waiting ?t)" using dw by (auto simp: fields)
  qed (use assms(1) reg in \<open>auto simp: stream_inv_def fields\<close>)
qed

theorem stream_step_inv: "stream_step pg s s' \<Longrightarrow> stream_inv s \<Longrightarrow> stream_inv s'"
proof (induction rule: stream_step.induct)
  case (subscribe s bad i r s')
  from subscribe.hyps(2) show ?case
    by (cases rule: subscribe_cases) (use subscribe.prems in \<open>simp_all add: stream_inv_def\<close>)
next
  case (greet s x now e r s')
  then show ?case by (simp add: greet_inv)
next
  case (check s i ids bad)
  have m: "\<not> monitor_done s" using check.hyps(3) check.prems by (auto simp: stream_inv_def)
  with check.prems have "stream_inv (s\<lparr>to_check := ids\<rparr>)" by (simp add: stream_inv_def)
  then show ?case using m by (simp add: check_order_inv)
next
  case (notify s i order now)
  then have "\<not> monitor_done s" by (auto simp: stream_inv_def)
  then show ?case using notify.prems by (simp add: notify_inv)
next
  case (tick s ids)
  then show ?case by (simp add: stream_inv_def)
next
  case (change s db)
  then show ?case by (simp add: stream_inv_def)
next
  case (halt s)
  then show ?case by (simp add: stream_inv_def Stop_def)
next
  case (exit s)
  then show ?case by (simp add: stream_inv_def)
qed (simp_all add: register_inv send_inv resume_inv)

end
