(* ===== verification/Order_Stream_Props.thy ===== *)
theory Order_Stream_Props
  imports Order_Stream
begin

text \<open>
  What subscribers are told. An update is about the subscribed order and never reports a final
  status that the order does not have; a status change between two ticks reaches every
  subscriber; the process does not panic on a channel closed twice, because an order changes its
  status once. Against that stand two omissions: a change before the first tick that sees an
  order is never reported, and after \<open>Stop\<close> a waiting handler waits for ever.
\<close>

section \<open>Lookups and the table\<close>

lemma getOrder_Some:
  "getOrder pg bad db i = Some ord \<Longrightarrow> \<exists>k. uuid_in pg i = Some k \<and> db k = Some ord"
  by (auto simp: getOrder_def split: if_splits option.splits)

lemma getOrder_ok:
  "\<not> bad i \<Longrightarrow> uuid_in pg i = Some k \<Longrightarrow> db k = Some ord \<Longrightarrow> getOrder pg bad db i = Some ord"
  by (simp add: getOrder_def)

text \<open>What one round of the loop does: nothing, or the first sight, or it notices a change.\<close>

lemma check_order_cases:
  obtains (none) "check_order pg bad i s = s"
  | (first) ord where "getOrder pg bad (sdb s) i = Some ord" and "lastStatuses s i = None"
      and "check_order pg bad i s = s\<lparr>lastStatuses := (lastStatuses s)(i \<mapsto> oStatus ord)\<rparr>"
  | (report) ord st where "getOrder pg bad (sdb s) i = Some ord" and "lastStatuses s i = Some st" and "oStatus ord \<noteq> st"
      and "check_order pg bad i s = s\<lparr>lastStatuses := (lastStatuses s)(i \<mapsto> oStatus ord), noticed := Some (i, ord)\<rparr>"
proof (cases "getOrder pg bad (sdb s) i")
  case None
  then show thesis by (intro none) (simp add: check_order_def)
next
  case (Some ord)
  note g = Some
  show thesis
  proof (cases "lastStatuses s i")
    case None
    with g show thesis by (intro first) (simp_all add: check_order_def)
  next
    case (Some st)
    show thesis
    proof (cases "oStatus ord = st")
      case True
      with g Some show thesis by (intro none) (simp add: check_order_def)
    next
      case False
      with g Some show thesis by (intro report) (simp_all add: check_order_def)
    qed
  qed
qed

lemma register_frame [simp]:
  "lastStatuses (register x s) = lastStatuses s" "noticed (register x s) = noticed s" "pending (register x s) = pending s"
  "closed (register x s) = closed s" "crashed (register x s) = crashed s" "sdb (register x s) = sdb s"
  "received (register x s) = received s" "waiting (register x s) = waiting s" "monitor_done (register x s) = monitor_done s"
  "to_check (register x s) = to_check s"
  "sub_order (register x s) = (sub_order s)(next_sub s \<mapsto> fst x)" "starting (register x s) = starting s @ [(next_sub s, snd x)]"
  "admitted (register x s) = remove1 x (admitted s)"
  by (simp_all add: register_def Let_def split: prod.splits)

lemma greet_frame:
  assumes "send_initial now x e s = (r, s')"
  shows "lastStatuses s' = lastStatuses s" "sub_order s' = sub_order s" "pending s' = pending s" "closed s' = closed s"
    "crashed s' = crashed s" "sdb s' = sdb s" "monitor_done s' = monitor_done s" "set (waiting s) \<subseteq> set (waiting s')"
    "noticed s' = noticed s" "to_check s' = to_check s" "admitted s' = admitted s"
  using assms by (auto simp: send_initial_def Let_def split: prod.splits option.splits)

section \<open>What is sent is true\<close>

definition keyed :: "order_table \<Rightarrow> bool" where
  "keyed db \<longleftrightarrow> (\<forall>k ord. db k = Some ord \<longrightarrow> oID ord = k)"

text \<open>
  An update for subscriber \<open>n\<close> is true: it names the order that was subscribed to, with its
  customer, item and amount; a final status that it reports is the order's status.
\<close>

definition truthful :: "postgres \<Rightarrow> order_table \<Rightarrow> string option \<Rightarrow> OrderStatusUpdate \<Rightarrow> bool" where
  "truthful pg db sub u \<longleftrightarrow> (\<exists>i ord. sub = Some i \<and> uuid_in pg i = Some (ouOrderId u) \<and>
     db (ouOrderId u) = Some ord \<and> ouCustomerId u = oCustomerID ord \<and> ouItemName u = oItemName ord \<and>
     ouAmount u = oAmount ord \<and> (ouStatus u \<noteq> StatusPending \<longrightarrow> oStatus ord = ouStatus u))"

definition true_updates :: "postgres \<Rightarrow> OrderServer \<Rightarrow> bool" where
  "true_updates pg s \<longleftrightarrow> keyed (sdb s) \<and>
     (\<forall>n u. (n, u) \<in> set (pending s) \<longrightarrow> truthful pg (sdb s) (sub_order s n) u) \<and>
     (\<forall>i ord now. (i, ord) \<in> set (admitted s) \<or> noticed s = Some (i, ord) \<longrightarrow>
        truthful pg (sdb s) (Some i) (status_update now ord)) \<and>
     (\<forall>n ord now. (n, ord) \<in> set (starting s) \<longrightarrow> truthful pg (sdb s) (sub_order s n) (status_update now ord)) \<and>
     (\<forall>n. \<forall>u \<in> set (received s n). truthful pg (sdb s) (sub_order s n) u)"

lemma truthful_now:
  assumes "keyed db" and "getOrder pg bad db i = Some ord"
  shows "truthful pg db (Some i) (status_update now ord)"
  using assms getOrder_Some [OF assms(2)] by (auto simp: truthful_def status_update_def keyed_def)

lemma truthful_change:
  assumes "truthful pg db0 sub u" and "order_step db0 db"
  shows "truthful pg db sub u"
proof -
  from assms(1) obtain i ord where o: "sub = Some i" "uuid_in pg i = Some (ouOrderId u)"
    "db0 (ouOrderId u) = Some ord" "ouCustomerId u = oCustomerID ord" "ouItemName u = oItemName ord"
    "ouAmount u = oAmount ord" "ouStatus u \<noteq> StatusPending \<longrightarrow> oStatus ord = ouStatus u"
    unfolding truthful_def by blast
  from order_step_keeps [OF assms(2) o(3)] obtain ord' where o': "db (ouOrderId u) = Some ord'"
    "ord' = ord\<lparr>oStatus := oStatus ord'\<rparr>" "oStatus ord \<noteq> StatusPending \<longrightarrow> ord' = ord" by blast
  have "oCustomerID ord' = oCustomerID ord" "oItemName ord' = oItemName ord" "oAmount ord' = oAmount ord"
    by (subst o'(2), simp)+
  with o o' show ?thesis by (auto simp: truthful_def)
qed

lemma true_check:
  assumes "true_updates pg s"
  shows "true_updates pg (check_order pg bad i s)"
proof (cases rule: check_order_cases [of pg bad i s])
  case none
  then show ?thesis using assms by simp
next
  case (first ord)
  then show ?thesis using assms by (simp add: true_updates_def)
next
  case (report ord st)
  have "truthful pg (sdb s) (Some i) (status_update now ord)" for now
    using truthful_now [OF _ report(1)] assms by (simp add: true_updates_def)
  then show ?thesis
    using assms unfolding report(4) true_updates_def by auto
qed

lemma true_notify:
  assumes "true_updates pg s" and "stream_inv s" and "noticed s = Some (i, ord)"
  shows "true_updates pg (notifySubscribers now i ord s)"
proof -
  have "n \<in> set (subs_of s i) \<Longrightarrow> sub_order s n = Some i" for n using assms(2) by (simp add: stream_inv_def)
  moreover have "truthful pg (sdb s) (Some i) (status_update now ord)" using assms(1,3) unfolding true_updates_def by blast
  ultimately show ?thesis using assms(1) by (auto simp: true_updates_def notifySubscribers_def)
qed

lemma true_register:
  assumes "true_updates pg s" and "stream_inv s" and "x \<in> set (admitted s)"
  shows "true_updates pg (register x s)"
proof -
  obtain i ord where x: "x = (i, ord)" by (cases x)
  have old: "truthful pg (sdb s) (sub_order s n) u \<Longrightarrow> n \<noteq> next_sub s" for n u
    using fresh_number [OF assms(2)] by (auto simp: truthful_def)
  have new: "truthful pg (sdb s) (Some i) (status_update now ord)" for now
    using assms(1,3) unfolding x true_updates_def by blast
  have "received s (next_sub s) = []"
    using assms(1) old unfolding true_updates_def by (metis list.set_intros(1) neq_Nil_conv)
  moreover have "(next_sub s, u) \<notin> set (pending s)" "(next_sub s, ord) \<notin> set (starting s)" for u ord
    using assms(1) old unfolding true_updates_def by blast+
  moreover have "set (remove1 x (admitted s)) \<subseteq> set (admitted s)" by (rule set_remove1_subset)
  ultimately show ?thesis
    using assms(1) new unfolding x true_updates_def by (fastforce split: if_splits)
qed

lemma true_greet:
  assumes "true_updates pg s" and "x \<in> set (starting s)" and "send_initial now x e s = (r, s')"
  shows "true_updates pg s'"
proof -
  obtain n ord where x: "x = (n, ord)" by (cases x)
  have "truthful pg (sdb s) (sub_order s n) (status_update now ord)"
    using assms(1,2) x unfolding true_updates_def by blast
  with assms(1,3) set_remove1_subset [of x "starting s"] show ?thesis
    unfolding x by (auto simp: send_initial_def Let_def true_updates_def split: option.splits if_splits)
qed

lemma true_send:
  assumes "true_updates pg s" and "x \<in> set (pending s)"
  shows "true_updates pg (send_update x ok s)"
proof -
  obtain n u where x: "x = (n, u)" by (cases x)
  have "truthful pg (sdb s) (sub_order s n) u" using assms x by (auto simp: true_updates_def)
  with assms(1) set_remove1_subset [of x "pending s"] show ?thesis
    unfolding x by (auto simp: send_update_def close_done_def Let_def true_updates_def)
qed

theorem stream_step_true:
  assumes "stream_step pg s s'" and "stream_inv s" and "true_updates pg s"
  shows "true_updates pg s'"
  using assms
proof (induction rule: stream_step.induct)
  case (subscribe s bad i r s')
  from subscribe.hyps(2) show ?case
  proof (cases rule: subscribe_cases)
    case refused
    with subscribe.prems show ?thesis by simp
  next
    case (admitted ord)
    have "truthful pg (sdb s) (Some i) (status_update now ord)" for now
      using truthful_now [OF _ admitted(1)] subscribe.prems by (simp add: true_updates_def)
    then show ?thesis using subscribe.prems(2) unfolding admitted(2) true_updates_def by auto
  qed
next
  case (register s x)
  then show ?case by (simp add: true_register)
next
  case (greet s x now e r s')
  then show ?case using true_greet by blast
next
  case (check s i ids bad)
  then have "true_updates pg (s\<lparr>to_check := ids\<rparr>)" by (simp add: true_updates_def)
  then show ?case by (rule true_check)
next
  case (notify s i order now)
  then show ?case by (simp add: true_notify)
next
  case (send s x ok)
  then show ?case by (simp add: true_send)
next
  case (resume s n i)
  then show ?case by (simp add: true_updates_def removeSubscriber_def Let_def)
next
  case (change s db)
  then show ?case using truthful_change [of pg "sdb s" _ _ db] unfolding true_updates_def keyed_def by simp
qed (simp_all add: true_updates_def Stop_def)

section \<open>No channel is closed twice\<close>

definition seen_final :: "(string \<rightharpoonup> string) \<Rightarrow> string option \<Rightarrow> bool" where
  "seen_final seen sub =
     (case sub of None \<Rightarrow> False | Some i \<Rightarrow> (case seen i of None \<Rightarrow> False | Some st \<Rightarrow> st \<noteq> StatusPending))"

text \<open>The subscriber's order was seen final, and no notification of it is about to start.\<close>

definition told :: "OrderServer \<Rightarrow> nat \<Rightarrow> bool" where
  "told s n \<longleftrightarrow> seen_final (lastStatuses s) (sub_order s n) \<and> (\<forall>i ord. noticed s = Some (i, ord) \<longrightarrow> sub_order s n \<noteq> Some i)"

lemma seen_final_Some [simp]:
  "seen_final (m(i \<mapsto> st)) (Some j) = (if j = i then st \<noteq> StatusPending else seen_final m (Some j))"
  "\<not> seen_final m None"
  by (simp_all add: seen_final_def)

lemma seen_final_upd:
  "seen_final m sub \<Longrightarrow> st \<noteq> StatusPending \<or> m i = None \<Longrightarrow> seen_final (m(i \<mapsto> st)) sub"
  by (cases sub) (auto simp: seen_final_def)

definition seen_true :: "postgres \<Rightarrow> order_table \<Rightarrow> (string \<rightharpoonup> string) \<Rightarrow> bool" where
  "seen_true pg db seen \<longleftrightarrow> (\<forall>i st. seen i = Some st \<longrightarrow> st \<noteq> StatusPending \<longrightarrow>
     (\<exists>k ord. uuid_in pg i = Some k \<and> db k = Some ord \<and> oStatus ord = st))"

lemma seen_true_upd:
  "seen_true pg db m \<Longrightarrow> uuid_in pg i = Some k \<Longrightarrow> db k = Some ord \<Longrightarrow> seen_true pg db (m(i \<mapsto> oStatus ord))"
  unfolding seen_true_def by simp

lemma seen_true_change:
  assumes "seen_true pg db m" and "order_step db db'"
  shows "seen_true pg db' m"
  using assms(1) order_step_keeps [OF assms(2)] unfolding seen_true_def by metis

lemma told_env [simp]:
  "told (s\<lparr>pending := p\<rparr>) = told s" "told (s\<lparr>closed := c\<rparr>) = told s" "told (s\<lparr>received := r\<rparr>) = told s"
  by (simp_all add: told_def fun_eq_iff)

definition calm :: "postgres \<Rightarrow> OrderServer \<Rightarrow> bool" where
  "calm pg s \<longleftrightarrow> seen_true pg (sdb s) (lastStatuses s) \<and>
     (\<forall>i ord. noticed s = Some (i, ord) \<longrightarrow> seen_final (lastStatuses s) (Some i)) \<and>
     (\<forall>n \<in> fst ` set (pending s) \<union> set (closed s). told s n) \<and> distinct (map fst (pending s)) \<and>
     fst ` set (pending s) \<inter> set (closed s) = {} \<and> \<not> crashed s"

lemma calm_frame:
  assumes "calm pg s" and "lastStatuses s' = lastStatuses s" "noticed s' = noticed s" "pending s' = pending s"
    "closed s' = closed s" "crashed s' = crashed s" "sdb s' = sdb s" "sub_order s' = sub_order s"
  shows "calm pg s'"
  using assms by (simp add: calm_def told_def)

lemma calm_check:
  assumes "calm pg s" and "noticed s = None"
  shows "calm pg (check_order pg bad i s)"
proof (cases rule: check_order_cases [of pg bad i s])
  case none
  then show ?thesis using assms(1) by simp
next
  case (first ord)
  obtain k where "uuid_in pg i = Some k" "sdb s k = Some ord" using getOrder_Some [OF first(1)] by blast
  with assms first(2) show ?thesis
    unfolding first(3) calm_def by (simp add: seen_true_upd seen_final_upd told_def)
next
  case (report ord st)
  obtain k where k: "uuid_in pg i = Some k" "sdb s k = Some ord" using getOrder_Some [OF report(1)] by blast
  have st: "st = StatusPending" using assms(1) report(2,3) k unfolding calm_def seen_true_def by fastforce
  have fin: "oStatus ord \<noteq> StatusPending" using report(3) st by simp
  have "sub_order s n \<noteq> Some i" if "told s n" for n
    using that report(2) st by (auto simp: told_def seen_final_def)
  then have "told (check_order pg bad i s) n" if "told s n" for n
    using that fin unfolding report(4) by (auto simp: told_def seen_final_upd)
  then show ?thesis
    using assms(1) k fin unfolding calm_def report(4) by (simp add: seen_true_upd)
qed

lemma calm_notify:
  assumes "calm pg s" and "stream_inv s" and "noticed s = Some (i, ord)"
  shows "calm pg (notifySubscribers now i ord s)"
proof -
  let ?t = "notifySubscribers now i ord s"
  have own: "n \<in> set (subs_of s i) \<Longrightarrow> sub_order s n = Some i" for n using assms(2) by (simp add: stream_inv_def)
  have d: "distinct (subs_of s i)" using assms(2) by (simp add: stream_inv_def)
  have old: "n \<notin> set (subs_of s i)" if "told s n" for n using that own assms(3) by (auto simp: told_def)
  have disj: "fst ` set (pending s) \<inter> set (subs_of s i) = {}" using assms(1) old unfolding calm_def by blast
  have told: "told ?t n" if "told s n \<or> n \<in> set (subs_of s i)" for n
    using that own assms(1,3) by (auto simp: told_def notifySubscribers_def calm_def)
  have t: "closed ?t = closed s" "crashed ?t = crashed s" "lastStatuses ?t = lastStatuses s" "sdb ?t = sdb s" "noticed ?t = None"
    by (simp_all add: notifySubscribers_def)
  have p: "fst ` set (pending ?t) = fst ` set (pending s) \<union> set (subs_of s i)"
    by (auto simp: notifySubscribers_def image_Un image_image)
  have "distinct (map fst (pending ?t))"
    using assms(1) d disj by (auto simp: notifySubscribers_def calm_def comp_def)
  moreover have "(fst ` set (pending s) \<union> set (subs_of s i)) \<inter> set (closed s) = {}"
    using assms(1) old unfolding calm_def by blast
  moreover have "\<forall>n \<in> fst ` set (pending s) \<union> set (subs_of s i) \<union> set (closed s). told ?t n"
    using assms(1) told unfolding calm_def by blast
  ultimately show ?thesis
    using assms(1) unfolding calm_def t p by simp
qed

lemma calm_register:
  assumes "calm pg s" and "stream_inv s"
  shows "calm pg (register x s)"
proof -
  have "told s n \<Longrightarrow> n \<noteq> next_sub s" for n using fresh_number [OF assms(2)] by (auto simp: told_def)
  then have "told s n \<Longrightarrow> told (register x s) n" for n by (simp add: told_def)
  then show ?thesis using assms(1) by (simp add: calm_def)
qed

lemma calm_send:
  assumes "calm pg s" and "x \<in> set (pending s)"
  shows "calm pg (send_update x ok s)"
proof -
  obtain n u where x: "x = (n, u)" by (cases x)
  let ?rest = "remove1 x (pending s)"
  have inj: "inj_on fst (set (pending s))" and d: "distinct (pending s)"
    using assms(1) by (simp_all add: calm_def distinct_map)
  have n: "n \<in> fst ` set (pending s)" using assms(2) x by force
  then have nc: "n \<notin> set (closed s)" and sf: "told s n" using assms(1) by (auto simp: calm_def)
  have rest: "set ?rest = set (pending s) - {x}" using d by simp
  have gone: "n \<notin> fst ` set ?rest"
  proof
    assume "n \<in> fst ` set ?rest"
    then obtain y where "y \<in> set (pending s)" "y \<noteq> x" "fst y = fst x" using rest x by auto
    then show False using inj_onD [OF inj] assms(2) by blast
  qed
  have d': "distinct (map fst ?rest)"
    using d inj rest by (auto simp: distinct_map intro: inj_on_subset)
  have sub: "fst ` set ?rest \<subseteq> fst ` set (pending s)" using rest by auto
  have base: "calm pg (s\<lparr>pending := ?rest\<rparr>)"
  proof -
    have "\<forall>n \<in> fst ` set (pending s) \<union> set (closed s). told s n" "fst ` set (pending s) \<inter> set (closed s) = {}"
      using assms(1) by (simp_all add: calm_def)
    with sub have "\<forall>n \<in> fst ` set ?rest \<union> set (closed s). told s n" "fst ` set ?rest \<inter> set (closed s) = {}" by blast+
    with assms(1) d' show ?thesis by (simp add: calm_def)
  qed
  show ?thesis
  proof (cases ok)
    case True
    then show ?thesis using x by (auto simp: send_update_def Let_def intro: calm_frame [OF base])
  next
    case False
    then have "send_update x ok s = s\<lparr>pending := ?rest, closed := n # closed s\<rparr>"
      using x nc by (simp add: send_update_def close_done_def)
    then show ?thesis using base gone sf by (simp add: calm_def)
  qed
qed

theorem stream_step_calm:
  assumes "stream_step pg s s'" and "stream_inv s" and "calm pg s"
  shows "calm pg s'"
  using assms
proof (induction rule: stream_step.induct)
  case (subscribe s bad i r s')
  from subscribe.hyps(2) show ?case
  proof (cases rule: subscribe_cases)
    case refused
    with subscribe.prems show ?thesis by simp
  next
    case (admitted ord)
    show ?thesis unfolding admitted(2) by (rule calm_frame [OF subscribe.prems(2)]) simp_all
  qed
next
  case (register s x)
  then show ?case by (simp add: calm_register)
next
  case (greet s x now e r s')
  then show ?case using calm_frame [of pg s s'] greet_frame [OF greet.hyps(3)] by simp
next
  case (check s i ids bad)
  have "calm pg (s\<lparr>to_check := ids\<rparr>)" by (rule calm_frame [OF check.prems(2)]) simp_all
  then show ?case using check.hyps by (simp add: calm_check)
next
  case (notify s i order now)
  then show ?case by (simp add: calm_notify)
next
  case (send s x ok)
  then show ?case by (simp add: calm_send)
next
  case (resume s n i)
  show ?case by (rule calm_frame [OF resume.prems(2)]) (simp_all add: removeSubscriber_def Let_def)
next
  case (change s db)
  then show ?case using seen_true_change by (auto simp: calm_def told_def)
next
  case (halt s)
  show ?case by (rule calm_frame [OF halt.prems(2)]) (simp_all add: Stop_def)
next
  case (tick s ids)
  show ?case by (rule calm_frame [OF tick.prems(2)]) simp_all
next
  case (exit s)
  show ?case by (rule calm_frame [OF exit.prems(2)]) simp_all
qed

lemma new_server_ok: "keyed db \<Longrightarrow> stream_inv (NewOrderServer db) \<and> true_updates pg (NewOrderServer db) \<and>
    calm pg (NewOrderServer db)"
  by (simp add: NewOrderServer_def stream_inv_def true_updates_def calm_def seen_true_def listed_def)

lemma stream_runs_inv: "(stream_step pg)\<^sup>*\<^sup>* s s' \<Longrightarrow> stream_inv s \<Longrightarrow> stream_inv s'"
  by (induction rule: rtranclp_induct) (auto intro: stream_step_inv)

lemma stream_runs_ok:
  assumes "(stream_step pg)\<^sup>*\<^sup>* s s'" and "stream_inv s \<and> true_updates pg s \<and> calm pg s"
  shows "stream_inv s' \<and> true_updates pg s' \<and> calm pg s'"
  using assms
  by (induction rule: rtranclp_induct) (auto intro: stream_step_inv stream_step_true stream_step_calm)

section \<open>A change between two ticks is reported\<close>

text \<open>The rounds in a row are a run of the monitor.\<close>

lemma no_checks: "to_check s = [] \<Longrightarrow> s\<lparr>to_check := []\<rparr> = s"
  by (cases s) simp

lemma check_to_check: "check_order pg bad i (s\<lparr>to_check := t\<rparr>) = (check_order pg bad i s)\<lparr>to_check := t\<rparr>"
  by (simp add: check_order_def split: option.splits)

lemma check_and_notify_to_check:
  "check_and_notify pg bad now i (s\<lparr>to_check := t\<rparr>) = (check_and_notify pg bad now i s)\<lparr>to_check := t\<rparr>"
  by (simp add: check_and_notify_def check_to_check Let_def notifySubscribers_def split: option.splits)

lemma checkForUpdates_to_check:
  "checkForUpdates pg bad now ids (s\<lparr>to_check := t\<rparr>) = (checkForUpdates pg bad now ids s)\<lparr>to_check := t\<rparr>"
  unfolding checkForUpdates_def by (induction ids arbitrary: s) (simp_all add: check_and_notify_to_check)

lemma check_and_notify_frame [simp]:
  "subs (check_and_notify pg bad now i s) = subs s" "sdb (check_and_notify pg bad now i s) = sdb s"
  "crashed (check_and_notify pg bad now i s) = crashed s" "received (check_and_notify pg bad now i s) = received s"
  "to_check (check_and_notify pg bad now i s) = to_check s" "noticed s = None \<Longrightarrow> noticed (check_and_notify pg bad now i s) = None"
  by (auto simp: check_and_notify_def Let_def notifySubscribers_def split: option.splits)

lemma checkForUpdates_frame [simp]:
  "subs (checkForUpdates pg bad now ids s) = subs s" "sdb (checkForUpdates pg bad now ids s) = sdb s"
  "crashed (checkForUpdates pg bad now ids s) = crashed s" "received (checkForUpdates pg bad now ids s) = received s"
  "to_check (checkForUpdates pg bad now ids s) = to_check s"
  unfolding checkForUpdates_def by (induction ids arbitrary: s) simp_all

lemma round_run:
  assumes "\<not> crashed s" and "noticed s = None" and "to_check s = i # ids"
  shows "(stream_step pg)\<^sup>*\<^sup>* s ((check_and_notify pg bad now i s)\<lparr>to_check := ids\<rparr>)"
proof -
  let ?s1 = "check_order pg bad i (s\<lparr>to_check := ids\<rparr>)"
  have step: "stream_step pg s ?s1" by (rule stream_step.check [OF assms])
  have eq: "(check_and_notify pg bad now i s)\<lparr>to_check := ids\<rparr> =
      (case noticed ?s1 of None \<Rightarrow> ?s1 | Some (j, order) \<Rightarrow> notifySubscribers now j order ?s1)"
    unfolding check_and_notify_to_check [symmetric] by (simp add: check_and_notify_def Let_def)
  show ?thesis
  proof (cases "noticed ?s1")
    case None
    then show ?thesis using step eq by simp
  next
    case (Some x)
    obtain j order where x: "x = (j, order)" by (cases x)
    have "stream_step pg ?s1 (notifySubscribers now j order ?s1)"
      by (rule stream_step.notify) (use assms(1) Some x in simp_all)
    with step show ?thesis using eq Some x by (simp add: converse_rtranclp_into_rtranclp)
  qed
qed

lemma rounds_run:
  assumes "\<not> crashed s" and "noticed s = None" and "to_check s = ids"
  shows "(stream_step pg)\<^sup>*\<^sup>* s ((checkForUpdates pg bad now ids s)\<lparr>to_check := []\<rparr>)"
  using assms
proof (induction ids arbitrary: s)
  case Nil
  then show ?case by (simp add: checkForUpdates_def no_checks)
next
  case (Cons i ids)
  let ?s1 = "(check_and_notify pg bad now i s)\<lparr>to_check := ids\<rparr>"
  have "(stream_step pg)\<^sup>*\<^sup>* ?s1 ((checkForUpdates pg bad now ids ?s1)\<lparr>to_check := []\<rparr>)"
    by (rule Cons.IH) (use Cons.prems in simp_all)
  moreover have "(checkForUpdates pg bad now ids ?s1)\<lparr>to_check := []\<rparr> = (checkForUpdates pg bad now (i # ids) s)\<lparr>to_check := []\<rparr>"
    by (simp add: checkForUpdates_to_check) (simp add: checkForUpdates_def)
  ultimately show ?case using rtranclp_trans [OF round_run [OF Cons.prems]] by simp
qed

lemma tick_run:
  assumes "\<not> crashed s" and "\<not> monitor_done s" and "to_check s = []" and "noticed s = None" and "distinct ids"
    and "set ids = dom (subs s)"
  shows "(stream_step pg)\<^sup>*\<^sup>* s (checkForUpdates pg bad now ids s)"
proof -
  have "stream_step pg s (s\<lparr>to_check := ids\<rparr>)" by (rule stream_step.tick [OF assms])
  moreover have "(stream_step pg)\<^sup>*\<^sup>* (s\<lparr>to_check := ids\<rparr>) ((checkForUpdates pg bad now ids (s\<lparr>to_check := ids\<rparr>))\<lparr>to_check := []\<rparr>)"
    by (rule rounds_run) (use assms in simp_all)
  moreover have "(checkForUpdates pg bad now ids (s\<lparr>to_check := ids\<rparr>))\<lparr>to_check := []\<rparr> = checkForUpdates pg bad now ids s"
    using assms(3) by (simp add: checkForUpdates_to_check no_checks)
  ultimately show ?thesis by (simp add: converse_rtranclp_into_rtranclp)
qed

lemma fold_check_other:
  assumes "i \<notin> set ids" and "noticed s = None"
  shows "lastStatuses (fold (check_and_notify pg bad now) ids s) i = lastStatuses s i \<and>
    set (pending s) \<subseteq> set (pending (fold (check_and_notify pg bad now) ids s)) \<and>
    noticed (fold (check_and_notify pg bad now) ids s) = None \<and>
    subs (fold (check_and_notify pg bad now) ids s) = subs s \<and> sdb (fold (check_and_notify pg bad now) ids s) = sdb s"
  using assms
proof (induction ids arbitrary: s)
  case (Cons j ids)
  have "lastStatuses (check_and_notify pg bad now j s) i = lastStatuses s i" "set (pending s) \<subseteq> set (pending (check_and_notify pg bad now j s))"
    using Cons.prems(1) by (auto simp: check_and_notify_def check_order_def notifySubscribers_def Let_def split: option.splits)
  with Cons.IH [of "check_and_notify pg bad now j s"] Cons.prems show ?case by auto
qed simp

lemma tick_reports:
  assumes "distinct ids" and "i \<in> set ids" and "getOrder pg bad (sdb s) i = Some ord"
    and "lastStatuses s i = Some st" and "oStatus ord \<noteq> st" and "n \<in> set (subs_of s i)" and "noticed s = None"
  shows "(n, status_update now ord) \<in> set (pending (checkForUpdates pg bad now ids s))"
proof -
  from split_list [OF assms(2)] obtain xs ys where "ids = xs @ i # ys" by blast
  with assms(1) have ids: "ids = xs @ i # ys" "i \<notin> set xs" "i \<notin> set ys" by auto
  let ?s1 = "fold (check_and_notify pg bad now) xs s"
  let ?s2 = "check_and_notify pg bad now i ?s1"
  note o1 = fold_check_other [OF ids(2) assms(7), of pg bad now]
  then have "(n, status_update now ord) \<in> set (pending ?s2)"
    using assms(3-6) by (simp add: check_and_notify_def check_order_def notifySubscribers_def Let_def)
  moreover have "set (pending ?s2) \<subseteq> set (pending (fold (check_and_notify pg bad now) ys ?s2))"
    using fold_check_other [OF ids(3), of ?s2] o1 by simp
  ultimately show ?thesis by (auto simp: checkForUpdates_def ids(1))
qed

section \<open>What is not reported, and the shutdown\<close>

text \<open>
  The order has reached its final status and the monitor does not remember it as Pending: nothing is
  under way to its subscribers, and nothing will be.
\<close>

definition silent :: "postgres \<Rightarrow> string \<Rightarrow> OrderServer \<Rightarrow> bool" where
  "silent pg i s \<longleftrightarrow> seen_true pg (sdb s) (lastStatuses s) \<and>
     (\<exists>k ord. uuid_in pg i = Some k \<and> sdb s k = Some ord \<and> oStatus ord \<noteq> StatusPending) \<and>
     lastStatuses s i \<noteq> Some StatusPending \<and> (\<forall>ord. noticed s \<noteq> Some (i, ord)) \<and>
     (\<forall>x \<in> set (pending s). sub_order s (fst x) \<noteq> Some i)"

lemma silent_frame:
  assumes "silent pg i s" and "lastStatuses s' = lastStatuses s" "noticed s' = noticed s" "sdb s' = sdb s"
    "sub_order s' = sub_order s" "set (pending s') \<subseteq> set (pending s)"
  shows "silent pg i s'"
  using assms by (auto simp: silent_def)

lemma unseen_silent:
  assumes "calm pg s" and "lastStatuses s i = None" and "uuid_in pg i = Some k" and "sdb s k = Some ord"
    and "oStatus ord \<noteq> StatusPending"
  shows "silent pg i s"
  unfolding silent_def
proof (intro conjI allI ballI)
  show "sub_order s (fst x) \<noteq> Some i" if "x \<in> set (pending s)" for x
  proof -
    have "told s (fst x)" using assms(1) that unfolding calm_def by blast
    then show ?thesis using assms(2) by (auto simp: told_def seen_final_def)
  qed
  show "noticed s \<noteq> Some (i, ord)" for ord using assms(1,2) by (auto simp: calm_def seen_final_def)
qed (use assms in \<open>auto simp: calm_def\<close>)

lemma silent_check:
  assumes "silent pg i s" and "noticed s = None"
  shows "silent pg i (check_order pg bad j s)"
proof (cases rule: check_order_cases [of pg bad j s])
  case none
  then show ?thesis using assms(1) by simp
next
  case (first ord)
  obtain k where k: "uuid_in pg j = Some k" "sdb s k = Some ord" using getOrder_Some [OF first(1)] by blast
  then have "j = i \<Longrightarrow> oStatus ord \<noteq> StatusPending" using assms(1) by (auto simp: silent_def)
  with k assms(1) show ?thesis unfolding first(3) silent_def by (auto simp: seen_true_upd)
next
  case (report ord st)
  obtain k where k: "uuid_in pg j = Some k" "sdb s k = Some ord" using getOrder_Some [OF report(1)] by blast
  have "st = StatusPending" using assms(1) report(2,3) k unfolding silent_def seen_true_def by fastforce
  then have "j \<noteq> i" using assms(1) report(2) by (auto simp: silent_def)
  with assms(1) k show ?thesis unfolding report(4) silent_def by (auto simp: seen_true_upd)
qed

lemma silent_notify:
  assumes "silent pg i s" and "stream_inv s" and "noticed s = Some (j, ord)"
  shows "silent pg i (notifySubscribers now j ord s)"
proof -
  have "n \<in> set (subs_of s j) \<Longrightarrow> sub_order s n = Some j" for n using assms(2) by (simp add: stream_inv_def)
  then show ?thesis using assms(1,3) by (auto simp: silent_def notifySubscribers_def)
qed

lemma silent_change:
  assumes "silent pg i s" and "order_step (sdb s) db"
  shows "silent pg i (s\<lparr>sdb := db\<rparr>)"
proof -
  from assms(1) obtain k ord where k: "uuid_in pg i = Some k" "sdb s k = Some ord" "oStatus ord \<noteq> StatusPending"
    by (auto simp: silent_def)
  then have "db k = Some ord" using order_step_keeps [OF assms(2) k(2)] by auto
  with k assms seen_true_change show ?thesis by (auto simp: silent_def)
qed

text \<open>Only the greeting of a handler that has not sent yet can still reach the subscriber.\<close>

definition unreached :: "postgres \<Rightarrow> string \<Rightarrow> nat \<Rightarrow> OrderServer \<Rightarrow> bool" where
  "unreached pg i n s \<longleftrightarrow> silent pg i s \<and> sub_order s n = Some i \<and> n \<notin> fst ` set (starting s)"

lemma unreached_step:
  assumes "stream_step pg s s'" and "stream_inv s" and "unreached pg i n s"
  shows "unreached pg i n s' \<and> received s' n = received s n"
  using assms
proof (induction rule: stream_step.induct)
  case (subscribe s bad j r s')
  from subscribe.hyps(2) show ?case
    by (cases rule: subscribe_cases) (use subscribe.prems in \<open>auto simp: unreached_def silent_def\<close>)
next
  case (register s x)
  have fresh: "sub_order s (next_sub s) = None" by (rule fresh_number [OF register.prems(1)])
  then have "\<forall>x \<in> set (pending s). fst x \<noteq> next_sub s" using register.prems(1) by (auto simp: stream_inv_def)
  moreover have "n \<noteq> next_sub s" using fresh register.prems(2) by (auto simp: unreached_def)
  ultimately show ?case using register.prems by (simp add: unreached_def silent_def)
next
  case (greet s x now e r s')
  obtain m ord where x: "x = (m, ord)" by (cases x)
  have "m \<noteq> n" using greet x by (force simp: unreached_def)
  then have "received s' n = received s n" "set (starting s') \<subseteq> set (starting s)"
    using greet.hyps(3) x set_remove1_subset [of x "starting s"]
    by (auto simp: send_initial_def Let_def split: option.splits)
  with greet.prems greet_frame [OF greet.hyps(3)] show ?case by (auto simp: unreached_def silent_def)
next
  case (check s j ids bad)
  have "silent pg i (s\<lparr>to_check := ids\<rparr>)" using check.prems(2) by (simp add: unreached_def silent_def)
  then have "silent pg i (check_order pg bad j (s\<lparr>to_check := ids\<rparr>))" using check.hyps(2) by (simp add: silent_check)
  then show ?case using check.prems(2) by (simp add: unreached_def)
next
  case (notify s j order now)
  then show ?case using silent_notify [of pg i s j order now] by (simp add: unreached_def notifySubscribers_def)
next
  case (send s x ok)
  obtain m u where x: "x = (m, u)" by (cases x)
  have "m \<noteq> n" using send x by (auto simp: unreached_def silent_def)
  moreover have "silent pg i (send_update x ok s)"
    by (rule silent_frame [of pg i s])
      (use send.prems x set_remove1_subset [of x "pending s"] in \<open>auto simp: unreached_def send_update_def close_done_def Let_def\<close>)
  ultimately show ?case
    using send.prems x by (auto simp: send_update_def close_done_def Let_def unreached_def)
next
  case (resume s m j)
  then show ?case by (simp add: unreached_def silent_def removeSubscriber_def Let_def)
next
  case (change s db)
  then show ?case using silent_change [of pg i s db] by (simp add: unreached_def)
qed (simp_all add: unreached_def silent_def Stop_def)

lemma unreached_runs:
  assumes "(stream_step pg)\<^sup>*\<^sup>* s s'" and "stream_inv s" and "unreached pg i n s"
  shows "unreached pg i n s' \<and> received s' n = received s n"
  using assms
proof (induction rule: rtranclp_induct)
  case (step y z)
  then show ?case using unreached_step [OF step.hyps(2)] stream_runs_inv [OF step.hyps(1)] by auto
qed simp

text \<open>
  When the monitor has left its loop, a handler whose channel is not closed and to whom nothing is
  pending waits for ever.
\<close>

definition stuck_handler :: "nat \<Rightarrow> OrderServer \<Rightarrow> bool" where
  "stuck_handler n s \<longleftrightarrow> monitor_done s \<and> to_check s = [] \<and> noticed s = None \<and>
     n \<in> set (waiting s) \<and> n \<notin> set (closed s) \<and> n \<notin> fst ` set (pending s)"

lemma stuck_step:
  assumes "stream_step pg s s'" and "stuck_handler n s"
  shows "stuck_handler n s'"
  using assms
proof (induction rule: stream_step.induct)
  case (subscribe s bad j r s')
  from subscribe.hyps(2) show ?case
    by (cases rule: subscribe_cases) (use subscribe.prems in \<open>auto simp: stuck_handler_def\<close>)
next
  case (greet s x now e r s')
  then show ?case using greet_frame [OF greet.hyps(3)] by (auto simp: stuck_handler_def)
next
  case (send s x ok)
  obtain m u where x: "x = (m, u)" by (cases x)
  have "m \<noteq> n" using send x by (force simp: stuck_handler_def)
  then show ?case
    using send x set_remove1_subset [of x "pending s"]
    by (auto simp: send_update_def close_done_def Let_def stuck_handler_def)
next
  case (resume s m j)
  then have "m \<noteq> n" by (auto simp: stuck_handler_def)
  with resume show ?case by (simp add: stuck_handler_def removeSubscriber_def Let_def in_set_remove1)
qed (simp_all add: stuck_handler_def Stop_def)

lemma stuck_runs: "(stream_step pg)\<^sup>*\<^sup>* s s' \<Longrightarrow> stuck_handler n s \<Longrightarrow> stuck_handler n s'"
  by (induction rule: rtranclp_induct) (auto intro: stuck_step)

end
