(* ===== verification/Order_Api.thy ===== *)
theory Order_Api
  imports Order_Main
begin

text \<open>
  What the HTTP interface of the order service answers when no call is lost: a read is answered
  from the cache or from the table, a cancellation succeeds for a Pending order only. The cache is
  invalidated under the identifier as the client wrote it, and entries are stored under the
  identifier of the row: a cancellation under another spelling of the identifier leaves the entry.
\<close>

section \<open>The cache, with no call lost\<close>

lemma run_cache_get:
  assumes "faults w = []"
  shows "\<exists>m. run_state (Store_Get c i) w = (Inr (cached c w i), w\<lparr>redis := m\<rparr>) \<and> (cached c w i \<noteq> None \<longrightarrow> m = redis w)"
proof (cases "store_nil c \<or> live (redis_clock w) (redis w) (cache_key i) = None")
  case True
  then have "run_state (Store_Get c i) w = (Inr (cached c w i), w\<lparr>redis := redis w\<rparr>)"
    using assms by (auto simp: Store_Get_def cached_def)
  then show ?thesis by blast
next
  case False
  then obtain t where t: "live (redis_clock w) (redis w) (cache_key i) = Some t" "\<not> store_nil c" by blast
  show ?thesis
  proof (cases "unmarshal_order t")
    case None
    then show ?thesis using assms t by (auto simp: Store_Get_def cached_def)
  next
    case (Some ord)
    then have "run_state (Store_Get c i) w = (Inr (cached c w i), w\<lparr>redis := redis w\<rparr>)"
      using assms t by (simp add: Store_Get_def cached_def)
    then show ?thesis by blast
  qed
qed

lemma run_cache_set:
  assumes "faults w = []"
  shows "\<exists>r m. run_state (Store_Set c ord ttl) w = (r, w\<lparr>redis := m\<rparr>) \<and>
    (\<not> store_nil c \<longrightarrow> storable ord \<longrightarrow> cached c (w\<lparr>redis := m\<rparr>) (oID ord) = Some ord)"
proof (cases "store_nil c")
  case True
  then have "run_state (Store_Set c ord ttl) w = (None, w\<lparr>redis := redis w\<rparr>)" by (simp add: Store_Set_def)
  with True show ?thesis by blast
next
  case False
  show ?thesis
  proof (cases "marshal_order ord")
    case None
    then have "\<not> storable ord" using order_roundtrip by fastforce
    moreover have "\<exists>r. run_state (Store_Set c ord ttl) w = (r, w\<lparr>redis := redis w\<rparr>)"
      using False None by (simp add: Store_Set_def)
    ultimately show ?thesis by blast
  next
    case (Some t)
    then have "storable ord \<Longrightarrow> unmarshal_order t = Some ord" using order_roundtrip [of ord] by auto
    with False Some assms show ?thesis
      by (intro exI conjI) (simp add: Store_Set_def, simp add: cached_def)
  qed
qed

section \<open>Reading\<close>

lemma order_handlers_fields [simp]:
  "hCreate (order_handlers v ttl) = sys_create v" "hGet (order_handlers v ttl) = sys_get v ttl"
  "hCancel (order_handlers v ttl) = sys_cancel v"
  by (simp_all add: order_handlers_def NewHandlers_def)

lemma sys_get_fields [simp]:
  "gOrders (sys_get v ttl) = order_repo (wPg v)" "gCache (sys_get v ttl) = sys_cache v" "gTtl (sys_get v ttl) = ttl"
  by (simp_all add: sys_get_def NewGetOrder_def)

lemma sys_cancel_fields [simp]: "xOrders (sys_cancel v) = order_repo (wPg v)" "xCache (sys_cancel v) = sys_cache v"
  by (simp_all add: sys_cancel_def NewCancelOrder_def)

text \<open>The answer that the table gives to a read.\<close>

definition table_answer :: "postgres \<Rightarrow> order_table \<Rightarrow> string \<Rightarrow> http_response" where
  "table_answer pg tab i =
     (case uuid_in pg i of
        None \<Rightarrow> respond StatusInternalServerError (error_body ''internal error'')
      | Some k \<Rightarrow>
          (case tab k of
             None \<Rightarrow> respond StatusNotFound (error_body ''order not found'')
           | Some ord \<Rightarrow> respond StatusOK (toOrderResponse (Some ord))))"

definition table_lookup :: "postgres \<Rightarrow> order_table \<Rightarrow> string \<Rightarrow> uerror + Order" where
  "table_lookup pg tab i =
     (case uuid_in pg i of
        None \<Rightarrow> Inl (db_error ''get order: '' (bad_uuid i))
      | Some k \<Rightarrow> (case tab k of None \<Rightarrow> Inl (Sentinel ErrOrderNotFound) | Some ord \<Rightarrow> Inr ord))"

lemma run_load:
  assumes "faults s = []"
  shows "\<exists>m. run_state (GetOrder_load (sys_get v ttl) i) s =
    (table_lookup (wPg v) (orders_tab s) i, s\<lparr>redis := m\<rparr>) \<and>
    (\<forall>k ord c. uuid_in (wPg v) i = Some k \<longrightarrow> orders_tab s k = Some ord \<longrightarrow> wCache v = Some c \<longrightarrow> \<not> store_nil c \<longrightarrow> 0 <s ttl \<longrightarrow>
       storable ord \<longrightarrow> cached c (s\<lparr>redis := m\<rparr>) (oID ord) = Some ord)"
proof (cases "\<exists>k ord. uuid_in (wPg v) i = Some k \<and> orders_tab s k = Some ord")
  case False
  have "run_state (GetOrder_load (sys_get v ttl) i) s =
    (table_lookup (wPg v) (orders_tab s) i, s\<lparr>redis := redis s\<rparr>)"
    using assms False
    by (auto simp: GetOrder_load_def repo_GetByID_def sql_get_order_def table_lookup_def split: option.splits)
  with False show ?thesis by blast
next
  case True
  then obtain k ord where k: "uuid_in (wPg v) i = Some k" "orders_tab s k = Some ord" by blast
  note get = run_get_ok [OF assms k(1)]
  have look: "table_lookup (wPg v) (orders_tab s) i = Inr ord" using k by (simp add: table_lookup_def)
  show ?thesis
  proof (cases "wCache v = None \<or> \<not> 0 <s ttl")
    case True
    then have "run_state (GetOrder_load (sys_get v ttl) i) s = (Inr ord, s\<lparr>redis := redis s\<rparr>)"
      using get k(2) by (auto simp: GetOrder_load_def sys_cache_def split: option.splits)
    with k True look show ?thesis by (intro exI [of _ "redis s"]) auto
  next
    case False
    then obtain c where c: "wCache v = Some c" "0 <s ttl" by auto
    from run_cache_set [OF assms, of c ord ttl] obtain r m where
      m: "run_state (Store_Set c ord ttl) s = (r, s\<lparr>redis := m\<rparr>)"
      "\<not> store_nil c \<longrightarrow> storable ord \<longrightarrow> cached c (s\<lparr>redis := m\<rparr>) (oID ord) = Some ord" by blast
    have "run_state (GetOrder_load (sys_get v ttl) i) s = (Inr ord, s\<lparr>redis := m\<rparr>)"
      using get k(2) c m(1) by (simp add: GetOrder_load_def sys_cache_def order_cache_store_def)
    with k c m(2) look show ?thesis by (intro exI [of _ m]) auto
  qed
qed

lemma get_not_found_texts: "\<not> errors_Is (db_error ''get order: '' m) ErrOrderNotFound"
  by (simp add: db_error_def)

text \<open>A read: from the cache if it has the order, from the table otherwise, and then cached.\<close>

lemma http_get:
  assumes "faults s = []" and "TrimSpace i \<noteq> []"
  shows "\<exists>m. run_state (Handlers_GetOrder (order_handlers v ttl) i) s =
    (case sys_cached v s (TrimSpace i) of
       Some ord \<Rightarrow> respond StatusOK (toOrderResponse (Some ord))
     | None \<Rightarrow> table_answer (wPg v) (orders_tab s) (TrimSpace i), s\<lparr>redis := m\<rparr>) \<and>
    (\<forall>k ord c. sys_cached v s (TrimSpace i) = None \<longrightarrow> uuid_in (wPg v) (TrimSpace i) = Some k \<longrightarrow> orders_tab s k = Some ord \<longrightarrow>
       wCache v = Some c \<longrightarrow> \<not> store_nil c \<longrightarrow> 0 <s ttl \<longrightarrow> storable ord \<longrightarrow> sys_cached v (s\<lparr>redis := m\<rparr>) (oID ord) = Some ord)"
proof -
  let ?i = "TrimSpace i"
  have load: "\<exists>m. run_state (GetOrder_load (sys_get v ttl) ?i) s1 =
      (table_lookup (wPg v) (orders_tab s) ?i, s\<lparr>redis := m\<rparr>) \<and>
      (\<forall>k ord c. uuid_in (wPg v) ?i = Some k \<longrightarrow> orders_tab s k = Some ord \<longrightarrow> wCache v = Some c \<longrightarrow> \<not> store_nil c \<longrightarrow> 0 <s ttl \<longrightarrow>
         storable ord \<longrightarrow> cached c (s\<lparr>redis := m\<rparr>) (oID ord) = Some ord)"
    if "s1 = s\<lparr>redis := m1\<rparr>" for s1 m1
    using run_load [of s1 v ttl ?i] assms(1) that by simp
  have answer: "(case (table_lookup (wPg v) (orders_tab s) ?i) of
      Inl err \<Rightarrow> if errors_Is err ErrOrderNotFound then respond StatusNotFound (error_body ''order not found'')
        else respond StatusInternalServerError (error_body ''internal error'')
    | Inr order \<Rightarrow> respond StatusOK (toOrderResponse (Some order))) = table_answer (wPg v) (orders_tab s) ?i"
    by (simp add: table_answer_def table_lookup_def get_not_found_texts split: option.splits)
  show ?thesis
  proof (cases "wCache v")
    case None
    from load [of s "redis s"] obtain m where
      "run_state (GetOrder_load (sys_get v ttl) ?i) s =
        (table_lookup (wPg v) (orders_tab s) ?i, s\<lparr>redis := m\<rparr>)" by auto
    then have "run_state (Handlers_GetOrder (order_handlers v ttl) i) s = (table_answer (wPg v) (orders_tab s) ?i, s\<lparr>redis := m\<rparr>)"
      using None assms(2) answer
      by (simp add: Handlers_GetOrder_def GetOrder_Execute_def Let_def sys_cache_def)
    with None show ?thesis by (auto simp: sys_cached_def)
  next
    case (Some c)
    have sc: "sys_cached v t = cached c t" for t using Some by (simp add: sys_cached_def)
    from run_cache_get [OF assms(1), of c ?i] obtain m1 where
      m1: "run_state (Store_Get c ?i) s = (Inr (cached c s ?i), s\<lparr>redis := m1\<rparr>)" by blast
    show ?thesis
    proof (cases "cached c s ?i")
      case None
      from load [of "s\<lparr>redis := m1\<rparr>" m1] obtain m where
        m: "run_state (GetOrder_load (sys_get v ttl) ?i) (s\<lparr>redis := m1\<rparr>) =
          (table_lookup (wPg v) (orders_tab s) ?i, s\<lparr>redis := m\<rparr>)"
        "\<forall>k ord c. uuid_in (wPg v) ?i = Some k \<longrightarrow> orders_tab s k = Some ord \<longrightarrow> wCache v = Some c \<longrightarrow> \<not> store_nil c \<longrightarrow> 0 <s ttl \<longrightarrow>
         storable ord \<longrightarrow> cached c (s\<lparr>redis := m\<rparr>) (oID ord) = Some ord" by blast
      have "run_state (Handlers_GetOrder (order_handlers v ttl) i) s = (table_answer (wPg v) (orders_tab s) ?i, s\<lparr>redis := m\<rparr>)"
        using Some None m(1) m1 assms(2) answer
        by (simp add: Handlers_GetOrder_def GetOrder_Execute_def Let_def sys_cache_def order_cache_store_def)
      with None m(2) sc \<open>wCache v = Some c\<close> show ?thesis by (intro exI [of _ m]) auto
    next
      case (Some ord)
      then have "run_state (Handlers_GetOrder (order_handlers v ttl) i) s =
          (respond StatusOK (toOrderResponse (Some ord)), s\<lparr>redis := m1\<rparr>)"
        using \<open>wCache v = Some c\<close> m1 assms(2)
        by (simp add: Handlers_GetOrder_def GetOrder_Execute_def Let_def sys_cache_def order_cache_store_def)
      with Some sc show ?thesis by (intro exI [of _ m1]) auto
    qed
  qed
qed

section \<open>Placing\<close>

text \<open>The input of the use case that a request makes.\<close>

definition request_input :: "createOrderRequest \<Rightarrow> http_request \<Rightarrow> CreateOrderInput" where
  "request_input req q = \<lparr>inCustomerID = crCustomerID req, inCustomerEmail = crCustomerEmail req, inItemName = crItemName req,
     inAmount = crAmount req, inIdempotencyKey = idempotency_key q\<rparr>"

lemma run_http_create:
  assumes "bind_createOrder decode (hqBody q) = Some req"
    and "run_state (CreateOrder_Execute (sys_create v) (request_input req q)) s = (r, s')"
  shows "run_state (Handlers_CreateOrder decode (order_handlers v ttl) q) s = (create_response r, s')"
  using assms by (simp add: Handlers_CreateOrder_def request_input_def)

lemma http_place:
  assumes "sys_inv v s" and "quiet s" and "fresh_ids s" and "net s = []"
    and "bind_createOrder decode (hqBody q) = Some req" and "valid_input (request_input req q)"
    and "key_free s (idempotency_key q)"
  shows "\<exists>ord s'. run_state (Handlers_CreateOrder decode (order_handlers v ttl) q) s =
      (respond StatusOK (toOrderResponse (Some ord)), s') \<and>
    oStatus ord = (if crAmount req \<le>s MaxAuthorizedAmountCents then StatusPaid else StatusFailed) \<and>
    ord = (placed_order s (request_input req q))\<lparr>oStatus := oStatus ord\<rparr> \<and>
    orders_tab s' = (orders_tab s)(oID ord \<mapsto> ord\<lparr>oCreatedAt := ts_col (wPg v) (wall s)\<rparr>) \<and>
    (let p = next_payment (psys s) (oID ord) (crAmount req) in
       payment_of (psys s') = (payment_of (psys s))(oID ord \<mapsto> p\<lparr>pCreatedAt := ts_col (wPayPg v) (pCreatedAt p)\<rparr>) \<and>
       published (psys s') = published (psys s) @ events_of (wUrl v) p (crCustomerEmail req))"
proof -
  let ?i = "request_input req q"
  have i: "inAmount ?i = crAmount req" "inCustomerEmail ?i = crCustomerEmail req" "inIdempotencyKey ?i = idempotency_key q"
    by (simp_all add: request_input_def)
  from create_normal [OF assms(1-3,6) _ assms(4)] assms(7) obtain ord s' where
    o: "run_state (CreateOrder_Execute (sys_create v) ?i) s = ((Some ord, None), s')"
    "oStatus ord = (if crAmount req \<le>s MaxAuthorizedAmountCents then StatusPaid else StatusFailed)"
    "ord = (placed_order s ?i)\<lparr>oStatus := oStatus ord\<rparr>"
    "orders_tab s' = (orders_tab s)(oID ord \<mapsto> ord\<lparr>oCreatedAt := ts_col (wPg v) (wall s)\<rparr>)"
    "let p = next_payment (psys s) (oID ord) (crAmount req) in
       payment_of (psys s') = (payment_of (psys s))(oID ord \<mapsto> p\<lparr>pCreatedAt := ts_col (wPayPg v) (pCreatedAt p)\<rparr>) \<and>
       published (psys s') = published (psys s) @ events_of (wUrl v) p (crCustomerEmail req)"
    unfolding i by blast
  have "create_response (Some ord, None) = respond StatusOK (toOrderResponse (Some ord))" by (simp add: create_response_def)
  with run_http_create [OF assms(5) o(1)] o(2-5) show ?thesis by metis
qed

section \<open>Cancelling\<close>

text \<open>The answer to a cancellation, and the table after it.\<close>

definition cancel_answer :: "postgres \<Rightarrow> order_table \<Rightarrow> string \<Rightarrow> http_response \<times> order_table" where
  "cancel_answer pg tab i =
     (case uuid_in pg i of
        None \<Rightarrow> (respond StatusInternalServerError (error_body ''internal error''), tab)
      | Some k \<Rightarrow>
          (case tab k of
             None \<Rightarrow> (respond StatusNotFound (error_body ''order not found''), tab)
           | Some ord \<Rightarrow>
               if oStatus ord = StatusPending
               then (respond StatusOK (toOrderResponse (Some (ord\<lparr>oStatus := StatusCancelled\<rparr>))),
                     tab(k \<mapsto> ord\<lparr>oStatus := StatusCancelled\<rparr>))
               else (respond StatusConflict
                 (error_body ''only pending orders can be cancelled; Paid, Failed, and Cancelled orders cannot''), tab)))"

text \<open>What the cache keeps: all but the entry of the identifier as it was written.\<close>

lemma http_cancel:
  assumes "faults s = []"
  shows "\<exists>m. run_state (Handlers_CancelOrder (order_handlers v ttl) i) s =
    (fst (cancel_answer (wPg v) (orders_tab s) (TrimSpace i)),
     s\<lparr>orders_tab := snd (cancel_answer (wPg v) (orders_tab s) (TrimSpace i)), redis := m\<rparr>) \<and>
    (\<forall>j. j \<noteq> TrimSpace i \<longrightarrow> m (cache_key j) = redis s (cache_key j))"
proof -
  let ?i = "TrimSpace i"
  show ?thesis
  proof (cases "\<exists>k ord. uuid_in (wPg v) ?i = Some k \<and> orders_tab s k = Some ord \<and> oStatus ord = StatusPending")
    case False
    then have "snd (cancel_answer (wPg v) (orders_tab s) ?i) = orders_tab s"
      by (auto simp: cancel_answer_def split: option.splits)
    moreover have "run_state (Handlers_CancelOrder (order_handlers v ttl) i) s = (fst (cancel_answer (wPg v) (orders_tab s) ?i), s)"
      using False assms
      by (auto simp: Handlers_CancelOrder_def CancelOrder_Execute_def repo_GetByID_def sql_get_order_def cancel_answer_def
          db_error_def split: option.splits)
    ultimately show ?thesis by (intro exI [of _ "redis s"]) simp
  next
    case True
    then obtain k ord where k: "uuid_in (wPg v) ?i = Some k" "orders_tab s k = Some ord" "oStatus ord = StatusPending" by blast
    let ?s1 = "s\<lparr>orders_tab := (orders_tab s)(k \<mapsto> ord\<lparr>oStatus := StatusCancelled\<rparr>)\<rparr>"
    have upd: "run_state (repo_UpdateStatus (wPg v) ?i StatusCancelled) s = (None, ?s1)"
      using run_update_ok [OF assms k(1,2), of StatusCancelled] by (simp add: statuses_def)
    have f1: "faults ?s1 = []" using assms by simp
    obtain m where m: "run_state (case sys_cache v of Some c \<Rightarrow> do {
          _ \<leftarrow> cDelete c ?i; State_Monad.return (Inr (ord\<lparr>oStatus := StatusCancelled\<rparr>) :: uerror + Order) }
        | None \<Rightarrow> State_Monad.return (Inr (ord\<lparr>oStatus := StatusCancelled\<rparr>))) ?s1 =
        (Inr (ord\<lparr>oStatus := StatusCancelled\<rparr>), ?s1\<lparr>redis := m\<rparr>)"
      "\<forall>j. j \<noteq> ?i \<longrightarrow> m (cache_key j) = redis s (cache_key j)"
    proof (cases "wCache v = None \<or> (\<exists>c. wCache v = Some c \<and> (store_nil c \<or> ?i = []))")
      case True
      then show thesis
        by (intro that [of "redis s"]) (auto simp: sys_cache_def order_cache_store_def Store_Delete_def)
    next
      case False
      then obtain c where "wCache v = Some c" "\<not> store_nil c" "?i \<noteq> []" by auto
      then show thesis using f1
        by (intro that [of "(redis s)(cache_key ?i := None)"])
          (simp_all add: sys_cache_def order_cache_store_def Store_Delete_def cache_key_def)
    qed
    have "cancel_answer (wPg v) (orders_tab s) ?i = (respond StatusOK (toOrderResponse (Some (ord\<lparr>oStatus := StatusCancelled\<rparr>))),
        (orders_tab s)(k \<mapsto> ord\<lparr>oStatus := StatusCancelled\<rparr>))"
      using k by (simp add: cancel_answer_def)
    moreover have "run_state (Handlers_CancelOrder (order_handlers v ttl) i) s =
        (respond StatusOK (toOrderResponse (Some (ord\<lparr>oStatus := StatusCancelled\<rparr>))), ?s1\<lparr>redis := m\<rparr>)"
      using run_get_ok [OF assms k(1)] k(2,3) upd m(1) by (simp add: Handlers_CancelOrder_def CancelOrder_Execute_def)
    ultimately show ?thesis using m(2) by (intro exI [of _ m]) simp
  qed
qed

section \<open>A stale entry\<close>

lemma cached_redis:
  "redis_clock w' = redis_clock w \<Longrightarrow> redis w' (cache_key i) = redis w (cache_key i) \<Longrightarrow> cached c w' i = cached c w i"
  by (simp add: cached_def live_def)

text \<open>
  An order is read (and cached), cancelled under another spelling of its identifier, and read
  again: the second read still answers Pending.
\<close>

lemma stale_read:
  assumes "faults s = []" and "wCache v = Some c" and "\<not> store_nil c" and "0 <s ttl" and "TrimSpace k = k" and "k \<noteq> []"
    and "uuid_in (wPg v) k = Some k" and "uuid_in (wPg v) j = Some k" and "TrimSpace j = j" and "j \<noteq> k"
    and "orders_tab s k = Some ord" and "oID ord = k" and "oStatus ord = StatusPending" and "storable ord"
    and "sys_cached v s k = None"
  shows "\<exists>s1 s2 s3.
    run_state (Handlers_GetOrder (order_handlers v ttl) k) s = (respond StatusOK (toOrderResponse (Some ord)), s1) \<and>
    run_state (Handlers_CancelOrder (order_handlers v ttl) j) s1 =
      (respond StatusOK (toOrderResponse (Some (ord\<lparr>oStatus := StatusCancelled\<rparr>))), s2) \<and>
    orders_tab s2 k = Some (ord\<lparr>oStatus := StatusCancelled\<rparr>) \<and>
    run_state (Handlers_GetOrder (order_handlers v ttl) k) s2 = (respond StatusOK (toOrderResponse (Some ord)), s3)"
proof -
  from http_get [OF assms(1), of k v ttl] obtain m where
    m: "run_state (Handlers_GetOrder (order_handlers v ttl) k) s = (table_answer (wPg v) (orders_tab s) k, s\<lparr>redis := m\<rparr>)"
    "sys_cached v (s\<lparr>redis := m\<rparr>) k = Some ord"
    using assms by auto
  have ans: "table_answer (wPg v) (orders_tab s) k = respond StatusOK (toOrderResponse (Some ord))"
    using assms(7,11) by (simp add: table_answer_def)
  let ?s1 = "s\<lparr>redis := m\<rparr>"
  from http_cancel [of ?s1 v ttl j] assms(1) obtain m2 where
    m2: "run_state (Handlers_CancelOrder (order_handlers v ttl) j) ?s1 =
      (fst (cancel_answer (wPg v) (orders_tab s) j), ?s1\<lparr>orders_tab := snd (cancel_answer (wPg v) (orders_tab s) j), redis := m2\<rparr>)"
    "\<forall>i. i \<noteq> j \<longrightarrow> m2 (cache_key i) = m (cache_key i)" using assms(9) by auto
  have can: "cancel_answer (wPg v) (orders_tab s) j = (respond StatusOK (toOrderResponse (Some (ord\<lparr>oStatus := StatusCancelled\<rparr>))),
      (orders_tab s)(k \<mapsto> ord\<lparr>oStatus := StatusCancelled\<rparr>))"
    using assms(8,11,13) by (simp add: cancel_answer_def)
  let ?s2 = "?s1\<lparr>orders_tab := (orders_tab s)(k \<mapsto> ord\<lparr>oStatus := StatusCancelled\<rparr>), redis := m2\<rparr>"
  have "sys_cached v ?s2 k = Some ord"
    using m(2) m2(2) assms(2,10) cached_redis [of ?s2 ?s1 k c] by (simp add: sys_cached_def)
  moreover have "faults ?s2 = []" using assms(1) by simp
  ultimately obtain m3 where
    "run_state (Handlers_GetOrder (order_handlers v ttl) k) ?s2 = (respond StatusOK (toOrderResponse (Some ord)), ?s2\<lparr>redis := m3\<rparr>)"
    using http_get [of ?s2 k v ttl] assms(5,6) by auto
  moreover have "run_state (Handlers_CancelOrder (order_handlers v ttl) j) ?s1 =
      (respond StatusOK (toOrderResponse (Some (ord\<lparr>oStatus := StatusCancelled\<rparr>))), ?s2)"
    using m2(1) can by simp
  moreover have "orders_tab ?s2 k = Some (ord\<lparr>oStatus := StatusCancelled\<rparr>)" by simp
  ultimately show ?thesis using m(1) ans by metis
qed

end
