(* ===== verification/Notify_Proofs.thy ===== *)
theory Notify_Proofs
  imports Notify_Processor
begin

text \<open>
  What the processor guarantees, for any sender that meets \<open>receipt_sender\<close>: how many emails one
  delivery can send, that a processed event is never mailed again, what an acknowledgement means,
  where each message ends up, and the backoff and text of the amounts.
\<close>

section \<open>The records\<close>

text \<open>A mark in Redis that counts now.\<close>

definition marked :: "'w notify_world_scheme \<Rightarrow> string \<Rightarrow> bool" where
  "marked w pid \<longleftrightarrow> live (redis_clock w) (redis w) (notify_key pid) = Some sentValue"

lemma was_processed_wp:
  assumes "ev \<noteq> []"
    and "\<And>m. Q (Inl (Errorf m)) (w\<lparr>faults := tl (faults w)\<rparr>)"
    and "Q (Inr (ev \<in> processed_tab w)) (w\<lparr>faults := tl (faults w)\<rparr>)"
  shows "wp (Store_WasProcessed ev) Q w"
  unfolding Store_WasProcessed_def using assms
  by (auto intro!: driver_read_wp simp: sql_was_processed_def)

lemma already_sent_wp:
  assumes "TrimSpace pid = pid" and "pid \<noteq> []"
    and "\<And>e. Q (Inl e) (w\<lparr>faults := tl (faults w)\<rparr>)"
    and "Q (Inr (marked w pid)) (w\<lparr>faults := tl (faults w)\<rparr>)"
  shows "wp (Store_AlreadySent pid) Q w"
  unfolding Store_AlreadySent_def Let_def redis_get_def using assms
  by (auto intro!: driver_read_wp simp: marked_def split: option.splits)

lemma record_wp:
  assumes "\<And>m. Q (Some (Errorf m)) (w\<lparr>faults := tl (faults w)\<rparr>)"
    and "\<And>e. ev \<notin> processed_tab w \<Longrightarrow>
      Q e (w\<lparr>faults := tl (faults w), processed_tab := insert ev (processed_tab w)\<rparr>)"
  shows "wp (Store_RecordProcessed ev) Q w"
  unfolding Store_RecordProcessed_def wp_bind wp_return
  by (rule driver_wp) (use assms in \<open>auto simp: sql_record_processed_def split: if_splits\<close>)

lemma mark_wp:
  assumes "\<And>e. Q (Some e) (w\<lparr>faults := tl (faults w)\<rparr>)"
    and "\<And>e. Q e (w\<lparr>faults := tl (faults w), redis := (redis w)(notify_key (TrimSpace pid) \<mapsto>
        (sentValue, expiry (redis_clock w) (nsTtl s)))\<rparr>)"
    and "TrimSpace pid \<noteq> []"
  shows "wp (Store_MarkSent s pid) Q w"
  unfolding Store_MarkSent_def Let_def redis_set_def using assms(3)
  by (simp, intro driver_wp) (use assms(1,2) in auto)

lemma wp_log [simp]: "wp (log_printf l) Q w = Q () (w\<lparr>nlog := nlog w @ [l]\<rparr>)"
  by (simp add: wp_def log_printf_def)

text \<open>With no call lost.\<close>

lemma run_records_ok:
  assumes "faults w = []"
  shows "ev \<noteq> [] \<Longrightarrow> run_state (Store_WasProcessed ev) w = (Inr (ev \<in> processed_tab w), w)"
    and "TrimSpace pid = pid \<Longrightarrow> pid \<noteq> [] \<Longrightarrow> run_state (Store_AlreadySent pid) w = (Inr (marked w pid), w)"
    and "ev \<notin> processed_tab w \<Longrightarrow> run_state (Store_RecordProcessed ev) w =
      (None, w\<lparr>processed_tab := insert ev (processed_tab w)\<rparr>)"
    and "TrimSpace pid = pid \<Longrightarrow> pid \<noteq> [] \<Longrightarrow> run_state (Store_MarkSent s pid) w =
      (None, w\<lparr>redis := (redis w)(notify_key pid \<mapsto> (sentValue, expiry (redis_clock w) (nsTtl s)))\<rparr>)"
  using assms
  by (simp_all add: Store_WasProcessed_def sql_was_processed_def Store_AlreadySent_def marked_def
      Store_RecordProcessed_def sql_record_processed_def Store_MarkSent_def split: option.splits)

lemma payment_id_of_trim [simp]: "TrimSpace (payment_id_of pl) = payment_id_of pl"
  by (simp add: payment_id_of_def)

lemma payment_id_of_not_Nil: "TrimSpace (plEventID pl) \<noteq> [] \<Longrightarrow> payment_id_of pl \<noteq> []"
  by (simp add: payment_id_of_def)

lemma event_not_Nil: "TrimSpace ev \<noteq> [] \<Longrightarrow> ev \<noteq> []"
  by auto

lemma dispose_simps [simp]:
  "dispose None = Ack" "dispose (Some (transient t e)) = Nack True" "dispose (Some (poison t)) = Nack False"
  "dispose (Some (CtxErr c)) = Nack True" "dispose (Some (Sentinel ErrForceDLQDemo)) = Nack False"
  by (simp_all add: dispose_def transient_def poison_def)

section \<open>Sending\<close>

text \<open>The parts of the state that a send leaves alone.\<close>

definition same_records :: "'w notify_world_scheme \<Rightarrow> 'w notify_world_scheme \<Rightarrow> bool" where
  "same_records w w' \<longleftrightarrow> processed_tab w' = processed_tab w \<and> redis w' = redis w \<and>
     redis_clock w' = redis_clock w \<and> faults w' = faults w"

lemma same_records_refl [simp]: "same_records w w"
  by (simp add: same_records_def)

lemma same_records_trans: "same_records w w1 \<Longrightarrow> same_records w1 w2 \<Longrightarrow> same_records w w2"
  by (simp add: same_records_def)

lemma wait_effect: "run_state (wait d) w = (c, w') \<Longrightarrow> same_records w w' \<and> mails w' = mails w"
  by (auto simp: wait_def same_records_def)

lemma wait_wp:
  "(\<And>c w'. same_records w w' \<Longrightarrow> mails w' = mails w \<Longrightarrow> Q c w') \<Longrightarrow> wp (wait d) Q w"
  using wait_effect by (intro wpI) blast

locale notifier = receipt_sender sender mail_of
  for sender :: "'w notify_world_scheme Sender" and mail_of +
  fixes p :: "'w notify_world_scheme Processor"
  assumes uses_sender: "prSender p = sender"
begin

lemma send_step:
  assumes "run_state (SendPaymentReceipt (prSender p) i) w = (e, w')"
  shows "same_records w w' \<and> (\<exists>k. mails w' = mails w @ replicate k (mail_of i) \<and> k \<le> 1 \<and> (e = None \<longrightarrow> k = 1))"
proof -
  have run: "run_state (SendPaymentReceipt sender i) w = (e, w')" using assms uses_sender by simp
  have "same_records w w'" using send_frame [OF run] by (simp add: same_records_def)
  moreover have "\<exists>k. mails w' = mails w @ replicate k (mail_of i) \<and> k \<le> 1 \<and> (e = None \<longrightarrow> k = 1)"
  proof (cases e)
    case None
    then show ?thesis using send_ok run by (intro exI [of _ 1]) simp
  next
    case (Some err)
    with send_error run have "mails w' = mails w \<or> mails w' = mails w @ [mail_of i]" by blast
    with Some show ?thesis
      by (elim disjE) (rule exI [of _ 0], simp, rule exI [of _ 1], simp)
  qed
  ultimately show ?thesis ..
qed

text \<open>
  The loop makes at most the configured number of attempts, each of which hands over at most one
  email, all of them the same; it succeeds only if the last one was handed over.
\<close>

lemma send_loop_mails:
  "wp (send_loop p i a n lastErr) (\<lambda>r w'. same_records w w' \<and>
     (\<exists>k. mails w' = mails w @ replicate k (mail_of i) \<and> k \<le> n \<and>
        (r = Inr None \<longrightarrow> 0 < k \<or> n = 0 \<and> lastErr = None))) w"
proof (induction n arbitrary: a lastErr w)
  case 0
  then show ?case by simp
next
  case (Suc n)
  have go: "wp (do {
        e \<leftarrow> SendPaymentReceipt (prSender p) i;
        (case e of None \<Rightarrow> State_Monad.return (Inr None) | Some err \<Rightarrow> send_loop p i (Suc a) n (Some err))
      }) (\<lambda>r w'. same_records w w' \<and>
        (\<exists>k. mails w' = mails w @ replicate k (mail_of i) \<and> k \<le> Suc n \<and> (r = Inr None \<longrightarrow> 0 < k))) w1"
    if w1: "same_records w w1" "mails w1 = mails w" for w1
    unfolding wp_bind
  proof (rule wpI)
    fix e w2 assume run: "run_state (SendPaymentReceipt (prSender p) i) w1 = (e, w2)"
    from send_step [OF run] obtain k where k: "mails w2 = mails w @ replicate k (mail_of i)" "k \<le> 1"
      "e = None \<longrightarrow> k = 1" and sr: "same_records w w2" using w1 same_records_trans by metis
    show "wp (case e of None \<Rightarrow> State_Monad.return (Inr None) | Some err \<Rightarrow> send_loop p i (Suc a) n (Some err))
        (\<lambda>r w'. same_records w w' \<and>
          (\<exists>k. mails w' = mails w @ replicate k (mail_of i) \<and> k \<le> Suc n \<and> (r = Inr None \<longrightarrow> 0 < k))) w2"
    proof (cases e)
      case None
      with k sr show ?thesis by (simp, intro exI [of _ "1::nat"]) simp
    next
      case (Some err)
      show ?thesis unfolding Some option.case
      proof (rule wp_mono [OF Suc.IH], goal_cases)
        case (1 r w')
        then obtain j where "mails w' = mails w2 @ replicate j (mail_of i)" "j \<le> n" "r = Inr None \<longrightarrow> 0 < j"
          by auto
        then have "mails w' = mails w @ replicate (k + j) (mail_of i)" "k + j \<le> Suc n" "r = Inr None \<longrightarrow> 0 < k + j"
          using k by (simp_all add: replicate_add)
        then show ?case using 1 sr same_records_trans by blast
      qed
    qed
  qed
  have "wp (send_loop p i a (Suc n) lastErr) (\<lambda>r w'. same_records w w' \<and>
      (\<exists>k. mails w' = mails w @ replicate k (mail_of i) \<and> k \<le> Suc n \<and> (r = Inr None \<longrightarrow> 0 < k))) w"
  proof (cases "0 < a")
    case False
    then have a: "a = 0" by simp
    show ?thesis using go [of w, unfolded a] unfolding a by simp
  next
    case True
    show ?thesis
      unfolding send_loop.simps wp_bind if_P [OF True]
    proof (rule wait_wp, goal_cases)
      case (1 c w1)
      then show ?case using go [OF 1] by (cases c) (auto intro: exI [of _ 0])
    qed
  qed
  then show ?case by (rule wp_mono) auto
qed

text \<open>Recording after a send: the marks only grow, and nil means that both records are there.\<close>

lemma finish_records:
  assumes "plEventID pl \<notin> processed_tab w" and "TrimSpace (plEventID pl) \<noteq> []"
  shows "wp (finish p pl (payment_id_of pl)) (\<lambda>r w'. mails w' = mails w \<and> dispose r \<noteq> Nack False \<and>
     processed_tab w \<subseteq> processed_tab w' \<and> processed_tab w' \<subseteq> insert (plEventID pl) (processed_tab w) \<and>
     (r = None \<longrightarrow> plEventID pl \<in> processed_tab w')) w"
  unfolding finish_def wp_bind
  by (rule record_wp) (use assms payment_id_of_not_Nil in \<open>auto intro!: mark_wp split: option.splits\<close>)

text \<open>What a delivery may do when the event is neither processed nor marked.\<close>

lemma send_and_record_spec:
  assumes "plEventID pl \<notin> processed_tab w" and "TrimSpace (plEventID pl) \<noteq> []"
  shows "wp (send_and_record p pl) (\<lambda>r w'. processed_tab w \<subseteq> processed_tab w' \<and>
     processed_tab w' \<subseteq> insert (plEventID pl) (processed_tab w) \<and>
     (\<exists>k. mails w' = mails w @ replicate k (mail_of (send_input pl)) \<and> k \<le> attempts p \<and>
        (r = None \<longrightarrow> 0 < attempts p \<longrightarrow> 0 < k) \<and> (dispose r = Nack False \<longrightarrow> k = 0)) \<and>
     (r = None \<longrightarrow> plEventID pl \<in> processed_tab w') \<and>
     (dispose r = Nack False \<longrightarrow> TrimSpace (plCustomerEmail pl) = [] \<or>
        prDLQDemoOrderID p \<noteq> [] \<and> TrimSpace (plOrderID pl) = prDLQDemoOrderID p)) w"
  (is "wp _ ?Q w")
proof (cases "prDLQDemoOrderID p \<noteq> [] \<and> TrimSpace (plOrderID pl) = prDLQDemoOrderID p \<or> siToEmail (send_input pl) = []")
  case True
  then show ?thesis
    by (auto simp: send_and_record_def send_input_def intro: exI [of _ 0])
next
  case False
  have "wp (send_loop p (send_input pl) 0 (attempts p) None) (\<lambda>r. wp (case r of
           Inl c \<Rightarrow> State_Monad.return (Some (CtxErr c))
         | Inr (Some lastErr) \<Rightarrow> State_Monad.return (Some (transient [] lastErr))
         | Inr None \<Rightarrow> finish p pl (payment_id_of pl)) ?Q) w"
  proof (rule wp_mono [OF send_loop_mails], goal_cases)
    case (1 r w1)
    then obtain k where k: "mails w1 = mails w @ replicate k (mail_of (send_input pl))" "k \<le> attempts p"
      "r = Inr None \<longrightarrow> 0 < k \<or> attempts p = 0" and pt: "processed_tab w1 = processed_tab w"
      by (auto simp: same_records_def)
    show ?case
    proof (cases "r = Inr None")
      case True
      have "wp (finish p pl (payment_id_of pl)) ?Q w1"
        by (rule wp_mono [OF finish_records]) (use assms pt k True in auto)
      with True show ?thesis by simp
    next
      case False
      then show ?thesis using k pt
        by (cases r) (auto split: option.splits)
    qed
  qed
  with False show ?thesis by (auto simp: send_and_record_def)
qed

text \<open>
  One delivery, with any calls lost: at most as many emails as attempts, all to the message's
  customer; none when the event is processed or its payment marked; an acknowledgement means
  that the event is recorded or the payment was marked, and that an email went out unless it was
  a duplicate; a message is dead-lettered only if it can never be sent.
\<close>

lemma handle_spec:
  assumes "unmarshal_payload body = Some pl" and "TrimSpace (plEventID pl) \<noteq> []"
  shows "wp (Processor_Handle p body) (\<lambda>r w'. processed_tab w \<subseteq> processed_tab w' \<and>
     processed_tab w' \<subseteq> insert (plEventID pl) (processed_tab w) \<and>
     (\<exists>k. mails w' = mails w @ replicate k (mail_of (send_input pl)) \<and> k \<le> attempts p \<and>
        (plEventID pl \<in> processed_tab w \<or> marked w (payment_id_of pl) \<longrightarrow> k = 0) \<and>
        (r = None \<longrightarrow> 0 < attempts p \<longrightarrow>
           plEventID pl \<in> processed_tab w \<or> marked w (payment_id_of pl) \<or> 0 < k) \<and>
        (dispose r = Nack False \<longrightarrow> k = 0)) \<and>
     (r = None \<longrightarrow> plEventID pl \<in> processed_tab w' \<or> marked w (payment_id_of pl)) \<and>
     (dispose r = Nack False \<longrightarrow> TrimSpace (plCustomerEmail pl) = [] \<or>
        prDLQDemoOrderID p \<noteq> [] \<and> TrimSpace (plOrderID pl) = prDLQDemoOrderID p)) w"
  (is "wp _ ?Q w")
proof -
  have transient_ok: "?Q (Some (transient t e)) (w\<lparr>faults := f\<rparr>)" for t e f
    by (auto intro: exI [of _ 0])
  have rest: "wp (send_and_record p pl) ?Q (w\<lparr>faults := f\<rparr>)"
    if "plEventID pl \<notin> processed_tab w" "\<not> marked w (payment_id_of pl)" for f
    by (rule wp_mono [OF send_and_record_spec]) (use that assms in auto)
  have nil: "?Q None (w\<lparr>faults := f\<rparr>)"
    if "plEventID pl \<in> processed_tab w \<or> marked w (payment_id_of pl)" for f
    using that by (auto intro: exI [of _ 0])
  have marked_frame: "marked (w\<lparr>faults := f\<rparr>) pid = marked w pid" for f pid
    by (simp add: marked_def)
  have sent: "wp (Store_AlreadySent (payment_id_of pl)) (\<lambda>s. wp (case s of
        Inl err \<Rightarrow> State_Monad.return (Some (transient ''redis idempotency: '' err))
      | Inr True \<Rightarrow> State_Monad.return None
      | Inr False \<Rightarrow> send_and_record p pl) ?Q) (w\<lparr>faults := f\<rparr>)"
    if "plEventID pl \<notin> processed_tab w" for f
    by (rule already_sent_wp)
      (use that assms transient_ok rest nil payment_id_of_not_Nil in \<open>auto simp: marked_frame split: bool.splits\<close>)
  show ?thesis
    unfolding Processor_Handle_def assms option.case wp_bind if_not_P [OF assms(2)]
    by (rule was_processed_wp)
      (use assms event_not_Nil transient_ok nil sent in \<open>auto split: bool.splits\<close>)
qed

text \<open>A message that cannot be decoded, or has no event, is dead-lettered and changes nothing.\<close>

lemma handle_undecodable:
  assumes "case unmarshal_payload body of None \<Rightarrow> True | Some pl \<Rightarrow> TrimSpace (plEventID pl) = []"
  shows "wp (Processor_Handle p body) (\<lambda>r w'. dispose r = Nack False \<and> w' = w) w"
  using assms by (auto simp: Processor_Handle_def split: option.splits)

end

section \<open>The queue\<close>

text \<open>A message that can be sent: decoded, with an event and a customer, not the demo order.\<close>

definition sendable :: "'w Processor \<Rightarrow> string \<Rightarrow> Payload option" where
  "sendable p b =
     (case unmarshal_payload b of
        None \<Rightarrow> None
      | Some pl \<Rightarrow>
          if TrimSpace (plEventID pl) = [] \<or> TrimSpace (plCustomerEmail pl) = [] \<or>
             prDLQDemoOrderID p \<noteq> [] \<and> TrimSpace (plOrderID pl) = prDLQDemoOrderID p
          then None else Some pl)"

text \<open>The event is recorded, or its payment is marked.\<close>

definition handled :: "'w notify_world_scheme \<Rightarrow> Payload \<Rightarrow> bool" where
  "handled w pl \<longleftrightarrow> plEventID pl \<in> processed_tab w \<or> marked w (payment_id_of pl)"

lemma keeps_more_records [go_frame]:
  "keeps notify_world.more (Store_WasProcessed ev)" "keeps notify_world.more (Store_RecordProcessed ev)"
  "keeps notify_world.more (Store_AlreadySent pid)" "keeps notify_world.more (Store_MarkSent s pid)"
  "keeps notify_world.more (log_printf l)"
  unfolding Store_WasProcessed_def Store_RecordProcessed_def Store_AlreadySent_def Store_MarkSent_def
    redis_get_def redis_set_def Let_def
  by (intro go_frame; simp add: sql_was_processed_def sql_record_processed_def)+
    (simp add: keeps_def log_printf_def)

context notifier
begin

lemma keeps_more_loop: "keeps notify_world.more (send_loop p i a n e)"
proof (induction n arbitrary: a e)
  case (Suc n)
  then show ?case unfolding send_loop.simps uses_sender by (intro go_frame send_more)
qed (simp add: go_frame)

lemma keeps_more_handle: "keeps notify_world.more (Processor_Handle p body)"
  unfolding Processor_Handle_def send_and_record_def finish_def
  by (intro go_frame keeps_more_loop)

end

text \<open>What \<open>consume_one\<close> does with the message at the head.\<close>

lemma consumer_fields:
  assumes "notify_world.more w' = notify_world.more w"
  shows "mq w' = mq w" "dlq w' = dlq w" "settled w' = settled w" "answers_lost w' = answers_lost w"
  using assms by (cases w; cases w'; simp)+

locale consumer = notifier sender mail_of p
  for sender :: "consumer_world Sender" and mail_of and p
begin

text \<open>No message is lost: each is still queued, dead-lettered or settled.\<close>

lemma consume_one_conserves:
  assumes "run_state (consume_one p) w = (u, w')"
  shows "mset (mq w') + mset (dlq w') + mset (settled w') = mset (mq w) + mset (dlq w) + mset (settled w)"
proof (cases "mq w")
  case Nil
  with assms show ?thesis by (simp add: consume_one_def)
next
  case (Cons b rest)
  obtain e w1 where run: "run_state (Processor_Handle p b) w = (e, w1)" by fastforce
  note f = consumer_fields [OF keepsD [OF keeps_more_handle run]]
  show ?thesis
    using assms Cons f run
    by (auto simp: consume_one_def consumer_handle_def Let_def split: if_splits disposition.splits bool.splits)
qed

lemma consume_conserves:
  assumes "run_state (consume p n) w = (u, w')"
  shows "mset (mq w') + mset (dlq w') + mset (settled w') = mset (mq w) + mset (dlq w) + mset (settled w)"
  using assms
proof (induction n arbitrary: w)
  case (Suc n)
  obtain w1 where run: "run_state (consume_one p) w = ((), w1)" by (cases "run_state (consume_one p) w") auto
  with Suc.prems have "run_state (consume p n) w1 = (u, w')" by simp
  from Suc.IH [OF this] consume_one_conserves [OF run] show ?case by simp
qed simp

text \<open>Only messages that cannot be sent are dead-lettered.\<close>

lemma consume_one_dead:
  assumes "run_state (consume_one p) w = (u, w')" and "\<forall>b \<in> set (dlq w). sendable p b = None"
  shows "\<forall>b \<in> set (dlq w'). sendable p b = None"
proof (cases "mq w")
  case Nil
  with assms show ?thesis by (simp add: consume_one_def)
next
  case (Cons b rest)
  obtain e w1 where run: "run_state (Processor_Handle p b) w = (e, w1)" by fastforce
  note f = consumer_fields [OF keepsD [OF keeps_more_handle run]]
  have "dispose e = Nack False \<Longrightarrow> sendable p b = None"
  proof (cases "unmarshal_payload b")
    case (Some pl)
    assume "dispose e = Nack False"
    with Some show ?thesis
      using wpD [OF handle_spec [OF Some] run] by (cases "TrimSpace (plEventID pl) = []") (auto simp: sendable_def)
  qed (simp add: sendable_def)
  then show ?thesis
    using assms Cons f run
    by (auto simp: consume_one_def consumer_handle_def Let_def split: if_splits disposition.splits bool.splits)
qed

lemma consume_dead:
  assumes "run_state (consume p n) w = (u, w')" and "\<forall>b \<in> set (dlq w). sendable p b = None"
  shows "\<forall>b \<in> set (dlq w'). sendable p b = None"
  using assms
proof (induction n arbitrary: w)
  case (Suc n)
  obtain w1 where run: "run_state (consume_one p) w = ((), w1)" by (cases "run_state (consume_one p) w") auto
  with Suc.prems have "run_state (consume p n) w1 = (u, w')" by simp
  from Suc.IH [OF this consume_one_dead [OF run Suc.prems(2)]] show ?case .
qed simp

end

end
