(* ===== verification/Notify_Runs.thy ===== *)
theory Notify_Runs
  imports Notify_Proofs
begin

text \<open>
  Runs of the consumer when the services around it answer: the queue is drained and every message
  that can be sent is mailed exactly once per event and per payment, however often it was
  delivered. And the texts and delays: \<open>formatUSD\<close> and the backoff.
\<close>

locale reliable_consumer = consumer sender mail_of p
  for sender :: "consumer_world Sender" and mail_of and p +
  fixes good :: "consumer_world \<Rightarrow> bool"
  assumes good_send: "good w \<Longrightarrow> \<exists>w'. run_state (SendPaymentReceipt sender i) w = (None, w') \<and> good w'"
    and good_records: "good w \<Longrightarrow> good (w\<lparr>processed_tab := a, redis := b, nlog := c\<rparr>)"
    and good_queue: "good w \<Longrightarrow> good (w\<lparr>answers_lost := al, mq := q, dlq := d, settled := st\<rparr>)"
    and some_attempt: "0 < attempts p"
begin

lemma good_parts:
  assumes "good w"
  shows "good (w\<lparr>processed_tab := a\<rparr>)" "good (w\<lparr>redis := b\<rparr>)" "good (w\<lparr>nlog := c\<rparr>)"
proof -
  show "good (w\<lparr>processed_tab := a\<rparr>)" using good_records [OF assms, where a = a and b = "redis w" and c = "nlog w"] by simp
  show "good (w\<lparr>redis := b\<rparr>)" using good_records [OF assms, where a = "processed_tab w" and b = b and c = "nlog w"] by simp
  show "good (w\<lparr>nlog := c\<rparr>)" using good_records [OF assms, where a = "processed_tab w" and b = "redis w" and c = c] by simp
qed

lemma send_loop_ok:
  assumes "good w"
  shows "\<exists>w'. run_state (send_loop p i 0 (attempts p) None) w = (Inr None, w') \<and> good w' \<and>
    same_records w w' \<and> mails w' = mails w @ [mail_of i]"
proof -
  obtain n where n: "attempts p = Suc n" using some_attempt gr0_conv_Suc by blast
  obtain w' where run: "run_state (SendPaymentReceipt sender i) w = (None, w')" "good w'"
    using good_send [OF assms] by blast
  have "same_records w w'" using send_frame [OF run(1)] by (simp add: same_records_def)
  with run send_ok [OF run(1)] show ?thesis by (simp add: n uses_sender)
qed

lemma marked_set:
  "marked (w\<lparr>redis := (redis w)(notify_key pid \<mapsto> (sentValue, expiry (redis_clock w) ttl))\<rparr>) q \<longleftrightarrow> q = pid \<or> marked w q"
  by (cases "q = pid") (simp_all add: marked_def notify_key_def)

lemma marked_fields [simp]:
  "marked (w\<lparr>nlog := l\<rparr>) q = marked w q" "marked (w\<lparr>processed_tab := s\<rparr>) q = marked w q"
  by (simp_all add: marked_def)

lemma finish_ok:
  assumes "good w" and "faults w = []" and "plEventID pl \<notin> processed_tab w" and "TrimSpace (plEventID pl) \<noteq> []"
  shows "\<exists>w'. run_state (finish p pl (payment_id_of pl)) w = (None, w') \<and> good w' \<and> faults w' = [] \<and>
    mails w' = mails w \<and> processed_tab w' = insert (plEventID pl) (processed_tab w) \<and>
    (\<forall>q. marked w' q \<longleftrightarrow> q = payment_id_of pl \<or> marked w q)"
proof -
  let ?w1 = "w\<lparr>processed_tab := insert (plEventID pl) (processed_tab w)\<rparr>"
  let ?w2 = "?w1\<lparr>redis := (redis ?w1)(notify_key (payment_id_of pl) \<mapsto>
    (sentValue, expiry (redis_clock ?w1) (nsTtl (prRedis p))))\<rparr>"
  have run: "run_state (finish p pl (payment_id_of pl)) w =
      (None, ?w2\<lparr>nlog := nlog ?w2 @ [''[Notification] Sent email to '' @ plCustomerEmail pl @ '' for Order #'' @
        plOrderID pl @ ''. Amount: '' @ formatUSD (plAmount pl)]\<rparr>)"
    using assms payment_id_of_not_Nil [OF assms(4)]
    by (simp add: finish_def run_records_ok log_printf_def)
  have "marked ?w2 q \<longleftrightarrow> q = payment_id_of pl \<or> marked w q" for q
    by (simp only: marked_set marked_fields)
  then show ?thesis unfolding run using assms(1,2) by (auto intro!: good_parts)
qed

lemma handle_sendable:
  assumes "good w" and "faults w = []" and "sendable p b = Some pl"
  shows "\<exists>w'. run_state (Processor_Handle p b) w = (None, w') \<and> good w' \<and> faults w' = [] \<and>
    (if handled w pl then w' = w
     else mails w' = mails w @ [mail_of (send_input pl)] \<and>
       processed_tab w' = insert (plEventID pl) (processed_tab w) \<and>
       (\<forall>q. marked w' q \<longleftrightarrow> q = payment_id_of pl \<or> marked w q))"
proof -
  from assms(3) have pl: "unmarshal_payload b = Some pl" "TrimSpace (plEventID pl) \<noteq> []"
    "TrimSpace (plCustomerEmail pl) \<noteq> []"
    "\<not> (prDLQDemoOrderID p \<noteq> [] \<and> TrimSpace (plOrderID pl) = prDLQDemoOrderID p)"
    by (auto simp: sendable_def split: option.splits if_splits)
  note recs = run_records_ok(1) [OF assms(2) event_not_Nil [OF pl(2)]]
    run_records_ok(2) [OF assms(2) payment_id_of_trim payment_id_of_not_Nil [OF pl(2)]]
  show ?thesis
  proof (cases "handled w pl")
    case True
    then have "run_state (Processor_Handle p b) w = (None, w)"
      using pl recs by (auto simp: Processor_Handle_def handled_def split: bool.splits)
    with True assms show ?thesis by simp
  next
    case False
    from send_loop_ok [OF assms(1), of "send_input pl"] obtain w1 where
      w1: "run_state (send_loop p (send_input pl) 0 (attempts p) None) w = (Inr None, w1)" "good w1"
      "same_records w w1" "mails w1 = mails w @ [mail_of (send_input pl)]" by blast
    have f1: "faults w1 = []" "processed_tab w1 = processed_tab w" "marked w1 = marked w"
      using w1(3) assms(2) by (simp_all add: same_records_def marked_def [abs_def])
    have "plEventID pl \<notin> processed_tab w1" using False f1 by (simp add: handled_def)
    from finish_ok [OF w1(2) f1(1) this pl(2)] obtain w2 where
      w2: "run_state (finish p pl (payment_id_of pl)) w1 = (None, w2)" "good w2" "faults w2 = []"
      "mails w2 = mails w1" "processed_tab w2 = insert (plEventID pl) (processed_tab w1)"
      "\<forall>q. marked w2 q \<longleftrightarrow> q = payment_id_of pl \<or> marked w1 q" by blast
    have "run_state (send_and_record p pl) w = (None, w2)"
      using pl(3,4) w1(1) w2(1) by (auto simp: send_and_record_def send_input_def)
    then have "run_state (Processor_Handle p b) w = (None, w2)"
      using False pl recs by (simp add: Processor_Handle_def handled_def)
    with False w1 w2 f1 show ?thesis by simp
  qed
qed

lemma handle_unsendable:
  assumes "faults w = []" and "sendable p b = None"
  shows "\<exists>e. run_state (Processor_Handle p b) w = (e, w) \<and> dispose e \<noteq> Nack True"
proof (cases "unmarshal_payload b")
  case None
  then show ?thesis by (simp add: Processor_Handle_def)
next
  case (Some pl)
  show ?thesis
  proof (cases "TrimSpace (plEventID pl) = []")
    case True
    with Some show ?thesis by (simp add: Processor_Handle_def)
  next
    case False
    note recs = run_records_ok(1) [OF assms(1) event_not_Nil [OF False]]
      run_records_ok(2) [OF assms(1) payment_id_of_trim payment_id_of_not_Nil [OF False]]
    from assms(2) Some False have "TrimSpace (plCustomerEmail pl) = [] \<or>
        prDLQDemoOrderID p \<noteq> [] \<and> TrimSpace (plOrderID pl) = prDLQDemoOrderID p"
      by (auto simp: sendable_def split: if_splits)
    then show ?thesis
      using Some False recs
      by (auto simp: Processor_Handle_def send_and_record_def send_input_def split: bool.splits)
  qed
qed

lemma handled_queue [simp]:
  "handled (w\<lparr>answers_lost := al, mq := q, dlq := d, settled := st\<rparr>) pl = handled w pl"
  by (simp add: handled_def marked_def)

text \<open>One message leaves the queue; it is mailed when it can be sent and was not handled.\<close>

lemma consume_one_ok:
  assumes "good w" and "faults w = []" and "answers_lost w = []" and "mq w = b # rest"
  shows "\<exists>w' new. run_state (consume_one p) w = ((), w') \<and> good w' \<and> faults w' = [] \<and> answers_lost w' = [] \<and>
    mq w' = rest \<and> mails w' = mails w @ map (mail_of \<circ> send_input) new \<and>
    new = (case sendable p b of None \<Rightarrow> [] | Some pl \<Rightarrow> if handled w pl then [] else [pl]) \<and>
    (\<forall>q. handled w' q \<longleftrightarrow> handled w q \<or> (\<exists>pl \<in> set new. plEventID q = plEventID pl \<or> payment_id_of q = payment_id_of pl))"
proof -
  define new where "new = (case sendable p b of None \<Rightarrow> [] | Some pl \<Rightarrow> if handled w pl then [] else [pl])"
  obtain e w1 where h: "run_state (Processor_Handle p b) w = (e, w1)" "good w1" "faults w1 = []" "dispose e \<noteq> Nack True"
    "mails w1 = mails w @ map (mail_of \<circ> send_input) new"
    "\<forall>q. handled w1 q \<longleftrightarrow> handled w q \<or> (\<exists>pl \<in> set new. plEventID q = plEventID pl \<or> payment_id_of q = payment_id_of pl)"
  proof (cases "sendable p b")
    case None
    from handle_unsendable [OF assms(2) None] obtain e where
      "run_state (Processor_Handle p b) w = (e, w)" "dispose e \<noteq> Nack True" by blast
    with None assms show thesis by (intro that) (auto simp: new_def)
  next
    case (Some pl)
    from handle_sendable [OF assms(1,2) Some] obtain w' where
      "run_state (Processor_Handle p b) w = (None, w')" "good w'" "faults w' = []"
      "if handled w pl then w' = w
       else mails w' = mails w @ [mail_of (send_input pl)] \<and>
         processed_tab w' = insert (plEventID pl) (processed_tab w) \<and>
         (\<forall>q. marked w' q \<longleftrightarrow> q = payment_id_of pl \<or> marked w q)" by blast
    with Some show thesis by (intro that) (auto simp: new_def handled_def split: if_splits)
  qed
  note f = consumer_fields [OF keepsD [OF keeps_more_handle h(1)]]
  define w' where "w' = (case dispose e of
      Ack \<Rightarrow> w1\<lparr>answers_lost := [], mq := rest, settled := settled w1 @ [b]\<rparr>
    | Nack _ \<Rightarrow> w1\<lparr>answers_lost := [], mq := rest, dlq := dlq w1 @ [b]\<rparr>)"
  have run: "run_state (consume_one p) w = ((), w')"
    using h(1,4) f assms(3,4)
    by (auto simp: consume_one_def consumer_handle_def w'_def Let_def split: disposition.splits bool.splits)
  define dl where "dl = (case dispose e of Ack \<Rightarrow> dlq w1 | Nack _ \<Rightarrow> dlq w1 @ [b])"
  define st where "st = (case dispose e of Ack \<Rightarrow> settled w1 @ [b] | Nack _ \<Rightarrow> settled w1)"
  have w': "w' = w1\<lparr>answers_lost := [], mq := rest, dlq := dl, settled := st\<rparr>"
    by (cases "dispose e") (simp_all add: w'_def dl_def st_def)
  show ?thesis
    using run h good_queue [OF h(2)] unfolding w' new_def [symmetric]
    by (intro exI conjI) (assumption | simp)+
qed

theorem drain:
  assumes "good w" and "faults w = []" and "answers_lost w = []" and "length (mq w) \<le> n"
  shows "\<exists>w' pls. run_state (consume p n) w = ((), w') \<and> mq w' = [] \<and>
    mails w' = mails w @ map (mail_of \<circ> send_input) pls \<and>
    distinct (map plEventID pls) \<and> distinct (map payment_id_of pls) \<and>
    (\<forall>pl \<in> set pls. \<not> handled w pl \<and> (\<exists>b \<in> set (mq w). sendable p b = Some pl)) \<and>
    (\<forall>b \<in> set (mq w). \<forall>pl. sendable p b = Some pl \<longrightarrow> handled w' pl) \<and>
    (\<forall>q. handled w q \<longrightarrow> handled w' q)"
  using assms
proof (induction n arbitrary: w)
  case 0
  then show ?case by (intro exI [of _ w] exI [of _ "[]"]) simp
next
  case (Suc n)
  show ?case
  proof (cases "mq w")
    case Nil
    then have "run_state (consume_one p) w = ((), w)" by (simp add: consume_one_def)
    with Suc.IH [of w] Suc.prems Nil show ?thesis by simp
  next
    case (Cons b rest)
    from consume_one_ok [OF Suc.prems(1-3) Cons] obtain w1 new where
      w1: "run_state (consume_one p) w = ((), w1)" "good w1" "faults w1 = []" "answers_lost w1 = []" "mq w1 = rest"
      "mails w1 = mails w @ map (mail_of \<circ> send_input) new"
      "new = (case sendable p b of None \<Rightarrow> [] | Some pl \<Rightarrow> if handled w pl then [] else [pl])"
      "\<forall>q. handled w1 q \<longleftrightarrow> handled w q \<or> (\<exists>pl \<in> set new. plEventID q = plEventID pl \<or> payment_id_of q = payment_id_of pl)"
      by blast
    have le: "length rest \<le> n" using Suc.prems(4) Cons by simp
    from Suc.IH [OF w1(2-4), unfolded w1(5), OF le] obtain w' pls where
      ih: "run_state (consume p n) w1 = ((), w')" "mq w' = []"
      "mails w' = mails w1 @ map (mail_of \<circ> send_input) pls" "distinct (map plEventID pls)" "distinct (map payment_id_of pls)"
      "\<forall>pl \<in> set pls. \<not> handled w1 pl \<and> (\<exists>b \<in> set rest. sendable p b = Some pl)"
      "\<forall>b \<in> set rest. \<forall>pl. sendable p b = Some pl \<longrightarrow> handled w' pl" "\<forall>q. handled w1 q \<longrightarrow> handled w' q"
      by blast
    have new: "new = [] \<or> (\<exists>pl. new = [pl] \<and> \<not> handled w pl \<and> sendable p b = Some pl)"
      using w1(7) by (auto split: option.splits if_splits)
    have apart: "plEventID q \<noteq> plEventID pl \<and> payment_id_of q \<noteq> payment_id_of pl"
      if "q \<in> set pls" "pl \<in> set new" for q pl
      using ih(6) w1(8) that by blast
    have "distinct (map plEventID (new @ pls))" "distinct (map payment_id_of (new @ pls))"
      using new apart ih(4,5) by (auto, metis, metis)
    moreover have "\<forall>pl \<in> set (new @ pls). \<not> handled w pl \<and> (\<exists>b \<in> set (mq w). sendable p b = Some pl)"
    proof
      fix pl assume "pl \<in> set (new @ pls)"
      then consider "pl \<in> set new" | "pl \<in> set pls" by auto
      then show "\<not> handled w pl \<and> (\<exists>b \<in> set (mq w). sendable p b = Some pl)"
      proof cases
        case 1
        with new Cons show ?thesis by auto
      next
        case 2
        with ih(6) w1(8) Cons show ?thesis by (metis list.set_intros(2))
      qed
    qed
    moreover have "\<forall>c \<in> set (mq w). \<forall>pl. sendable p c = Some pl \<longrightarrow> handled w' pl"
    proof (intro ballI allI impI)
      fix c pl assume c: "c \<in> set (mq w)" "sendable p c = Some pl"
      show "handled w' pl"
      proof (cases "c \<in> set rest")
        case True
        with ih(7) c show ?thesis by blast
      next
        case False
        with c Cons have "sendable p b = Some pl" by simp
        then have "handled w1 pl" using w1(7,8) by (auto split: if_splits)
        with ih(8) show ?thesis by blast
      qed
    qed
    moreover have "\<forall>q. handled w q \<longrightarrow> handled w' q" using ih(8) w1(8) by blast
    ultimately show ?thesis
      using w1(1,6) ih(1,2,3) by (intro exI [of _ w'] exI [of _ "new @ pls"]) (simp add: comp_def)
  qed
qed

end

section \<open>The service's two senders\<close>

definition new_processor ::
    "'w Sender \<Rightarrow> duration \<Rightarrow> string \<Rightarrow> int64 \<Rightarrow> duration \<Rightarrow> 'w Processor" where
  "new_processor s ttl demo maxAttempts base = \<lparr>prRedis = \<lparr>nsTtl = ttl\<rparr>, prSender = s, prDLQDemoOrderID = demo,
     prMaxAttempts = maxAttempts, prBackoffBase = base\<rparr>"

interpretation sim_consumer: consumer "simulated s" SimulatedMail "new_processor (simulated s) ttl demo n base"
  for s ttl demo n base
  by unfold_locales (simp add: new_processor_def)

interpretation mj_consumer: consumer "mailjet m" "\<lambda>i. MailjetMail (mailjet_request m i)"
    "new_processor (mailjet m) ttl demo n base"
  for m ttl demo n base
  by unfold_locales (simp add: new_processor_def)

end
