(* ===== verification/Notify_Config.thy ===== *)
theory Notify_Config
  imports Boot Notify_Runs
begin

text \<open>
  The configuration of the notification service (\<^verbatim>\<open>notification-service/cmd/notification-service/main.go\<close>,
  lines 75 to 105 and \<open>buildEmailSender\<close>): numbers and durations from the environment, the rate of
  failures as a \<open>float64\<close>, the choice of the sender, and the processor they make up.
\<close>

section \<open>Reading a float64\<close>

text \<open>
  \<open>strconv.ParseFloat(s, 64)\<close>: a decimal or hexadecimal number is rounded to the nearest \<open>float64\<close>,
  ties to the even mantissa. \<open>None\<close> stands for a syntax error, for a value out of range and for the
  infinities and not-a-number, all of which leave the default in place at the only call.
\<close>

definition round_even :: "rat \<Rightarrow> int" where
  "round_even x =
     (let f = \<lfloor>x\<rfloor>; r = x - of_int f
      in if r < 1 / 2 then f else if 1 / 2 < r then f + 1 else if even f then f else f + 1)"

definition two_to :: "int \<Rightarrow> rat" where
  "two_to e = (if 0 \<le> e then 2 ^ nat e else 1 / 2 ^ nat (- e))"

text \<open>The least exponent from -1074 on at which the mantissa has at most 53 bits.\<close>

definition round_float64 :: "rat \<Rightarrow> rat option" where
  "round_float64 x =
     (case find (\<lambda>e. \<bar>x\<bar> < two_to (e + 53)) (map (\<lambda>n. int n - 1074) [0..<2046]) of
        None \<Rightarrow> None
      | Some e \<Rightarrow>
          (let y = of_int (round_even (x / two_to e)) * two_to e
           in if \<bar>y\<bar> < two_to 1024 then Some y else None))"

definition digits_value :: "nat \<Rightarrow> (char \<Rightarrow> nat) \<Rightarrow> string \<Rightarrow> nat" where
  "digits_value base val s = foldl (\<lambda>n c. base * n + val c) 0 s"

text \<open>A mantissa with at most one point: its digits and how many stand behind the point.\<close>

definition split_point :: "string \<Rightarrow> (string \<times> nat) option" where
  "split_point s =
     (let i = takeWhile (\<lambda>c. c \<noteq> CHR ''.'') s; r = dropWhile (\<lambda>c. c \<noteq> CHR ''.'') s
      in case r of [] \<Rightarrow> Some (i, 0) | _ # f \<Rightarrow> if CHR ''.'' \<in> set f then None else Some (i @ f, length f))"

definition exponent_value :: "string \<Rightarrow> int option" where
  "exponent_value s =
     (let neg = (case s of c # _ \<Rightarrow> c = CHR ''-'' | [] \<Rightarrow> False);
          ds = (case s of c # r \<Rightarrow> if c = CHR ''-'' \<or> c = CHR ''+'' then r else s | [] \<Rightarrow> [])
      in if ds \<noteq> [] \<and> list_all is_digit ds
         then Some (if neg then - int (nat_value ds) else int (nat_value ds)) else None)"

definition ten_to :: "int \<Rightarrow> rat" where
  "ten_to e = (if 0 \<le> e then 10 ^ nat e else 1 / 10 ^ nat (- e))"

definition decimal_value :: "string \<Rightarrow> rat option" where
  "decimal_value s =
     (let m = takeWhile (\<lambda>c. c \<noteq> CHR ''e'' \<and> c \<noteq> CHR ''E'') s; r = dropWhile (\<lambda>c. c \<noteq> CHR ''e'' \<and> c \<noteq> CHR ''E'') s
      in case (split_point m, (case r of [] \<Rightarrow> Some 0 | _ # ex \<Rightarrow> exponent_value ex)) of
           (Some (ds, k), Some ex) \<Rightarrow>
             if ds \<noteq> [] \<and> list_all is_digit ds then Some (of_nat (nat_value ds) * ten_to (ex - int k)) else None
         | _ \<Rightarrow> None)"

definition hex_char :: "char \<Rightarrow> bool" where
  "hex_char c \<longleftrightarrow> is_digit c \<or> (65 \<le> byte c \<and> byte c \<le> 70) \<or> (97 \<le> byte c \<and> byte c \<le> 102)"

definition hex_digit_value :: "char \<Rightarrow> nat" where
  "hex_digit_value c = (if is_digit c then digit_value c else if (65 \<le> byte c \<and> byte c \<le> 70) then byte c - 55 else byte c - 87)"

text \<open>The exponent of two is mandatory.\<close>

definition hex_float_value :: "string \<Rightarrow> rat option" where
  "hex_float_value s =
     (let m = takeWhile (\<lambda>c. c \<noteq> CHR ''p'' \<and> c \<noteq> CHR ''P'') s; r = dropWhile (\<lambda>c. c \<noteq> CHR ''p'' \<and> c \<noteq> CHR ''P'') s
      in case (split_point m, (case r of [] \<Rightarrow> None | _ # ex \<Rightarrow> exponent_value ex)) of
           (Some (ds, k), Some ex) \<Rightarrow>
             if ds \<noteq> [] \<and> list_all hex_char ds
             then Some (of_nat (digits_value 16 hex_digit_value ds) * two_to (ex - 4 * int k)) else None
         | _ \<Rightarrow> None)"

text \<open>
  Underscores may stand between digits, and one after the prefix \<open>0x\<close>. \<open>saw\<close> is the kind of the
  character before: a digit (or the prefix), an underscore, or another one.
\<close>

datatype seen = SawDigit | SawUnderscore | SawOther

fun underscoreOK :: "bool \<Rightarrow> seen \<Rightarrow> string \<Rightarrow> bool" where
  "underscoreOK hex saw [] = (saw \<noteq> SawUnderscore)"
| "underscoreOK hex saw (c # s) =
     (if is_digit c \<or> hex \<and> hex_char c then underscoreOK hex SawDigit s
      else if c = CHR ''_'' then saw = SawDigit \<and> underscoreOK hex SawUnderscore s
      else saw \<noteq> SawUnderscore \<and> underscoreOK hex SawOther s)"

definition ParseFloat :: "string \<Rightarrow> rat option" where
  "ParseFloat s =
     (let neg = (case s of c # _ \<Rightarrow> c = CHR ''-'' | [] \<Rightarrow> False);
          t = (case s of c # r \<Rightarrow> if c = CHR ''-'' \<or> c = CHR ''+'' then r else s | [] \<Rightarrow> []);
          hex = (take 2 t = ''0x'' \<or> take 2 t = ''0X'');
          u = filter (\<lambda>c. c \<noteq> CHR ''_'') (if hex then drop 2 t else t);
          ok = underscoreOK hex (if hex then SawDigit else SawOther) (if hex then drop 2 t else t);
          v = (if \<not> ok then None else if hex then hex_float_value u else decimal_value u)
      in Option.bind (map_option (\<lambda>x. if neg then - x else x) v) round_float64)"

section \<open>The sender\<close>

definition provider_mode :: "environ \<Rightarrow> string" where
  "provider_mode env = (let m = ToUpper (TrimSpace (env ''PROVIDER_MODE'')) in if m = [] then ''SIMULATED'' else m)"

text \<open>A latency may be zero, in contrast to the other numbers; \<open>time.Duration(n) * time.Millisecond\<close> wraps.\<close>

definition latency_env :: "environ \<Rightarrow> string \<Rightarrow> duration \<Rightarrow> duration" where
  "latency_env env name d =
     (let v = TrimSpace (env name)
      in if v \<noteq> [] then (case ParseInt64 v of Some n \<Rightarrow> if 0 \<le>s n then n * Millisecond else d | None \<Rightarrow> d) else d)"

text \<open>The literal 0.2 is the \<open>float64\<close> next to it.\<close>

definition default_rate :: rat where
  "default_rate = 3602879701896397 / 18014398509481984"

definition fail_rate :: "environ \<Rightarrow> rat" where
  "fail_rate env =
     (let v = TrimSpace (env ''NOTIFICATION_SIM_FAIL_RATE'')
      in if v \<noteq> [] then (case ParseFloat v of Some f \<Rightarrow> if 0 \<le> f \<and> f \<le> 1 then f else default_rate | None \<Rightarrow> default_rate)
         else default_rate)"

definition buildEmailSender :: "environ \<Rightarrow> 'w notify_world_scheme Sender" where
  "buildEmailSender env =
     (if provider_mode env = ''REAL'' then
        mailjet (NewMailjet (TrimSpace (env ''MAILJET_API_KEY'')) (TrimSpace (env ''MAILJET_API_SECRET''))
          (TrimSpace (env ''MAILJET_FROM_EMAIL'')) (TrimSpace (env ''MAILJET_FROM_NAME'')))
      else
        simulated (NewSimulated (latency_env env ''NOTIFICATION_SIM_MIN_LATENCY_MS'' (50 * Millisecond))
          (latency_env env ''NOTIFICATION_SIM_MAX_LATENCY_MS'' (200 * Millisecond)) (fail_rate env)))"

section \<open>The processor\<close>

definition idempotency_ttl :: "environ \<Rightarrow> duration" where
  "idempotency_ttl env = env_duration env ''NOTIFICATION_IDEMPOTENCY_TTL_HOURS'' Hour (7 * 24 * Hour)"

definition max_attempts :: "environ \<Rightarrow> int64" where
  "max_attempts env = (case positive_env env ''NOTIFICATION_EMAIL_MAX_ATTEMPTS'' of Some n \<Rightarrow> n | None \<Rightarrow> 4)"

definition backoff_base :: "environ \<Rightarrow> duration" where
  "backoff_base env = env_duration env ''NOTIFICATION_BACKOFF_BASE_MS'' Millisecond (2 * Second)"

definition notify_processor :: "environ \<Rightarrow> 'w notify_world_scheme Processor" where
  "notify_processor env = new_processor (buildEmailSender env) (idempotency_ttl env)
     (TrimSpace (env ''NOTIFICATION_DLQ_DEMO_ORDER_ID'')) (max_attempts env) (backoff_base env)"

section \<open>Bounds of the configuration\<close>

text \<open>There is always at least one attempt.\<close>

lemma max_attempts_pos: "0 <s max_attempts env"
  by (auto simp: max_attempts_def go_int_order dest: positive_env_pos split: option.splits)

lemma notify_attempts: "0 < attempts (notify_processor env)"
  using max_attempts_pos [of env] by (simp add: attempts_def notify_processor_def new_processor_def go_int_order)

lemma fail_rate_range: "0 \<le> fail_rate env \<and> fail_rate env \<le> 1"
  by (auto simp: fail_rate_def default_rate_def Let_def split: option.splits)

text \<open>Whatever is configured, the simulated sender waits for a positive time within its bounds.\<close>

lemma simulated_bounds:
  assumes "s = NewSimulated a b r"
  shows "0 <s MinLatency s" and "0 \<le> FailRate s" and "FailRate s \<le> 1"
  using assms by (auto simp: NewSimulated_def Let_def Millisecond_def go_int_order)

section \<open>The consumer that reaches its provider\<close>

definition calm_sends :: "consumer_world \<Rightarrow> bool" where
  "calm_sends w \<longleftrightarrow> waits w = [] \<and> (\<forall>f \<in> set (float_draws w). 0 \<le> f)"

lemma tl_in: "x \<in> set (tl xs) \<Longrightarrow> x \<in> set xs"
  by (cases xs) simp_all

interpretation sim_reliable: reliable_consumer "simulated (NewSimulated a b 0)" SimulatedMail
    "new_processor (simulated (NewSimulated a b 0)) ttl demo (max_attempts env) base" calm_sends
  for a b ttl demo env base
proof (unfold_locales, goal_cases)
  case (1 w i)
  have rate: "FailRate (NewSimulated a b 0) = 0" by (simp add: NewSimulated_def Let_def)
  have "\<not> (case float_draws w of [] \<Rightarrow> 0 | x # _ \<Rightarrow> x) < 0"
    using 1 by (auto simp: calm_sends_def split: list.splits)
  with 1 rate show ?case
    by (auto simp: simulated_def Simulated_SendPaymentReceipt_def draw_int_def wait_def draw_float_def deliver_def
        calm_sends_def dest: tl_in)
next
  case 4
  then show ?case using max_attempts_pos [of env] by (simp add: attempts_def new_processor_def go_int_order)
qed (simp_all add: calm_sends_def)

end
