(* ===== verification/Notify_Props.thy ===== *)
theory Notify_Props
  imports Notify_Main Wire
begin

text \<open>
  The notification service as its \<open>main\<close> configures it: the guarantees of the consumer for the
  sender that the environment selects, the email that is sent twice when its record is lost, the
  delays between attempts and the text of an amount.
\<close>

section \<open>The configured consumer\<close>

definition main_mail :: "environ \<Rightarrow> SendInput \<Rightarrow> mail" where
  "main_mail env i =
     (if provider_mode env = ''REAL'' then
        MailjetMail (mailjet_request (NewMailjet (TrimSpace (env ''MAILJET_API_KEY'')) (TrimSpace (env ''MAILJET_API_SECRET''))
          (TrimSpace (env ''MAILJET_FROM_EMAIL'')) (TrimSpace (env ''MAILJET_FROM_NAME''))) i)
      else SimulatedMail i)"

lemma main_sender: "receipt_sender (buildEmailSender env) (main_mail env)"
proof (cases "provider_mode env = ''REAL''")
  case True
  then have "main_mail env = (\<lambda>i. MailjetMail (mailjet_request (NewMailjet (TrimSpace (env ''MAILJET_API_KEY''))
      (TrimSpace (env ''MAILJET_API_SECRET'')) (TrimSpace (env ''MAILJET_FROM_EMAIL'')) (TrimSpace (env ''MAILJET_FROM_NAME''))) i))"
    by (simp add: main_mail_def fun_eq_iff)
  with True show ?thesis by (simp add: buildEmailSender_def mailjet.receipt_sender_axioms)
next
  case False
  then have "main_mail env = SimulatedMail" by (simp add: main_mail_def fun_eq_iff)
  with False show ?thesis by (simp add: buildEmailSender_def simulated.receipt_sender_axioms)
qed

interpretation service: consumer "buildEmailSender env" "main_mail env" "notify_processor env" for env
  by (intro consumer.intro notifier.intro main_sender notifier_axioms.intro)
    (simp add: notify_processor_def new_processor_def)

section \<open>An email that is sent twice\<close>

text \<open>The record of a sent email is lost before it takes effect, and the message is delivered again.\<close>

context reliable_consumer
begin

lemma handle_unrecorded:
  assumes "good w" and "faults w = [None, None, Some (Lost_before m)]" and "sendable p b = Some pl" and "\<not> handled w pl"
    and "\<And>x f. good x \<Longrightarrow> good (x\<lparr>faults := f\<rparr>)"
  shows "\<exists>w'. run_state (Processor_Handle p b) w = (Some (transient ''record processed: '' (Errorf m)), w') \<and>
    good w' \<and> faults w' = [] \<and> mails w' = mails w @ [mail_of (send_input pl)] \<and> \<not> handled w' pl"
proof -
  from assms(3) have pl: "unmarshal_payload b = Some pl" "TrimSpace (plEventID pl) \<noteq> []"
    "TrimSpace (plCustomerEmail pl) \<noteq> []"
    "\<not> (prDLQDemoOrderID p \<noteq> [] \<and> TrimSpace (plOrderID pl) = prDLQDemoOrderID p)"
    by (auto simp: sendable_def split: option.splits if_splits)
  let ?w2 = "w\<lparr>faults := [Some (Lost_before m)]\<rparr>"
  have was: "run_state (Store_WasProcessed (plEventID pl)) w = (Inr False, w\<lparr>faults := [None, Some (Lost_before m)]\<rparr>)"
    using event_not_Nil [OF pl(2)] assms(2,4)
    by (simp add: Store_WasProcessed_def driver_def sql_was_processed_def handled_def)
  have sent: "run_state (Store_AlreadySent (payment_id_of pl)) (w\<lparr>faults := [None, Some (Lost_before m)]\<rparr>) = (Inr False, ?w2)"
    using payment_id_of_not_Nil [OF pl(2)] assms(4)
    by (auto simp: Store_AlreadySent_def Let_def redis_get_def driver_def handled_def marked_def split: option.splits)
  from send_loop_ok [OF assms(5) [OF assms(1)], of "send_input pl" "[Some (Lost_before m)]"] obtain w3 where
    w3: "run_state (send_loop p (send_input pl) 0 (attempts p) None) ?w2 = (Inr None, w3)" "good w3"
    "same_records ?w2 w3" "mails w3 = mails w @ [mail_of (send_input pl)]" by auto
  have rec: "run_state (Store_RecordProcessed (plEventID pl)) w3 = (Some (Errorf m), w3\<lparr>faults := []\<rparr>)"
    using w3(3) by (simp add: Store_RecordProcessed_def driver_def same_records_def)
  have "run_state (Processor_Handle p b) w = (Some (transient ''record processed: '' (Errorf m)), w3\<lparr>faults := []\<rparr>)"
    using pl was sent w3(1) rec by (auto simp: Processor_Handle_def send_and_record_def send_input_def finish_def)
  moreover have "\<not> handled (w3\<lparr>faults := []\<rparr>) pl"
    using w3(3) assms(4) by (simp add: handled_def marked_def same_records_def)
  ultimately show ?thesis using w3(2,4) assms(5) by auto
qed

lemma consume_twice:
  assumes "good w" and "faults w = [None, None, Some (Lost_before m)]" and "answers_lost w = []" and "mq w = b # rest"
    and "sendable p b = Some pl" and "\<not> handled w pl" and "\<And>x f. good x \<Longrightarrow> good (x\<lparr>faults := f\<rparr>)"
  shows "\<exists>w'. run_state (consume p 2) w = ((), w') \<and> mq w' = rest \<and>
    mails w' = mails w @ [mail_of (send_input pl), mail_of (send_input pl)]"
proof -
  from handle_unrecorded [OF assms(1,2,5,6,7)] obtain w1 where
    w1: "run_state (Processor_Handle p b) w = (Some (transient ''record processed: '' (Errorf m)), w1)" "good w1"
    "faults w1 = []" "mails w1 = mails w @ [mail_of (send_input pl)]" "\<not> handled w1 pl" by blast
  note f = consumer_fields [OF keepsD [OF keeps_more_handle w1(1)]]
  have w1': "w1\<lparr>answers_lost := [], mq := b # rest\<rparr> = w1" using f assms(3,4) by (cases w1) simp
  have one: "run_state (consume_one p) w = ((), w1)"
    using w1(1) f assms(3,4) w1' by (simp add: consume_one_def consumer_handle_def Let_def)
  from consume_one_ok [OF w1(2,3), of b rest] f assms(3,4) obtain w2 where
    "run_state (consume_one p) w1 = ((), w2)" "mq w2 = rest" "mails w2 = mails w1 @ [mail_of (send_input pl)]"
    using assms(5) w1(5) by auto
  with one w1(4) show ?thesis by (simp add: numeral_2_eq_2)
qed

end

section \<open>Delays\<close>

text \<open>The delay doubles as long as it fits in 63 bits; from the 65th attempt on the shift yields zero.\<close>

lemma sint_of_int: "- (2 ^ 63) \<le> k \<Longrightarrow> k < 2 ^ 63 \<Longrightarrow> sint (word_of_int k :: int64) = k"
  by (subst sint_sbintrunc') (simp add: signed_take_bit_int_eq_self)

lemma backoff_of_int: "backoff base a = word_of_int (sint base * 2 ^ (a - 1))"
proof -
  have "push_bit (a - 1) 1 = (word_of_int (2 ^ (a - 1)) :: int64)" by (simp add: push_bit_eq_mult)
  then show ?thesis by (simp add: backoff_def flip: wi_hom_mult)
qed

lemma backoff_exact:
  assumes "0 <s base" and "sint base * 2 ^ (a - 1) < 2 ^ 63"
  shows "sint (backoff base a) = sint base * 2 ^ (a - 1)"
proof -
  have "0 < sint base" using assms(1) by (simp add: go_int_order)
  then have "0 < sint base * 2 ^ (a - 1)" by simp
  with assms(2) show ?thesis unfolding backoff_of_int by (intro sint_of_int) simp_all
qed

lemma backoff_vanishes: "64 \<le> a - 1 \<Longrightarrow> backoff base a = 0"
proof -
  assume "64 \<le> a - 1"
  then have "push_bit (a - 1) 1 = (0 :: int64)" by (simp add: push_bit_eq_mult exp_eq_zero_iff)
  then show ?thesis unfolding backoff_def by (metis mult_zero_right)
qed

section \<open>The text of an amount\<close>

lemma sint_uminus: "x \<noteq> word_of_int (- (2 ^ 63)) \<Longrightarrow> sint (- x) = - sint (x :: int64)"
proof -
  assume "x \<noteq> word_of_int (- (2 ^ 63))"
  moreover have "x = word_of_int (sint x)" by simp
  ultimately have "sint x \<noteq> - (2 ^ 63)" by metis
  then have "sint (word_of_int (- sint x) :: int64) = - sint x"
    using sint_bounds [of x] by (intro sint_of_int) simp_all
  then show ?thesis by (simp add: wi_hom_neg [symmetric])
qed

lemma trunc_nonneg:
  assumes "0 \<le> (k :: int)"
  shows "k sdiv 100 = k div 100" and "k smod 100 = k mod 100"
proof -
  show d: "k sdiv 100 = k div 100" using assms by (simp add: signed_divide_int_def sgn_if)
  show "k smod 100 = k mod 100" using assms by (simp add: signed_modulo_int_def sgn_if)
qed

lemma formatUSD_exact:
  assumes "c \<noteq> word_of_int (- (2 ^ 63))"
  shows "formatUSD c = (if c <s 0 then ''-'' else []) @ ''$'' @ int_text (\<bar>sint c\<bar> div 100) @ ''.'' @ pad2 (\<bar>sint c\<bar> mod 100)"
proof (cases "c <s 0")
  case True
  then have neg: "sint c < 0" by (simp add: go_int_order)
  then have "sint (- c) sdiv 100 = \<bar>sint c\<bar> div 100" "sint (- c) smod 100 = \<bar>sint c\<bar> mod 100"
    using sint_uminus [OF assms] trunc_nonneg [of "sint (- c)"] by simp_all
  with True show ?thesis by (simp add: formatUSD_def Let_def)
next
  case False
  then have "0 \<le> sint c" by (simp add: go_int_order)
  then have "sint c sdiv 100 = \<bar>sint c\<bar> div 100" "sint c smod 100 = \<bar>sint c\<bar> mod 100"
    using trunc_nonneg [of "sint c"] by simp_all
  with False show ?thesis by (simp add: formatUSD_def Let_def)
qed

lemma formatUSD_min: "formatUSD (word_of_int (- (2 ^ 63))) = ''-$-92233720368547758.-8''"
proof -
  let ?m = "word_of_int (- (2 ^ 63)) :: int64"
  have s: "sint ?m = - (2 ^ 63)" by (rule sint_of_int) simp_all
  have "- ?m = word_of_int (- sint ?m)" by (simp add: wi_hom_neg [symmetric])
  also have "\<dots> = ?m" unfolding s by simp
  finally have n: "- ?m = ?m" .
  have "formatUSD ?m = ''-$'' @ int_text (- (2 ^ 63) sdiv 100) @ ''.'' @ pad2 (- (2 ^ 63) smod 100)"
    unfolding formatUSD_def Let_def n s by (simp add: go_int_order s [simplified])
  also have "- (2 ^ 63) sdiv 100 = (- 92233720368547758 :: int)" by (simp add: signed_divide_int_def)
  also have "- (2 ^ 63) smod 100 = (- 8 :: int)" by (simp add: signed_modulo_int_def)
  finally show ?thesis by (simp add: int_text_def pad2_def Let_def nat_text.simps digit_def char_of_def bit_0)
qed

end
