(* ===== verification/Payment_Props.thy ===== *)
theory Payment_Props
  imports System_Props Payment_Main
begin

text \<open>
  The payment service's weak spots: a confirmation that comes too late stays in the channel and
  answers the next publication, and a status request for an order without payment ends the
  process, after which the order service fails every order.
\<close>

section \<open>Confirmations\<close>

text \<open>
  The first publication gives up before its confirmation arrives; the second, which the broker
  refuses, takes that confirmation for its own and reports success; the refusal waits for the next.
\<close>

lemma late_confirmation:
  assumes "faults w = []" and "confirms w = []" and "confirm_events w = [TooLate True c, InTime False]"
  shows "\<exists>w1 w2. run_state (Publisher_PublishPaymentCompleted e1) w = (Some (CtxErr c), w1) \<and>
    run_state (Publisher_PublishPaymentCompleted e2) w1 = (None, w2) \<and> confirms w2 = [False] \<and>
    published w2 = published w @ [(exchangeName, routingPaymentCompleted, completed_body e1),
      (exchangeName, routingPaymentCompleted, completed_body e2)]"
  using assms
  by (simp add: Publisher_PublishPaymentCompleted_def amqp_publish_def await_confirm_def ack_result_def)

section \<open>The status request\<close>

lemma run_status:
  assumes "faults w = []" and "i \<noteq> []"
  shows "run_state (Server_GetPaymentStatus tsn (payment_server pg url) \<lparr>gsqOrderId = i\<rparr>) w =
    (case payment_of w i of
       None \<Rightarrow> Panic
     | Some p \<Rightarrow> Reply \<lparr>prPaymentId = pID p, prTransactionId = pTransactionID p, prStatus = pStatus p,
         prAmount = pAmount p, prCreatedAt = tsn (pCreatedAt p)\<rparr>, w)"
  using assms
  by (simp add: Server_GetPaymentStatus_def GetPaymentByOrder_Execute_def payment_repo_def repo_GetByOrderID_def
      sql_get_payment_def split: option.splits)

lemma status_kills:
  assumes "pay_up s" and "net s = []" and "faults (psys s) = []" and "i \<noteq> []" and "payment_of (psys s) i = None"
  shows "\<exists>l. run_state (stubGetPaymentStatus (grpc_stub tsn ppg url) \<lparr>gsqOrderId = i\<rparr>) s =
    (Inl (StatusErr Unavailable ''error reading from server: EOF''), s\<lparr>plog := l, pay_up := False\<rparr>)"
  using assms run_status [of "psys s" i tsn ppg url]
  by (cases s) (simp add: grpc_stub_def rpc_call_def run_interceptor)

text \<open>While the payment process is down, every new order is written Failed.\<close>

lemma create_down:
  assumes "sys_inv v s" and "faults s = []" and "\<not> pay_up s" and "net s = []" and "fresh_ids s" and "valid_input i"
    and "key_free s (inIdempotencyKey i)"
  shows "\<exists>ord err s'. run_state (CreateOrder_Execute (sys_create v) i) s = ((Some ord, Some err), s') \<and>
    err \<noteq> Sentinel ErrPaymentUnavailable \<and> orders_tab s' (oID ord) = Some ord \<and> oStatus ord = StatusFailed \<and>
    psys s' = psys s"
proof -
  define ord where "ord = placed_order s i"
  let ?e = "TrimSpace (inCustomerEmail i)"
  let ?err = "authorize_error (StatusErr Unavailable ''connection refused'')"
  from create_inserts [OF assms(1,2,5,6,7) ord_def] obtain s1 where
    s1: "run_state (CreateOrder_Execute (sys_create v) i) s = run_state (CreateOrder_pay (sys_create v) ord ?e) s1"
    "faults s1 = []" "psys s1 = psys s" "net s1 = net s" "pay_up s1 = pay_up s"
    "orders_tab s1 = (orders_tab s)(oID ord \<mapsto> ord\<lparr>oCreatedAt := ts_col (wPg v) (wall s)\<rparr>)" by blast
  have call: "run_state (PaymentClient_Authorize (grpc_stub (wTsn v) (wPayPg v) (wUrl v)) (oID ord) (oAmount ord) ?e) s1 =
      (Inl ?err, s1)"
    using assms(3,4) s1(4,5) by (cases s1) (simp add: PaymentClient_Authorize_def grpc_stub_def rpc_call_def)
  have err: "\<not> errors_Is ?err ErrPaymentInvalidArgument" "?err \<noteq> Sentinel ErrPaymentAlreadyRecorded"
    "?err \<noteq> Sentinel ErrPaymentUnavailable"
    by (simp_all add: authorize_error_def)
  have u: "uuid_in (wPg v) (oID ord) = Some (oID ord)"
    using assms(1) by (simp add: ord_def next_order_def sys_inv_def order_inv_def)
  from run_pay_failed [OF u _ call s1(2) refl err] s1(6) obtain m where
    run: "run_state (CreateOrder_pay (sys_create v) ord ?e) s1 =
      ((Some (ord\<lparr>oCreatedAt := ts_col (wPg v) (wall s), oStatus := StatusFailed\<rparr>), Some ?err),
       s1\<lparr>orders_tab := (orders_tab s1)(oID ord \<mapsto> ord\<lparr>oCreatedAt := ts_col (wPg v) (wall s), oStatus := StatusFailed\<rparr>),
          redis := m\<rparr>)" by auto
  show ?thesis
    by (rule exI [of _ "ord\<lparr>oCreatedAt := ts_col (wPg v) (wall s), oStatus := StatusFailed\<rparr>"], rule exI [of _ ?err],
      rule exI [of _ "s1\<lparr>orders_tab := (orders_tab s1)(oID ord \<mapsto> ord\<lparr>oCreatedAt := ts_col (wPg v) (wall s),
        oStatus := StatusFailed\<rparr>), redis := m\<rparr>"])
      (use run s1(1,3) err(3) in simp)
qed

end
