(* ===== verification/Stream_Client.thy ===== *)
theory Stream_Client
  imports Boot Order_Stream Go_Time
begin

text \<open>
  The command-line client of the order stream (\<^verbatim>\<open>client/stream_client.go\<close>). The loop looks at the
  context, then waits for the next update; the context that is cancelled by the signal is only
  looked at between two updates. \<open>UpdatedAt.AsTime()\<close> is the parameter \<open>asTime\<close>.
\<close>

definition stream_client_start :: "environ \<Rightarrow> string list \<Rightarrow> (boot, string + string) state" where
  "stream_client_start env args =
     (case args of
        _ # orderID # _ \<Rightarrow>
          script [(''Failed to connect: '', GrpcDial (env_or env ''ORDER_GRPC_ADDR'' ''localhost:50052'')),
                  (''Failed to subscribe: '', GrpcSubscribe orderID)]
            (State_Monad.return (Inr orderID))
      | _ \<Rightarrow> State_Monad.return (Inl ''Usage: go run stream_client.go <order_id>''))"

definition update_text :: "(int \<times> int \<Rightarrow> gotime) \<Rightarrow> OrderStatusUpdate \<Rightarrow> string" where
  "update_text asTime u =
     (let nl = [CHR 0x0A]
      in nl @ ''=== ORDER UPDATE ==='' @ nl @
         ''Order ID: '' @ ouOrderId u @ nl @ ''Customer: '' @ ouCustomerId u @ nl @ ''Item: '' @ ouItemName u @ nl @
         ''Amount: '' @ int_text (sint (ouAmount u)) @ '' cents'' @ nl @ ''Status: '' @ ouStatus u @ nl @
         ''Updated: '' @ FormatRFC3339 (asTime (ouUpdatedAt u)) @ nl @ ''=================='' @ nl @ nl)"

text \<open>
  One round each: whether the context is done when the loop looks at it, and what \<open>Recv\<close> yields
  otherwise. The result is what was printed, and the error that was logged, if any.
\<close>

fun receive_updates :: "(int \<times> int \<Rightarrow> gotime) \<Rightarrow> (bool \<times> (string + OrderStatusUpdate)) list \<Rightarrow> string \<times> string option" where
  "receive_updates asTime [] = ([], None)"
| "receive_updates asTime ((ended, r) # rs) =
     (if ended then ([], None)
      else (case r of
              Inl e \<Rightarrow> ([], Some (''Stream error: '' @ e))
            | Inr u \<Rightarrow> (case receive_updates asTime rs of (out, e) \<Rightarrow> (update_text asTime u @ out, e))))"

text \<open>Every update before the end is printed, in order.\<close>

lemma receive_updates_prints:
  "receive_updates asTime (map (\<lambda>u. (False, Inr u)) us @ (b, r) # rs) =
     (concat (map (update_text asTime) us), if b then None else case r of Inl e \<Rightarrow> Some (''Stream error: '' @ e)
        | Inr u \<Rightarrow> None)"
  if "b \<or> isl r"
  using that by (induction us) (auto split: sum.splits)

end
