(* ===== verification/Demo.thy ===== *)
theory Demo
  imports Order_Api Notify_Props Payment_Props Stream_Client
begin

text \<open>
  Concrete states, requests and environments, on which the theorems of the development are
  evaluated.
\<close>

section \<open>The two services\<close>

lemma demo_quiet: "quiet demo_system"
  by (simp add: quiet_def pay_quiet_def demo_system_def demo_pay_def)

lemma demo_uuid_not_Nil [simp]: "demo_uuid n \<noteq> []"
  by (simp add: demo_uuid_def)

lemma demo_fresh: "fresh_ids demo_system"
  by (simp add: fresh_ids_def pay_fresh_def demo_system_def demo_pay_def)

lemma demo_valid: "valid_input demo_input"
proof -
  have "TrimSpace '' c-1 '' \<noteq> [] \<and> TrimSpace ''ann@example.com'' \<noteq> [] \<and> TrimSpace ''book'' \<noteq> []" by code_simp
  then show ?thesis by (simp add: valid_input_def demo_input_def go_int_order)
qed

lemma demo_key: "key_used (inIdempotencyKey demo_input) = Some ''k-1''" "idem_tab demo_system ''k-1'' = None"
  by (simp_all add: key_used_def demo_input_def demo_system_def)

lemma demo_fields: "faults demo_system = []" "net demo_system = []" "pay_up demo_system" "psys demo_system = demo_pay"
  "orders_tab demo_system = Map.empty" "wUrl demo_wiring \<noteq> []" "inAmount demo_input \<le>s MaxAuthorizedAmountCents"
  by (simp_all add: demo_system_def demo_wiring_def demo_input_def MaxAuthorizedAmountCents_def go_int_order)

text \<open>The broker will refuse the next event.\<close>

definition refusing_system :: system where
  "refusing_system = demo_system\<lparr>psys := demo_pay\<lparr>confirm_events := [InTime False]\<rparr>\<rparr>"

lemma refusing_ok: "sys_inv demo_wiring refusing_system" "fresh_ids refusing_system" "key_free refusing_system (inIdempotencyKey demo_input)"
  by (simp_all add: refusing_system_def sys_inv_def order_inv_def pay_inv_def demo_wiring_def demo_system_def demo_pay_def
      fresh_ids_def pay_fresh_def key_free_def split: option.splits)

text \<open>The answer to the next call will be lost.\<close>

definition losing_system :: system where
  "losing_system = demo_system\<lparr>net := [AnswerLost DeadlineExceeded ''context deadline exceeded'']\<rparr>"

lemma losing_ok: "sys_inv demo_wiring losing_system" "quiet losing_system" "fresh_ids losing_system"
  "key_free losing_system (inIdempotencyKey demo_input)"
  "next_net losing_system = AnswerLost DeadlineExceeded ''context deadline exceeded''"
  by (simp_all add: losing_system_def sys_inv_def order_inv_def pay_inv_def demo_wiring_def demo_system_def demo_pay_def
      fresh_ids_def pay_fresh_def key_free_def quiet_def pay_quiet_def next_net_def split: option.splits)

text \<open>A Pending order whose payment is recorded.\<close>

definition stuck_order :: Order where
  "stuck_order = \<lparr>oID = demo_uuid 9, oCustomerID = ''c-1'', oItemName = ''book'', oAmount = 1999, oStatus = StatusPending,
     oCreatedAt = demo_time\<rparr>"

definition stuck_payment :: Payment where
  "stuck_payment = \<lparr>pID = demo_uuid 8, pOrderID = demo_uuid 9, pTransactionID = demo_uuid 7, pAmount = 1999,
     pStatus = StatusAuthorized, pCreatedAt = demo_time\<rparr>"

definition stuck_system :: system where
  "stuck_system = demo_system\<lparr>orders_tab := [demo_uuid 9 \<mapsto> stuck_order], idem_tab := [''k-1'' \<mapsto> demo_uuid 9],
     psys := demo_pay\<lparr>payments_tab := [stuck_payment]\<rparr>\<rparr>"

lemma stuck_inv: "sys_inv demo_wiring stuck_system"
  by (simp add: stuck_system_def sys_inv_def order_inv_def pay_inv_def demo_wiring_def demo_system_def demo_pay_def
      stuck_order_def stuck_payment_def statuses_def go_int_order)

lemma stuck_state: "quiet stuck_system" "net stuck_system = []" "idem_tab stuck_system ''k-1'' = Some (demo_uuid 9)"
  "orders_tab stuck_system (demo_uuid 9) = Some stuck_order" "oStatus stuck_order = StatusPending"
  "payment_of (psys stuck_system) (demo_uuid 9) = Some stuck_payment"
  by (simp_all add: stuck_system_def quiet_def pay_quiet_def demo_system_def demo_pay_def stuck_order_def
      payment_of_def stuck_payment_def)

definition stuck_retry :: system where
  "stuck_retry = snd (run_state (CreateOrder_Execute (sys_create demo_wiring) demo_input) stuck_system)"

lemma stuck_run: "(sys_step demo_wiring ttl)\<^sup>*\<^sup>* stuck_system stuck_retry"
proof -
  have "run_state (CreateOrder_Execute (sys_create demo_wiring) demo_input) stuck_system =
      (fst (run_state (CreateOrder_Execute (sys_create demo_wiring) demo_input) stuck_system), stuck_retry)"
    by (simp add: stuck_retry_def)
  then show ?thesis by (intro r_into_rtranclp sys_step.place)
qed

section \<open>HTTP\<close>

definition demo_request :: createOrderRequest where
  "demo_request = \<lparr>crCustomerID = '' c-1 '', crCustomerEmail = ''ann@example.com'', crItemName = ''book'', crAmount = 1999\<rparr>"

definition demo_post :: http_request where
  "demo_post = \<lparr>hqMethod = ''POST'', hqURL = ''/orders'', hqHeader = [(''Idempotency-Key'', ''k-1'')], hqBody = ''(demo)''\<rparr>"

lemma demo_trim: "TrimSpace ''k-1'' = ''k-1''" "TrimSpace (demo_uuid 9) = demo_uuid 9"
  "TrimSpace ''00000000-0000-4000-8000-00000000000A'' = ''00000000-0000-4000-8000-00000000000A''"
  "TrimSpace ''00000000-0000-4000-8000-00000000000a'' = ''00000000-0000-4000-8000-00000000000a''"
  by code_simp+

lemma demo_post_input: "bind_createOrder (\<lambda>_. Some demo_request) (hqBody demo_post) = Some demo_request"
  "request_input demo_request demo_post = demo_input"
  by (simp_all add: bind_createOrder_def createOrder_binding_def demo_request_def go_int_order request_input_def
      demo_post_def idempotency_key_def Header_Get_def demo_trim demo_input_def)

text \<open>The router on the two addresses of the payment service.\<close>

definition demo_match :: router where
  "demo_match pat url =
     (if pat = ''/payments'' then Some Map.empty
      else if pat = ''/payments/:order_id'' then Some [''order_id'' \<mapsto> demo_uuid 9] else None)"

lemma demo_routes: "routes_payments demo_match (\<lambda>_. None) ''http://payment:8081'' (demo_uuid 9)"
  by (simp add: routes_payments_def demo_match_def Let_def)

text \<open>An escaped byte takes at most six bytes.\<close>

lemma json_esc_length: "length (json_esc s) \<le> 6 * length s"
proof (induction s rule: json_esc.induct)
  case (2 c s)
  have a: "length (esc_ascii c) \<le> 6" by (simp add: esc_ascii_def)
  have len: "utf8_len (c # s) \<noteq> 0 \<Longrightarrow>
      length (take (utf8_len (c # s)) (c # s)) + length (drop (utf8_len (c # s) - 1) s) = Suc (length s)"
    using arg_cong [OF take_utf8_len [of c s], of length] by (simp only: length_append list.size) simp
  have d: "length (drop 2 s) \<le> length s" by simp
  show ?case
    using 2 a len d by (subst json_esc.simps(2)) (auto simp del: length_take length_drop)
qed simp

lemma json_string_length: "length (json_string s) \<le> 6 * length s + 2"
  using json_esc_length [of s] by (simp add: json_string_def)

lemma demo_payment_body: "length (render (getPaymentResponse stuck_payment)) \<le> 1048576"
proof -
  have t: "length (FormatRFC3339 demo_time) \<le> 40"
    by (simp add: FormatRFC3339_def demo_time_def seconds_text_def zone_text_def pad_def nat_text.simps)
  have n: "length (int_text 1999) \<le> 10" by (simp add: int_text_def nat_text.simps)
  have u: "length (demo_uuid k) = 36" for k by (simp add: demo_uuid_def)
  note b = json_string_length [of "demo_uuid 8"] json_string_length [of "demo_uuid 9"] json_string_length [of "demo_uuid 7"]
    json_string_length [of "FormatRFC3339 demo_time"] json_string_length [of StatusAuthorized]
    json_string_length [of "''payment_id''"] json_string_length [of "''order_id''"] json_string_length [of "''transaction_id''"]
    json_string_length [of "''amount''"] json_string_length [of "''status''"] json_string_length [of "''created_at''"]
  show ?thesis
    using b t n by (simp add: getPaymentResponse_def stuck_payment_def u StatusAuthorized_def)
qed

end
