(* ===== verification/Order_Theorems.thy ===== *)
theory Order_Theorems
  imports Demo
begin

text \<open>
  The properties of the single services: what the order service's HTTP interface answers and does,
  its cache, the bodies of the REST interface, the interceptor of the payment service, its
  publisher, and the starts of the two services.
\<close>

section \<open>The HTTP interface of the order service\<close>

text \<open>
  C18. \<^verbatim>\<open>GET /orders/:id\<close> answers with the cached order when there is one, and otherwise with what
  the table holds: 200 with the order, 404 when there is none, 500 when the text is no UUID. The
  table is left alone, and an order read from it is in the cache afterwards.
\<close>

theorem get_order_answers:
  assumes "faults s = []" and "TrimSpace i \<noteq> []"
  shows "\<exists>m. run_state (Handlers_GetOrder (order_handlers v ttl) i) s =
    (case sys_cached v s (TrimSpace i) of
       Some ord \<Rightarrow> respond StatusOK (toOrderResponse (Some ord))
     | None \<Rightarrow>
         (case uuid_in (wPg v) (TrimSpace i) of
            None \<Rightarrow> respond StatusInternalServerError (error_body ''internal error'')
          | Some k \<Rightarrow>
              (case orders_tab s k of
                 None \<Rightarrow> respond StatusNotFound (error_body ''order not found'')
               | Some ord \<Rightarrow> respond StatusOK (toOrderResponse (Some ord)))), s\<lparr>redis := m\<rparr>) \<and>
    (\<forall>k ord c. sys_cached v s (TrimSpace i) = None \<longrightarrow> uuid_in (wPg v) (TrimSpace i) = Some k \<longrightarrow> orders_tab s k = Some ord \<longrightarrow>
       wCache v = Some c \<longrightarrow> \<not> store_nil c \<longrightarrow> 0 <s ttl \<longrightarrow> storable ord \<longrightarrow> sys_cached v (s\<lparr>redis := m\<rparr>) (oID ord) = Some ord)"
  using http_get [OF assms] unfolding table_answer_def .

lemma demo_cached: "sys_cached demo_wiring stuck_system i = None" "sys_cached demo_wiring demo_system i = None"
  by (simp_all add: sys_cached_def cached_def demo_wiring_def New_def stuck_system_def demo_system_def live_def)

theorem get_order_answers_witness:
  "\<exists>m. run_state (Handlers_GetOrder (order_handlers demo_wiring 300) (demo_uuid 9)) stuck_system =
    (respond StatusOK (toOrderResponse (Some stuck_order)), stuck_system\<lparr>redis := m\<rparr>)"
proof -
  have f: "faults stuck_system = []" and t: "TrimSpace (demo_uuid 9) \<noteq> []" and u: "uuid_in (wPg demo_wiring) (demo_uuid 9) = Some (demo_uuid 9)"
    using stuck_state(1) by (simp_all add: quiet_def demo_trim demo_wiring_def)
  show ?thesis using get_order_answers [OF f t, of demo_wiring 300] by (auto simp: demo_cached demo_trim u stuck_state)
qed

text \<open>
  C19. \<^verbatim>\<open>PATCH /orders/:id/cancel\<close> cancels a Pending order (200, and only its status changes),
  refuses any other order with 409, answers 404 when there is no such order and 500 when the text is
  no UUID. Of the cache it removes at most the entry of the identifier as it was written.
\<close>

theorem cancel_order_answers:
  assumes "faults s = []"
  shows "\<exists>m. run_state (Handlers_CancelOrder (order_handlers v ttl) i) s =
    (case uuid_in (wPg v) (TrimSpace i) of
       None \<Rightarrow> (respond StatusInternalServerError (error_body ''internal error''), s\<lparr>redis := m\<rparr>)
     | Some k \<Rightarrow>
         (case orders_tab s k of
            None \<Rightarrow> (respond StatusNotFound (error_body ''order not found''), s\<lparr>redis := m\<rparr>)
          | Some ord \<Rightarrow>
              if oStatus ord = StatusPending
              then (respond StatusOK (toOrderResponse (Some (ord\<lparr>oStatus := StatusCancelled\<rparr>))),
                    s\<lparr>orders_tab := (orders_tab s)(k \<mapsto> ord\<lparr>oStatus := StatusCancelled\<rparr>), redis := m\<rparr>)
              else (respond StatusConflict (error_body
                ''only pending orders can be cancelled; Paid, Failed, and Cancelled orders cannot''), s\<lparr>redis := m\<rparr>))) \<and>
    (\<forall>j. j \<noteq> TrimSpace i \<longrightarrow> m (cache_key j) = redis s (cache_key j))"
proof -
  have keep: "s\<lparr>orders_tab := orders_tab s, redis := m\<rparr> = s\<lparr>redis := m\<rparr>" for m by (cases s) simp
  from http_cancel [OF assms, of v ttl i] keep show ?thesis
    by (auto simp: cancel_answer_def split: option.splits)
qed

theorem cancel_order_answers_witness:
  "\<exists>m. run_state (Handlers_CancelOrder (order_handlers demo_wiring 300) (demo_uuid 9)) stuck_system =
    (respond StatusOK (toOrderResponse (Some (stuck_order\<lparr>oStatus := StatusCancelled\<rparr>))),
     stuck_system\<lparr>orders_tab := (orders_tab stuck_system)(demo_uuid 9 \<mapsto> stuck_order\<lparr>oStatus := StatusCancelled\<rparr>), redis := m\<rparr>)"
proof -
  have f: "faults stuck_system = []" and u: "uuid_in (wPg demo_wiring) (demo_uuid 9) = Some (demo_uuid 9)"
    using stuck_state(1) by (simp_all add: quiet_def demo_wiring_def)
  show ?thesis using cancel_order_answers [OF f, of demo_wiring 300 "demo_uuid 9"] by (auto simp: demo_trim u stuck_state)
qed

text \<open>
  C25. A cancellation that writes the identifier in another way than the database does (in capitals,
  for instance) removes another cache entry than the one that reads fill: a read after it still
  answers with the Pending order.
\<close>

theorem cancelled_order_read_stale:
  assumes "faults s = []" and "wCache v = Some c" and "\<not> store_nil c" and "0 <s ttl" and "TrimSpace k = k" and "k \<noteq> []"
    and "uuid_in (wPg v) k = Some k" and "uuid_in (wPg v) j = Some k" and "TrimSpace j = j" and "j \<noteq> k"
    and "orders_tab s k = Some ord" and "oID ord = k" and "oStatus ord = StatusPending" and "storable ord"
    and "sys_cached v s k = None"
  shows "\<exists>s1 s2 s3.
    run_state (Handlers_GetOrder (order_handlers v ttl) k) s = (respond StatusOK (toOrderResponse (Some ord)), s1) \<and>
    run_state (Handlers_CancelOrder (order_handlers v ttl) j) s1 =
      (respond StatusOK (toOrderResponse (Some (ord\<lparr>oStatus := StatusCancelled\<rparr>))), s2) \<and>
    orders_tab s2 k = Some (ord\<lparr>oStatus := StatusCancelled\<rparr>) \<and>
    run_state (Handlers_GetOrder (order_handlers v ttl) k) s2 = (respond StatusOK (toOrderResponse (Some ord)), s3)"
  by (rule stale_read [OF assms])

definition letter_id :: string where
  "letter_id = ''00000000-0000-4000-8000-00000000000a''"

definition capital_id :: string where
  "capital_id = ''00000000-0000-4000-8000-00000000000A''"

definition letter_order :: Order where
  "letter_order = stuck_order\<lparr>oID := letter_id\<rparr>"

lemma letter_uuid: "uuid_in standard_pg letter_id = Some letter_id" "uuid_in standard_pg capital_id = Some letter_id"
  unfolding letter_id_def capital_id_def by code_simp+

lemma letter_storable: "storable letter_order"
proof -
  have "valid_time demo_time" by (simp add: valid_time_def demo_time_def days_in_def)
  moreover have "valid_utf8 letter_id" "valid_utf8 ''c-1''" "valid_utf8 ''book''" "valid_utf8 StatusPending"
    unfolding letter_id_def StatusPending_def by (rule ascii_valid, simp add: byte_def)+
  ultimately show ?thesis by (simp add: storable_def letter_order_def stuck_order_def)
qed

theorem cancelled_order_read_stale_witness:
  "\<exists>s1 s2 s3. let s = demo_system\<lparr>orders_tab := [letter_id \<mapsto> letter_order]\<rparr> in
    run_state (Handlers_GetOrder (order_handlers demo_wiring 300) letter_id) s = (respond StatusOK (toOrderResponse (Some letter_order)), s1) \<and>
    orders_tab s2 letter_id = Some (letter_order\<lparr>oStatus := StatusCancelled\<rparr>) \<and>
    run_state (Handlers_GetOrder (order_handlers demo_wiring 300) letter_id) s2 =
      (respond StatusOK (toOrderResponse (Some letter_order)), s3)"
proof -
  let ?s = "demo_system\<lparr>orders_tab := [letter_id \<mapsto> letter_order]\<rparr>"
  have s: "faults ?s = []" "orders_tab ?s letter_id = Some letter_order" "sys_cached demo_wiring ?s letter_id = None"
    by (simp_all add: demo_system_def sys_cached_def cached_def demo_wiring_def New_def live_def)
  have c: "wCache demo_wiring = Some (Some (New (Some ())))" "\<not> store_nil (Some (New (Some ())))"
    by (simp_all add: demo_wiring_def New_def store_nil_def)
  have u: "uuid_in (wPg demo_wiring) letter_id = Some letter_id" "uuid_in (wPg demo_wiring) capital_id = Some letter_id"
    using letter_uuid by (simp_all add: demo_wiring_def)
  have i: "TrimSpace letter_id = letter_id" "letter_id \<noteq> []" "TrimSpace capital_id = capital_id" "capital_id \<noteq> letter_id"
    unfolding letter_id_def capital_id_def by (simp_all add: demo_trim)
  have o: "oID letter_order = letter_id" "oStatus letter_order = StatusPending"
    by (simp_all add: letter_order_def stuck_order_def)
  have t: "0 <s (300 :: duration)" by (simp add: go_int_order)
  from cancelled_order_read_stale [OF s(1) c t i(1,2) u i(3,4) s(2) o letter_storable s(3)]
  show ?thesis unfolding Let_def by blast
qed

section \<open>The cache and the wire\<close>

text \<open>
  C20. An order that is written to the cache is read back as it was, every field of it, when its
  texts are UTF-8 and its time has a JSON form.
\<close>

theorem cache_roundtrip:
  assumes "faults w = []" and "\<not> store_nil c" and "storable ord"
  shows "\<exists>r m m'. run_state (Store_Set c ord ttl) w = (r, w\<lparr>redis := m\<rparr>) \<and>
    run_state (Store_Get c (oID ord)) (w\<lparr>redis := m\<rparr>) = (Inr (Some ord), w\<lparr>redis := m'\<rparr>)"
proof -
  from run_cache_set [OF assms(1), of c ord ttl] obtain r m where
    set: "run_state (Store_Set c ord ttl) w = (r, w\<lparr>redis := m\<rparr>)" "cached c (w\<lparr>redis := m\<rparr>) (oID ord) = Some ord"
    using assms(2,3) by blast
  have "faults (w\<lparr>redis := m\<rparr>) = []" using assms(1) by simp
  from run_cache_get [OF this, of c "oID ord"] set show ?thesis by auto
qed

theorem cache_roundtrip_witness:
  "\<exists>r m m'. run_state (Store_Set (Some (New (Some ()))) letter_order 300) demo_system = (r, demo_system\<lparr>redis := m\<rparr>) \<and>
    run_state (Store_Get (Some (New (Some ()))) letter_id) (demo_system\<lparr>redis := m\<rparr>) =
      (Inr (Some letter_order), demo_system\<lparr>redis := m'\<rparr>)"
proof -
  have "\<not> store_nil (Some (New (Some ())))" by (simp add: New_def store_nil_def)
  moreover have "oID letter_order = letter_id" by (simp add: letter_order_def)
  ultimately show ?thesis using cache_roundtrip [OF demo_fields(1) _ letter_storable] by metis
qed

text \<open>
  C22. Each side of the REST interface reads what the other wrote: the payment service the order,
  the amount and the recipient of a request; the order service the transaction and the status of an
  authorization, and the status of a payment.
\<close>

theorem rest_bodies_read_back:
  "decode_createPayment (authorize_body i a e) = Some \<lparr>cpOrderID = to_valid i, cpAmount = a, cpCustomerEmail = to_valid e\<rparr> \<and>
   unmarshal_paymentAPI (render (createPaymentResponse out)) =
     Some \<lparr>parTransactionID = to_valid (aoTransactionID out), parStatus = to_valid (aoStatus out)\<rparr> \<and>
   unmarshal_status (render (getPaymentResponse p)) = Some (to_valid (pStatus p))"
  by (simp add: authorize_body_read createPaymentResponse_read getPaymentResponse_read)

section \<open>The payment service\<close>

text \<open>
  C5. However the database and the broker behave, an authorization over gRPC records at most one
  payment for its order and changes no other; it does not panic; and when it answers with a status,
  there was no payment for the order before, and what it answers is what is recorded now, with the
  status that the limit on amounts prescribes.
\<close>

theorem authorize_records_once:
  assumes "pay_inv pg w" and "run_state (Server_AuthorizePayment tsn pay_runtime (payment_server pg url) req) w = (r, w')"
  shows "authorize_effect pg req w r w'"
  using wpD [OF server_authorize_records [OF assms(1)] assms(2)] .

theorem authorize_records_once_witness:
  "\<exists>r w'. run_state (Server_AuthorizePayment (\<lambda>_. (0, 0)) pay_runtime (payment_server standard_pg ''amqp://rabbitmq'')
      \<lparr>arqOrderId = demo_uuid 1, arqAmount = 1999, arqCustomerEmail = ''ann@example.com''\<rparr>) demo_pay = (r, w') \<and>
    r \<noteq> Panic \<and> pay_inv standard_pg w'"
proof -
  let ?m = "Server_AuthorizePayment (\<lambda>_. (0, 0)) pay_runtime (payment_server standard_pg ''amqp://rabbitmq'')
      \<lparr>arqOrderId = demo_uuid 1, arqAmount = 1999, arqCustomerEmail = ''ann@example.com''\<rparr>"
  obtain r w' where run: "run_state ?m demo_pay = (r, w')" by (cases "run_state ?m demo_pay")
  have inv: "pay_inv standard_pg demo_pay" by (simp add: pay_inv_def demo_pay_def)
  from authorize_records_once [OF inv run] run show ?thesis by (auto simp: authorize_effect_def)
qed

text \<open>
  C23. The logging interceptor changes nothing of a call: its result and its effect are those of the
  handler, and the log has one line for the start and one for the end, none for a handler that
  panics.
\<close>

theorem interceptor_transparent:
  "run_state (LoggingInterceptor meth h req) (ls, w) =
     (case run_state (h req) w of (r, w') \<Rightarrow>
        (r, (ls @ CallStarted meth #
               (case r of Panic \<Rightarrow> [] | Fail c m \<Rightarrow> [CallFailed meth c m] | Reply _ \<Rightarrow> [CallCompleted meth]), w')))"
  by (rule run_interceptor)

text \<open>
  C24. A confirmation that arrives after its publication was given up stays in the channel and is
  taken for the next publication's: that one reports success although the broker refuses it.
\<close>

theorem late_confirmation_misread:
  assumes "faults w = []" and "confirms w = []" and "confirm_events w = [TooLate True c, InTime False]"
  shows "\<exists>w1 w2. run_state (Publisher_PublishPaymentCompleted e1) w = (Some (CtxErr c), w1) \<and>
    run_state (Publisher_PublishPaymentCompleted e2) w1 = (None, w2) \<and> confirms w2 = [False] \<and>
    published w2 = published w @ [(exchangeName, routingPaymentCompleted, completed_body e1),
      (exchangeName, routingPaymentCompleted, completed_body e2)]"
  by (rule late_confirmation [OF assms])

theorem late_confirmation_misread_witness:
  "\<exists>w1 w2 e. run_state (Publisher_PublishPaymentCompleted e) (demo_pay\<lparr>confirm_events := [TooLate True CtxDeadlineExceeded, InTime False]\<rparr>) =
      (Some (CtxErr CtxDeadlineExceeded), w1) \<and>
    run_state (Publisher_PublishPaymentCompleted e) w1 = (None, w2) \<and> confirms w2 = [False]"
  using late_confirmation_misread [of "demo_pay\<lparr>confirm_events := [TooLate True CtxDeadlineExceeded, InTime False]\<rparr>"]
  by (fastforce simp: demo_pay_def)

section \<open>Starting\<close>



text \<open>
  C35. A publisher that was dialled is in confirm mode and has declared its exchange; one that
  failed has closed its connection, and its channel when it had one, unless nothing was opened.
\<close>

theorem dial_cleans_up:
  assumes "run_state (DialPublisher url) b = (r, b')"
  shows "\<exists>cs. calls b' = calls b @ cs \<and>
    (r = Inr () \<longrightarrow> cs = [AmqpDial url, AmqpChannel, AmqpConfirm, ExchangeDeclare exchangeName exchangeKind]) \<and>
    (\<forall>m. r = Inl m \<longrightarrow> cs = [AmqpDial url] \<or> AmqpCloseConn = last cs \<and>
       (AmqpConfirm \<in> set cs \<longrightarrow> AmqpCloseChannel \<in> set cs))"
  by (rule dial_publisher_calls [OF assms])

theorem dial_cleans_up_witness:
  "\<exists>m b'. run_state (DialPublisher ''amqp://rabbitmq'') \<lparr>calls = [], results = [None, Some ''refused'']\<rparr> = (Inl m, b') \<and>
    last (calls b') = AmqpCloseConn"
proof -
  let ?b = "\<lparr>calls = [], results = [None, Some ''refused'']\<rparr>"
  obtain m b' where run: "run_state (DialPublisher ''amqp://rabbitmq'') ?b = (Inl m, b')" "length (calls b') \<noteq> 1"
    by (simp add: DialPublisher_def attempt_def)
  from dial_cleans_up [OF run(1)] run show ?thesis by auto
qed

end
