(* ===== verification/Notify_Theorems.thy ===== *)
theory Notify_Theorems
  imports Demo
begin

text \<open>
  The properties of the notification service as its \<open>main\<close> configures it: what handling a message
  does, that no message is lost, that the queue is drained, what is dead-lettered, when a customer
  is written to twice, the arithmetic of delays and amounts, and how the events of the payment
  service reach it.
\<close>

section \<open>Concrete messages and environments\<close>

definition demo_event :: PaymentCompletedEvent where
  "demo_event = \<lparr>evEventID = ''e-1'', evPaymentID = ''p-1'', evOrderID = ''o-1'', evAmountCents = 1999,
     evCustomerEmail = ''ann@example.com'', evStatus = ''Authorized''\<rparr>"

definition demo_box :: consumer_world where
  "demo_box = \<lparr>faults = [], redis = Map.empty, redis_clock = 0, processed_tab = {}, mails = [], waits = [], slept = [],
     int_draws = [], float_draws = [], mailjet_answers = [], nlog = [], mq = [completed_body demo_event, ''?''],
     dlq = [], settled = [], answers_lost = []\<rparr>"

definition demo_env :: environ where
  "demo_env name = (if name = ''NOTIFICATION_SIM_FAIL_RATE'' then ''0''
     else if name = ''NOTIFICATION_BACKOFF_BASE_MS'' then ''250''
     else if name = ''NOTIFICATION_REDIS_ADDR'' then ''redis:6379'' else [])"

lemma demo_trims: "TrimSpace ''e-1'' = ''e-1''" "TrimSpace ''p-1'' = ''p-1''" "TrimSpace ''ann@example.com'' = ''ann@example.com''"
  "TrimSpace ''0'' = ''0''" "TrimSpace ''250'' = ''250''" "TrimSpace ''redis:6379'' = ''redis:6379''" "TrimSpace [] = []"
  by code_simp+

lemma demo_valids: "to_valid ''e-1'' = ''e-1''" "to_valid ''p-1'' = ''p-1''" "to_valid ''o-1'' = ''o-1''"
  "to_valid ''ann@example.com'' = ''ann@example.com''" "to_valid ''Authorized'' = ''Authorized''"
  by (rule to_valid_valid, rule ascii_valid, simp add: byte_def)+

lemma demo_payload: "unmarshal_payload (completed_body demo_event) = Some \<lparr>plEventID = ''e-1'', plPaymentID = ''p-1'',
    plOrderID = ''o-1'', plAmount = 1999, plCustomerEmail = ''ann@example.com'', plStatus = ''Authorized''\<rparr>"
  by (simp add: payload_roundtrip event_payload_def demo_event_def demo_valids)

lemma demo_sendable: "prDLQDemoOrderID p = [] \<Longrightarrow> sendable p (completed_body demo_event) =
    Some \<lparr>plEventID = ''e-1'', plPaymentID = ''p-1'', plOrderID = ''o-1'', plAmount = 1999,
      plCustomerEmail = ''ann@example.com'', plStatus = ''Authorized''\<rparr>"
  by (simp add: sendable_def demo_payload demo_trims)

lemma demo_mode: "provider_mode demo_env = ''SIMULATED''"
  by (simp add: provider_mode_def demo_env_def demo_trims)

lemma two_to_pos: "0 < two_to e"
  by (simp add: two_to_def)

lemma round_zero: "round_float64 0 = Some 0"
proof -
  have first: "find (\<lambda>e. \<bar>0\<bar> < two_to (e + 53)) xs = Some (hd xs)" if "xs \<noteq> []" for xs
    using that two_to_pos by (cases xs) simp_all
  have "map (\<lambda>n. int n - 1074) [0..<2046] \<noteq> []" by (simp only: map_is_Nil_conv upt_eq_Nil_conv) simp
  from first [OF this] show ?thesis
    unfolding round_float64_def by (simp only: option.case) (simp add: round_even_def two_to_pos Let_def)
qed

lemma demo_rate: "fail_rate demo_env = 0"
proof -
  have "decimal_value ''0'' = Some 0"
    by (simp add: decimal_value_def split_point_def nat_value_def is_digit_def byte_def digit_value_def)
  then show ?thesis by (simp add: fail_rate_def demo_env_def demo_trims ParseFloat_def round_zero)
qed

abbreviation service_processor :: "environ \<Rightarrow> consumer_world Processor" where
  "service_processor \<equiv> notify_processor"

lemma demo_notify: "notify_processor demo_env = new_processor (simulated (NewSimulated (50 * Millisecond) (200 * Millisecond) 0))
    (7 * 24 * Hour) [] (max_attempts demo_env) (backoff_base demo_env)"
  by (simp add: notify_processor_def buildEmailSender_def demo_mode demo_rate latency_env_def idempotency_ttl_def env_duration_def
      positive_env_def demo_env_def demo_trims)

text \<open>A simulated provider that never fails.\<close>

lemma simulated_processor:
  assumes "provider_mode env \<noteq> ''REAL''" and "fail_rate env = 0"
  shows "service_processor env = new_processor (simulated (NewSimulated
      (latency_env env ''NOTIFICATION_SIM_MIN_LATENCY_MS'' (50 * Millisecond))
      (latency_env env ''NOTIFICATION_SIM_MAX_LATENCY_MS'' (200 * Millisecond)) 0))
      (idempotency_ttl env) (TrimSpace (env ''NOTIFICATION_DLQ_DEMO_ORDER_ID'')) (max_attempts env) (backoff_base env)"
  using assms by (simp add: notify_processor_def buildEmailSender_def)

lemma demo_box_calm: "calm_sends demo_box" "faults demo_box = []" "answers_lost demo_box = []"
  "mq demo_box = [completed_body demo_event, ''?'']" "dlq demo_box = []" "processed_tab demo_box = {}" "redis demo_box = Map.empty"
  by (simp_all add: demo_box_def calm_sends_def)

section \<open>Handling a message\<close>

text \<open>
  C6. Handling an event: a customer whose event was recorded or whose payment was marked is not
  written to again; at most the configured number of attempts is made and each attempt mails the
  same receipt; a message is acknowledged only when a receipt was handed to the provider now or
  the event had been handled before, and then the event is recorded (or its payment marked); a
  message that is rejected for good was never mailed. No record is ever removed, and only this
  event's record is added. This holds whichever database, Redis and provider calls fail.
\<close>

theorem handle_at_most_configured:
  assumes "unmarshal_payload body = Some pl" and "TrimSpace (plEventID pl) \<noteq> []"
    and "run_state (Processor_Handle (service_processor env) body) w = (r, w')"
  shows "processed_tab w \<subseteq> processed_tab w' \<and> processed_tab w' \<subseteq> insert (plEventID pl) (processed_tab w) \<and>
    (\<exists>k. mails w' = mails w @ replicate k (main_mail env (send_input pl)) \<and> k \<le> attempts (service_processor env) \<and>
       (handled w pl \<longrightarrow> k = 0) \<and> (r = None \<longrightarrow> handled w pl \<or> 0 < k) \<and> (dispose r = Nack False \<longrightarrow> k = 0)) \<and>
    (r = None \<longrightarrow> plEventID pl \<in> processed_tab w' \<or> marked w (payment_id_of pl))"
proof -
  note h = wpD [OF service.handle_spec [OF assms(1,2)] assms(3)]
  from h obtain k where k: "mails w' = mails w @ replicate k (main_mail env (send_input pl))"
    "k \<le> attempts (service_processor env)" "handled w pl \<longrightarrow> k = 0" "r = None \<longrightarrow> handled w pl \<or> 0 < k"
    "dispose r = Nack False \<longrightarrow> k = 0"
    using notify_attempts [of env] unfolding handled_def by blast
  then have "\<exists>k. mails w' = mails w @ replicate k (main_mail env (send_input pl)) \<and> k \<le> attempts (service_processor env) \<and>
      (handled w pl \<longrightarrow> k = 0) \<and> (r = None \<longrightarrow> handled w pl \<or> 0 < k) \<and> (dispose r = Nack False \<longrightarrow> k = 0)"
    by blast
  with h show ?thesis by (elim conjE, intro conjI)
qed

theorem handle_at_most_configured_witness:
  "\<exists>r w'. run_state (Processor_Handle (service_processor demo_env) (completed_body demo_event)) demo_box = (r, w') \<and>
    processed_tab w' \<subseteq> {''e-1''}"
proof -
  obtain r w' where run: "run_state (Processor_Handle (service_processor demo_env) (completed_body demo_event)) demo_box = (r, w')"
    by fastforce
  show ?thesis
    using handle_at_most_configured [OF demo_payload _ run] run by (auto simp: demo_trims demo_box_calm)
qed

section \<open>The queue\<close>


text \<open>
  C26. Only messages that can never be mailed are dead-lettered: those that do not decode, name no
  event or no recipient, or belong to the demonstration order of the configuration. In particular
  a message whose receipt could not be sent in all attempts is not dead-lettered.
\<close>

theorem only_unsendable_dead_lettered:
  assumes "\<forall>b \<in> set (dlq w). sendable (service_processor env) b = None"
    and "run_state (consume (service_processor env) n) w = (u, w')"
  shows "\<forall>b \<in> set (dlq w'). sendable (service_processor env) b = None"
  using service.consume_dead [OF assms(2,1)] .

theorem only_unsendable_dead_lettered_witness:
  "completed_body demo_event \<notin> set (dlq (snd (run_state (consume (service_processor demo_env) 2) demo_box)))"
proof -
  obtain u w' where run: "run_state (consume (service_processor demo_env) 2) demo_box = (u, w')" by (cases "run_state (consume (service_processor demo_env) 2) demo_box")
  have "\<forall>b \<in> set (dlq w'). sendable (service_processor demo_env) b = None"
    by (rule only_unsendable_dead_lettered [OF _ run]) (simp add: demo_box_calm)
  moreover have "sendable (service_processor demo_env) (completed_body demo_event) \<noteq> None"
    by (simp add: demo_sendable demo_notify new_processor_def)
  ultimately show ?thesis using run by auto
qed

text \<open>
  C8. With a simulated provider that does not fail and no lost calls, as many deliveries as there
  are messages empty the queue: each event that can be mailed and was not handled before is mailed,
  exactly once however often it is queued, and is handled afterwards.
\<close>

theorem queue_drained:
  assumes "provider_mode env \<noteq> ''REAL''" and "fail_rate env = 0" and "calm_sends w" and "faults w = []"
    and "answers_lost w = []" and "length (mq w) \<le> n"
  shows "\<exists>w' pls. run_state (consume (service_processor env) n) w = ((), w') \<and> mq w' = [] \<and>
    mails w' = mails w @ map (SimulatedMail \<circ> send_input) pls \<and>
    distinct (map plEventID pls) \<and> distinct (map payment_id_of pls) \<and>
    (\<forall>pl \<in> set pls. \<not> handled w pl \<and> (\<exists>b \<in> set (mq w). sendable (service_processor env) b = Some pl)) \<and>
    (\<forall>b \<in> set (mq w). \<forall>pl. sendable (service_processor env) b = Some pl \<longrightarrow> handled w' pl) \<and>
    (\<forall>q. handled w q \<longrightarrow> handled w' q)"
  unfolding simulated_processor [OF assms(1,2)] by (rule sim_reliable.drain [OF assms(3-6)])

theorem queue_drained_witness:
  "\<exists>w'. run_state (consume (service_processor demo_env) 2) demo_box = ((), w') \<and> mq w' = [] \<and>
    handled w' \<lparr>plEventID = ''e-1'', plPaymentID = ''p-1'', plOrderID = ''o-1'', plAmount = 1999,
      plCustomerEmail = ''ann@example.com'', plStatus = ''Authorized''\<rparr>"
proof -
  have mode: "provider_mode demo_env \<noteq> ''REAL''" by (simp add: demo_mode)
  have len: "length (mq demo_box) \<le> 2" by (simp add: demo_box_calm)
  have s: "prDLQDemoOrderID (service_processor demo_env) = []" by (simp add: demo_notify new_processor_def)
  have m: "completed_body demo_event \<in> set (mq demo_box)" by (simp add: demo_box_calm)
  show ?thesis
    using queue_drained [OF mode demo_rate demo_box_calm(1,2,3) len] demo_sendable [OF s] m by blast
qed

text \<open>
  C27. The receipt goes to the provider before the event is recorded. When the call that records
  it is lost, the message is queued again and the customer is written to a second time.
\<close>

theorem receipt_sent_twice:
  assumes "provider_mode env \<noteq> ''REAL''" and "fail_rate env = 0" and "calm_sends w"
    and "faults w = [None, None, Some (Lost_before m)]" and "answers_lost w = []" and "mq w = b # rest"
    and "sendable (service_processor env) b = Some pl" and "\<not> handled w pl"
  shows "\<exists>w'. run_state (consume (service_processor env) 2) w = ((), w') \<and> mq w' = rest \<and>
    mails w' = mails w @ [SimulatedMail (send_input pl), SimulatedMail (send_input pl)]"
  using assms(7) unfolding simulated_processor [OF assms(1,2)]
  by (intro sim_reliable.consume_twice [OF assms(3-6) _ assms(8)]) (simp_all add: calm_sends_def)

theorem receipt_sent_twice_witness:
  "\<exists>w'. run_state (consume (service_processor demo_env) 2)
      (demo_box\<lparr>faults := [None, None, Some (Lost_before ''connection reset'')]\<rparr>) = ((), w') \<and>
    mq w' = [''?''] \<and> length (mails w') = 2"
proof -
  let ?w = "demo_box\<lparr>faults := [None, None, Some (Lost_before ''connection reset'')]\<rparr>"
  have mode: "provider_mode demo_env \<noteq> ''REAL''" by (simp add: demo_mode)
  have w: "calm_sends ?w" "faults ?w = [None, None, Some (Lost_before ''connection reset'')]" "answers_lost ?w = []"
    "mq ?w = completed_body demo_event # [''?'']"
    by (simp_all add: demo_box_def calm_sends_def)
  have s: "prDLQDemoOrderID (service_processor demo_env) = []" by (simp add: demo_notify new_processor_def)
  have "\<not> handled ?w pl" for pl by (simp add: handled_def marked_def live_def demo_box_def)
  from receipt_sent_twice [OF mode demo_rate w demo_sendable [OF s] this] show ?thesis
    by (auto simp: demo_box_def)
qed



section \<open>Delays and amounts\<close>

text \<open>
  C28. The delay before attempt \<open>a\<close> is the base doubled \<open>a - 1\<close> times as long as that fits into 63
  bits; beyond, the shift wraps, and from the 65th attempt on there is no delay at all.
\<close>

theorem backoff_doubles:
  assumes "0 <s base"
  shows "(sint base * 2 ^ (a - 1) < 2 ^ 63 \<longrightarrow> sint (backoff base a) = sint base * 2 ^ (a - 1)) \<and>
    (65 \<le> a \<longrightarrow> backoff base a = 0)"
proof (intro conjI impI)
  assume "65 \<le> a"
  then have "64 \<le> a - 1" by simp
  then show "backoff base a = 0" by (rule backoff_vanishes)
qed (rule backoff_exact [OF assms])

theorem backoff_doubles_witness: "sint (backoff (2 * Second) 3) = 8000000000 \<and> backoff (2 * Second) 65 = 0"
  using backoff_doubles [of "2 * Second" 3] backoff_doubles [of "2 * Second" 65] by (simp add: Second_def Millisecond_def go_int_order)

text \<open>
  C29. The text of an amount in cents is its sign, the dollars and two digits of cents for every
  amount but the least \<open>int64\<close>, whose negation wraps.
\<close>

theorem formatUSD_text:
  "formatUSD c =
     (if c = word_of_int (- (2 ^ 63)) then ''-$-92233720368547758.-8''
      else (if c <s 0 then ''-'' else []) @ ''$'' @ int_text (\<bar>sint c\<bar> div 100) @ ''.'' @ pad2 (\<bar>sint c\<bar> mod 100))"
  using formatUSD_exact formatUSD_min by auto

text \<open>
  C31. Whatever the environment says, at least one attempt is made to send a receipt, the failure
  rate is a probability, and the simulated provider waits for a positive time.
\<close>

theorem configuration_in_range:
  "0 <s max_attempts env \<and> 0 < attempts (service_processor env) \<and> 0 \<le> fail_rate env \<and> fail_rate env \<le> 1 \<and>
   0 <s MinLatency (NewSimulated a b r) \<and> 0 \<le> FailRate (NewSimulated a b r) \<and> FailRate (NewSimulated a b r) \<le> 1"
  using max_attempts_pos fail_rate_range [of env] notify_attempts simulated_bounds [OF refl, of a b r] by blast




section \<open>From the payment service to the consumer\<close>

text \<open>
  C21. The notification service reads from the body of an event what the payment service put into
  it, with the amount at its full width; texts come through unchanged but for bytes that are not
  UTF-8, and an event without a payment identifier carries the event's.
\<close>

theorem event_read_back:
  "unmarshal_payload (completed_body e) = Some
     \<lparr>plEventID = to_valid (evEventID e), plPaymentID = to_valid (if evPaymentID e = [] then evEventID e else evPaymentID e),
      plOrderID = to_valid (evOrderID e), plAmount = evAmountCents e, plCustomerEmail = to_valid (evCustomerEmail e),
      plStatus = to_valid (evStatus e)\<rparr>"
  by (simp add: payload_roundtrip event_payload_def)

text \<open>
  C32. Whichever of the two services declared the exchange first, an event published by the payment
  service reaches exactly the queue that the notification service consumes, and a message that is
  rejected there reaches exactly the dead-letter queue.
\<close>

theorem events_routed:
  "t \<in> {declared (notify_calls env) no_topology,
        declared (notify_calls env) (declared [ExchangeDeclare exchangeName exchangeKind] no_topology),
        declared [ExchangeDeclare exchangeName exchangeKind] (declared (notify_calls env) no_topology)} \<Longrightarrow>
   routed t exchangeName routingPaymentCompleted = [queueName] \<and> dead_lettered t queueName key = [dlqQueueName]"
  by (auto simp: notify_declares publisher_declares completed_reaches_queue rejected_reaches_dlq)

theorem events_routed_witness:
  "routed (declared (notify_calls demo_env) no_topology) exchangeName routingPaymentCompleted = [queueName]"
  using events_routed [of "declared (notify_calls demo_env) no_topology" demo_env] by simp



end
