(* ===== verification/Stream_Theorems.thy ===== *)
theory Stream_Theorems
  imports Demo
begin

text \<open>
  The properties of the streaming server, for every interleaving of its handlers, its monitor, its
  sending goroutines and the changes of the orders table: what subscribers receive is true, the
  registrations stay consistent and no channel is closed twice, a change the monitor can see is
  reported; and the two defects: a change before the monitor's first look is never reported, and a
  handler that waits when the server is stopped waits forever.
\<close>

section \<open>A concrete server\<close>

definition demo_db :: order_table where
  "demo_db = [demo_uuid 9 \<mapsto> stuck_order]"

definition paid_db :: order_table where
  "paid_db = [demo_uuid 9 \<mapsto> stuck_order\<lparr>oStatus := StatusPaid\<rparr>]"

definition demo_watched :: OrderServer where
  "demo_watched = (NewOrderServer demo_db)\<lparr>next_sub := 1, sub_order := [0 \<mapsto> demo_uuid 9], subs := [demo_uuid 9 \<mapsto> [0]],
     waiting := [0], received := (\<lambda>_. [])(0 := [status_update (0, 0) stuck_order])\<rparr>"

lemma demo_keyed: "keyed demo_db" "keyed paid_db"
  by (simp_all add: keyed_def demo_db_def paid_db_def stuck_order_def)

lemma demo_watching: "(stream_step standard_pg)\<^sup>*\<^sup>* (NewOrderServer demo_db) demo_watched"
proof -
  let ?s = "NewOrderServer demo_db"
  let ?a = "?s\<lparr>admitted := [(demo_uuid 9, stuck_order)]\<rparr>"
  let ?s1 = "?s\<lparr>next_sub := 1, sub_order := [0 \<mapsto> demo_uuid 9], subs := [demo_uuid 9 \<mapsto> [0]], starting := [(0, stuck_order)]\<rparr>"
  have "getOrder standard_pg (\<lambda>_. False) (sdb ?s) (demo_uuid 9) = Some stuck_order" "admitted ?s = []"
    by (simp_all add: NewOrderServer_def getOrder_def demo_db_def)
  then have "SubscribeToOrderUpdates standard_pg (\<lambda>_. False) (demo_uuid 9) ?s = (Inr stuck_order, ?a)"
    by (simp add: SubscribeToOrderUpdates_def)
  then have admit: "stream_step standard_pg ?s ?a" by (rule stream_step.subscribe [rotated]) (simp add: NewOrderServer_def)
  have "register (demo_uuid 9, stuck_order) ?a = ?s1" by (simp add: register_def NewOrderServer_def listed_def Let_def)
  moreover have "stream_step standard_pg ?a (register (demo_uuid 9, stuck_order) ?a)"
    by (rule stream_step.register) (simp_all add: NewOrderServer_def)
  ultimately have "(stream_step standard_pg)\<^sup>*\<^sup>* ?s ?s1" using admit by (simp add: converse_rtranclp_into_rtranclp)
  moreover have "send_initial (0, 0) (0, stuck_order) None ?s1 = (None, demo_watched)"
    by (simp add: send_initial_def demo_watched_def NewOrderServer_def)
  then have "stream_step standard_pg ?s1 demo_watched"
    by (rule stream_step.greet [rotated 2]) (simp_all add: NewOrderServer_def)
  ultimately show ?thesis by (rule rtranclp.rtrancl_into_rtrancl)
qed

lemma demo_change: "order_step demo_db paid_db"
proof -
  have "order_step demo_db (demo_db(demo_uuid 9 \<mapsto> stuck_order\<lparr>oStatus := StatusPaid\<rparr>))"
    by (rule order_step.settle) (simp_all add: demo_db_def stuck_order_def final_statuses_def)
  then show ?thesis by (simp add: demo_db_def paid_db_def)
qed

lemma demo_changes: "sdb s = demo_db \<Longrightarrow> stream_step standard_pg s (s\<lparr>sdb := paid_db\<rparr>)"
  using demo_change demo_keyed(2) by (intro stream_step.change) (simp_all add: keyed_def)

lemma demo_paid: "(stream_step standard_pg)\<^sup>*\<^sup>* (NewOrderServer demo_db) (demo_watched\<lparr>sdb := paid_db\<rparr>)"
proof (rule rtranclp.rtrancl_into_rtrancl [OF demo_watching demo_changes])
  show "sdb demo_watched = demo_db" by (simp add: demo_watched_def NewOrderServer_def)
qed

definition demo_stopped :: OrderServer where
  "demo_stopped = demo_watched\<lparr>stopped := True, monitor_done := True\<rparr>"

lemma demo_stops: "(stream_step standard_pg)\<^sup>*\<^sup>* (NewOrderServer demo_db) demo_stopped"
proof -
  have "stream_step standard_pg demo_watched (Stop demo_watched)"
    by (rule stream_step.halt) (simp add: demo_watched_def NewOrderServer_def)
  with demo_watching have "(stream_step standard_pg)\<^sup>*\<^sup>* (NewOrderServer demo_db) (Stop demo_watched)"
    by (rule rtranclp.rtrancl_into_rtrancl)
  moreover have "stream_step standard_pg (Stop demo_watched) ((Stop demo_watched)\<lparr>monitor_done := True\<rparr>)"
    by (rule stream_step.exit) (simp_all add: Stop_def demo_watched_def NewOrderServer_def)
  ultimately show ?thesis unfolding demo_stopped_def by (simp add: Stop_def rtranclp.rtrancl_into_rtrancl)
qed

section \<open>What holds of every run\<close>

text \<open>
  C9. Whatever a subscriber receives is true of the order it subscribed to: the identifier, the
  customer, the item and the amount are that order's, and a final status that was received is the
  order's status from then on.
\<close>

theorem stream_updates_true:
  assumes "keyed db" and "(stream_step pg)\<^sup>*\<^sup>* (NewOrderServer db) s" and "u \<in> set (received s n)"
  shows "\<exists>i ord. sub_order s n = Some i \<and> uuid_in pg i = Some (ouOrderId u) \<and> sdb s (ouOrderId u) = Some ord \<and>
    ouCustomerId u = oCustomerID ord \<and> ouItemName u = oItemName ord \<and> ouAmount u = oAmount ord \<and>
    (ouStatus u \<noteq> StatusPending \<longrightarrow> oStatus ord = ouStatus u)"
proof -
  have "true_updates pg s" using stream_runs_ok [OF assms(2) new_server_ok [OF assms(1)]] by blast
  with assms(3) show ?thesis unfolding true_updates_def truthful_def by blast
qed

theorem stream_updates_true_witness:
  "\<exists>ord. sdb (demo_watched\<lparr>sdb := paid_db\<rparr>) (demo_uuid 9) = Some ord \<and> oAmount ord = 1999"
proof -
  have "status_update (0, 0) stuck_order \<in> set (received (demo_watched\<lparr>sdb := paid_db\<rparr>) 0)" by (simp add: demo_watched_def)
  from stream_updates_true [OF demo_keyed(1) demo_paid this] show ?thesis
    by (auto simp: status_update_def stuck_order_def)
qed



text \<open>
  C36. A change that the monitor can see (it has seen another status of the order before) is handed
  to a sending goroutine for every registered subscriber by the next tick, which is a run of the
  monitor's steps, and the goroutine's next step delivers it.
\<close>

theorem change_reported:
  assumes "distinct ids" and "set ids = dom (subs s)" and "getOrder pg bad (sdb s) i = Some ord"
    and "lastStatuses s i = Some st" and "oStatus ord \<noteq> st" and "n \<in> set (subs_of s i)"
    and "\<not> crashed s" and "\<not> monitor_done s" and "to_check s = []" and "noticed s = None"
  shows "\<exists>s'. (stream_step pg)\<^sup>*\<^sup>* s (checkForUpdates pg bad now ids s) \<and>
    stream_step pg (checkForUpdates pg bad now ids s) s' \<and> received s' n = received s n @ [status_update now ord]"
proof -
  let ?t = "checkForUpdates pg bad now ids s"
  have "i \<in> set ids" using assms(2,6) by (auto simp: listed_def split: option.splits)
  then have "(n, status_update now ord) \<in> set (pending ?t)" using tick_reports assms by blast
  then have "stream_step pg ?t (send_update (n, status_update now ord) True ?t)"
    using assms(7) by (intro stream_step.send) simp_all
  moreover have "received (send_update (n, status_update now ord) True ?t) n = received s n @ [status_update now ord]"
    by (simp add: send_update_def Let_def)
  ultimately show ?thesis using tick_run [OF assms(7-10,1,2)] by blast
qed

theorem change_reported_witness:
  "\<exists>s'. stream_step standard_pg (checkForUpdates standard_pg (\<lambda>_. False) (5, 0) [demo_uuid 9]
      (demo_watched\<lparr>sdb := paid_db, lastStatuses := [demo_uuid 9 \<mapsto> StatusPending]\<rparr>)) s' \<and>
    last (received s' 0) = status_update (5, 0) (stuck_order\<lparr>oStatus := StatusPaid\<rparr>)"
proof -
  let ?s = "demo_watched\<lparr>sdb := paid_db, lastStatuses := [demo_uuid 9 \<mapsto> StatusPending]\<rparr>"
  have get: "getOrder standard_pg (\<lambda>_. False) (sdb ?s) (demo_uuid 9) = Some (stuck_order\<lparr>oStatus := StatusPaid\<rparr>)"
    by (simp add: getOrder_def paid_db_def)
  have st: "oStatus (stuck_order\<lparr>oStatus := StatusPaid\<rparr>) \<noteq> StatusPending" by (simp add: StatusPaid_def StatusPending_def)
  have "\<exists>s'. (stream_step standard_pg)\<^sup>*\<^sup>* ?s (checkForUpdates standard_pg (\<lambda>_. False) (5, 0) [demo_uuid 9] ?s) \<and>
      stream_step standard_pg (checkForUpdates standard_pg (\<lambda>_. False) (5, 0) [demo_uuid 9] ?s) s' \<and>
      received s' 0 = received ?s 0 @ [status_update (5, 0) (stuck_order\<lparr>oStatus := StatusPaid\<rparr>)]"
    by (rule change_reported [OF _ _ get _ st]) (simp_all add: demo_watched_def NewOrderServer_def listed_def)
  then show ?thesis by auto
qed

section \<open>What the server does not do\<close>

text \<open>
  C37. A change that happens before the monitor first looks at an order is never reported: when an
  order has reached its final status and the monitor has not seen it before, a subscriber that has
  had its first message never receives anything again, in no interleaving. The monitor's first look
  only stores the status.
\<close>

theorem first_look_swallows:
  assumes "keyed db" and "(stream_step pg)\<^sup>*\<^sup>* (NewOrderServer db) s" and "lastStatuses s i = None"
    and "uuid_in pg i = Some k" and "sdb s k = Some ord" and "oStatus ord \<noteq> StatusPending"
    and "sub_order s n = Some i" and "n \<notin> fst ` set (starting s)" and "(stream_step pg)\<^sup>*\<^sup>* s s'"
  shows "received s' n = received s n"
proof -
  have ok: "stream_inv s" "calm pg s" using stream_runs_ok [OF assms(2) new_server_ok [OF assms(1)]] by blast+
  have "unreached pg i n s"
    using unseen_silent [OF ok(2) assms(3-6)] assms(7,8) by (simp add: unreached_def)
  from unreached_runs [OF assms(9) ok(1) this] show ?thesis ..
qed

theorem first_look_swallows_witness:
  "received (checkForUpdates standard_pg (\<lambda>_. False) (5, 0) [demo_uuid 9] (demo_watched\<lparr>sdb := paid_db\<rparr>)) 0 =
    [status_update (0, 0) stuck_order] \<and> oStatus (stuck_order\<lparr>oStatus := StatusPaid\<rparr>) \<noteq> oStatus stuck_order"
proof -
  let ?s = "demo_watched\<lparr>sdb := paid_db\<rparr>"
  let ?t = "checkForUpdates standard_pg (\<lambda>_. False) (5, 0) [demo_uuid 9] ?s"
  have final: "oStatus (stuck_order\<lparr>oStatus := StatusPaid\<rparr>) \<noteq> StatusPending" by (simp add: StatusPaid_def StatusPending_def)
  have run: "(stream_step standard_pg)\<^sup>*\<^sup>* ?s ?t"
    by (rule tick_run) (simp_all add: demo_watched_def NewOrderServer_def)
  have p: "sdb ?s (demo_uuid 9) = Some (stuck_order\<lparr>oStatus := StatusPaid\<rparr>)" "lastStatuses ?s (demo_uuid 9) = None"
    "sub_order ?s 0 = Some (demo_uuid 9)" "0 \<notin> fst ` set (starting ?s)" "received ?s 0 = [status_update (0, 0) stuck_order]"
    by (simp_all add: demo_watched_def NewOrderServer_def paid_db_def)
  have "received ?t 0 = received ?s 0"
    by (rule first_look_swallows [OF demo_keyed(1) demo_paid p(2) demo_uuid_canonical p(1) final p(3,4) run])
  with final p(5) show ?thesis by (simp add: stuck_order_def)
qed

text \<open>
  C38. \<open>Stop\<close> ends the monitor but closes no \<open>done\<close> channel: a handler that waits, and for which no
  send is under way when the monitor has gone, waits forever. \<open>GracefulStop\<close>, which waits for the
  handlers, does not return then.
\<close>

theorem stopped_handler_waits:
  assumes "keyed db" and "(stream_step pg)\<^sup>*\<^sup>* (NewOrderServer db) s"
    and "monitor_done s" and "n \<in> set (waiting s)" and "n \<notin> set (closed s)" and "n \<notin> fst ` set (pending s)"
    and "(stream_step pg)\<^sup>*\<^sup>* s s'"
  shows "n \<in> set (waiting s')"
proof -
  have "stream_inv s" using stream_runs_ok [OF assms(2) new_server_ok [OF assms(1)]] by blast
  then have "stuck_handler n s" using assms(3-6) by (simp add: stuck_handler_def stream_inv_def)
  from stuck_runs [OF assms(7) this] show ?thesis by (simp add: stuck_handler_def)
qed

theorem stopped_handler_waits_witness: "0 \<in> set (waiting (demo_stopped\<lparr>sdb := paid_db\<rparr>))"
proof (rule stopped_handler_waits [OF demo_keyed(1) demo_stops])
  show "(stream_step standard_pg)\<^sup>*\<^sup>* demo_stopped (demo_stopped\<lparr>sdb := paid_db\<rparr>)"
    by (rule r_into_rtranclp, rule demo_changes) (simp add: demo_stopped_def demo_watched_def NewOrderServer_def)
qed (simp_all add: demo_stopped_def demo_watched_def NewOrderServer_def)

end
