(* ===== verification/Spec2Isabelle.thy ===== *)
theory Spec2Isabelle
  imports Order_Theorems Notify_Theorems Stream_Theorems
begin

text \<open>
  A verification of three Go services and a client: the order service
  (\<^verbatim>\<open>src/order-service\<close>), the payment service (\<^verbatim>\<open>src/payment-service\<close>), the notification service
  (\<^verbatim>\<open>src/notification-service\<close>) and the stream client (\<^verbatim>\<open>src/client\<close>).

  \<^bold>\<open>The program.\<close> A customer posts an order. The order service stores it as Pending under an
  idempotency key, asks the payment service to authorize the amount (over gRPC; a REST client is
  there too), and settles the order as Paid or Failed. Orders are read through a Redis cache and
  cancelled while Pending. The payment service stores at most one payment per order and publishes an
  event, which the broker routes to the notification service; that one mails a receipt, with
  duplicate checks, retries and a dead-letter queue. A streaming server reports changes of an order
  to its subscribers.

  \<^bold>\<open>The model.\<close> Go code is a function in the state monad over a record of what it can change. Records
  and datatypes have the source's fields and constructors, \<open>int64\<close> is a 64-bit word (its order is
  \<open><s\<close> and \<open>\<le>s\<close>), errors are values of \<open>error\<close> (sentinels, wrapping, gRPC status, context), \<open>panic\<close> is
  a result of its own, \<open>log.Fatalf\<close> is \<open>Inl\<close>. What is outside decides by lists in the state: \<open>faults\<close> says
  which database and Redis calls are lost, before or after they took effect; \<open>net\<close> says which calls
  between the services are lost and on which way; \<open>confirm_events\<close> what the broker confirms and when;
  \<open>waits\<close> which waits are cut short by the context; the draws of random numbers are such lists too.
  Every theorem that does not fix them holds for all of them.

  \<^item> \<open>Go_Prelude\<close>: errors, the state monad, weakest preconditions \<open>wp\<close>, frames, the calls that can be
    lost, strings; the collections of rules the other theories use.
  \<^item> \<open>Go_Json\<close>, \<open>Go_Time\<close>: \<open>encoding/json\<close> (printing with escapes, a parser for any text, UTF-8, and that
    what was printed is read back), RFC 3339 times. \<open>Redis\<close>, \<open>Postgres\<close>: the two stores as the code
    uses them; how a database reads UUIDs and rounds times is a parameter. \<open>Http\<close>: requests,
    responses, routes.
  \<^item> \<open>Order_Domain\<close>, \<open>Order_Usecase\<close> (\<^verbatim>\<open>internal/domain\<close>, \<^verbatim>\<open>internal/usecase\<close>): the order, its life
    (\<open>order_step\<close>, the abstract specification), the ports as locales, the use cases and their
    refinement of that life. \<open>Order_Store\<close> (\<^verbatim>\<open>repository/postgres\<close>), \<open>Order_Cache\<close>
    (\<^verbatim>\<open>infrastructure/rediscache\<close>): the adapters, as interpretations of the ports. \<open>Order_Paid\<close>: that a
    Paid order was paid for, for any authorizer that promises it.
  \<^item> \<open>Payment_Core\<close> (\<^verbatim>\<open>domain\<close>, \<^verbatim>\<open>usecase\<close>), \<open>Payment_Store\<close> (\<^verbatim>\<open>repository/postgres\<close>,
    \<^verbatim>\<open>infrastructure/rabbitmq\<close>), \<open>Payment_Grpc\<close> (\<^verbatim>\<open>transport/grpc\<close>), \<open>Payment_Http\<close>
    (\<^verbatim>\<open>transport/http\<close>), \<open>Payment_Props\<close>.
  \<^item> \<open>Payment_Client\<close> (\<^verbatim>\<open>adapter/grpc\<close>), \<open>Rest_Client\<close> (\<^verbatim>\<open>adapter/payment\<close>), \<open>Order_Http\<close>
    (\<^verbatim>\<open>transport/http\<close>), \<open>Order_Api\<close> (what its answers are).
  \<^item> \<open>System\<close>, \<open>Scenario\<close>, \<open>System_Runs\<close>, \<open>System_Ok\<close>, \<open>System_Props\<close>, \<open>System_Stuck\<close>, \<open>Rest_System\<close>: both
    services together, over gRPC and over REST; \<open>sys_step\<close> runs any requests in any order.
  \<^item> \<open>Order_Stream\<close>, \<open>Order_Stream_Props\<close> (\<^verbatim>\<open>transport/grpc/server.go\<close>): the streaming server, as
    operations and their interleaving \<open>stream_step\<close>. \<open>Stream_Client\<close> (\<^verbatim>\<open>client/stream_client.go\<close>).
  \<^item> \<open>Notify_Email\<close> (\<^verbatim>\<open>internal/email\<close>), \<open>Notify_Processor\<close> (\<^verbatim>\<open>internal/notify\<close>, \<^verbatim>\<open>internal/postgres\<close>,
    \<^verbatim>\<open>internal/redisnotify\<close> and \<open>handle\<close> of \<^verbatim>\<open>main.go\<close>), \<open>Notify_Proofs\<close>, \<open>Notify_Runs\<close>, \<open>Notify_Props\<close>: the
    senders as a locale with both as interpretations, one message, and the queue.
  \<^item> \<open>Boot\<close>, \<open>Payment_Main\<close>, \<open>Order_Main\<close>, \<open>Notify_Config\<close>, \<open>Notify_Main\<close>: the three \<open>main\<close> functions,
    configuration, calls in their order, the broker's topology, serving and stopping. \<open>Wire\<close>: what one
    service writes is what the other reads.
  \<^item> \<open>Demo\<close>: concrete states. \<open>Order_Theorems\<close>, \<open>Notify_Theorems\<close>, \<open>Stream_Theorems\<close> and this theory: the
    properties C1 to C40.

  \<^bold>\<open>What is shown.\<close> The orders table refines the life of an order in every run (C1, C11), a Paid order
  is backed by its payment (C2), rows stay well-formed (C40), payments are recorded once (C5). What the
  HTTP interface answers (C3, C18, C19), idempotency (C4), the cache and the wire formats (C20, C21,
  C22). Notification: at most the configured attempts, nothing lost, the queue drained (C6, C7, C8,
  C26, C39), bounds of delays, amounts and configuration (C28 to C31), the route of an event (C32),
  the starts (C33, C34, C35), the interceptor (C23). Streaming: true updates, consistent registrations,
  reported changes (C9, C10, C36). And what goes wrong, proved as it happens: C12 to C17, C24, C25,
  C27, C37, C38.

  \<^bold>\<open>Bounds and fuel.\<close> No definition takes fuel: every loop of the source is a recursion over the
  attempts, the deliveries or the text, and is total. \<open>consume p n\<close> handles \<open>n\<close> deliveries; C8 says that
  the length of the queue is enough. In the queue a requeued message comes back at its old place.

  \<^bold>\<open>Not modelled.\<close> Generated protocol buffer code, gin, the drivers and the Go runtime: their documented
  behaviour enters through the parameters and lists above (a decoder for gin's binding, the router,
  what a lost call returns). Requests to the order service are served one after another: the
  interleaving of the statements of two requests is not modelled. In the streaming server a request
  reads its order and registers in one step, a tick of the monitor is one step, lists of subscribers are
  values (the in-place shift of a slice in \<open>removeSubscriber\<close> under a reader is not modelled), and a
  change of the table is a step of the life of an order. Timeouts of HTTP servers, log lines other than
  those of the interceptor and the processor, and \<open>.proto\<close>, SQL and container files are not part of
  the state.
\<close>

section \<open>The order service and the payment service together\<close>



text \<open>
  C2. An order is Paid only if the payment service holds an authorized payment for that order
  and for that amount: this holds of every state that the two services can reach over gRPC, with
  any calls lost and with other clients of the payment service.
\<close>

theorem runs_paid_backed:
  assumes "sys_inv v s" and "paid_backed s" and "(sys_step v ttl)\<^sup>*\<^sup>* s s'"
  shows "paid_backed s'"
  using sys_runs_paid assms by blast

theorem runs_paid_backed_witness: "paid_backed demo_system \<and> paid_backed demo_placed"
  using runs_paid_backed [OF demo_inv demo_backed demo_run] demo_backed by simp



text \<open>
  C11. The same holds with the REST client in the place of the gRPC client, whatever the payment
  service answers and however the router and the decoder behave: creating an order only moves the
  orders table along the life of an order.
\<close>

theorem rest_create_refines:
  assumes "sys_inv v s" and "run_state (CreateOrder_Execute (rest_create v decode match base bad) i) s = (r, s')"
  shows "sys_inv v s' \<and> order_steps (orders_tab s) (orders_tab s')"
  using wpD [OF rest_uc.create_refines [OF assms(1)], folded rest_create_def, OF assms(2)] .

theorem rest_create_refines_witness:
  "order_steps (orders_tab demo_system) (orders_tab (snd (run_state (CreateOrder_Execute
    (rest_create demo_wiring decode_createPayment demo_match ''http://payment:8081'' (\<lambda>_. None)) demo_input) demo_system)))"
  using rest_create_refines [OF demo_inv surjective_pairing] by blast

section \<open>Placing an order\<close>

text \<open>
  C3. \<^verbatim>\<open>POST /orders\<close> with a valid body, when nothing is lost: the answer is 200 with the order, Paid up
  to the limit on amounts and Failed above it; the order is in the table with the fields of the
  request (trimmed) and that status; exactly one payment is recorded for it, and its event is
  published when it was authorized.
\<close>

theorem post_order_settles:
  assumes "sys_inv v s" and "quiet s" and "fresh_ids s" and "net s = []"
    and "bind_createOrder decode (hqBody q) = Some req" and "valid_input (request_input req q)"
    and "key_free s (idempotency_key q)"
  shows "\<exists>ord s'. run_state (Handlers_CreateOrder decode (order_handlers v ttl) q) s =
      (respond StatusOK (toOrderResponse (Some ord)), s') \<and>
    oStatus ord = (if crAmount req \<le>s MaxAuthorizedAmountCents then StatusPaid else StatusFailed) \<and>
    ord = (placed_order s (request_input req q))\<lparr>oStatus := oStatus ord\<rparr> \<and>
    orders_tab s' = (orders_tab s)(oID ord \<mapsto> ord\<lparr>oCreatedAt := ts_col (wPg v) (wall s)\<rparr>) \<and>
    (let p = next_payment (psys s) (oID ord) (crAmount req) in
       payment_of (psys s') = (payment_of (psys s))(oID ord \<mapsto> p\<lparr>pCreatedAt := ts_col (wPayPg v) (pCreatedAt p)\<rparr>) \<and>
       published (psys s') = published (psys s) @ events_of (wUrl v) p (crCustomerEmail req))"
  by (rule http_place [OF assms])

theorem post_order_settles_witness:
  "\<exists>ord s'. run_state (Handlers_CreateOrder (\<lambda>_. Some demo_request) (order_handlers demo_wiring 300) demo_post) demo_system =
      (respond StatusOK (toOrderResponse (Some ord)), s') \<and> oStatus ord = StatusPaid"
proof -
  have key: "key_free demo_system (idempotency_key demo_post)"
    by (simp add: key_free_def demo_system_def split: option.splits)
  have v: "valid_input (request_input demo_request demo_post)" using demo_valid by (simp add: demo_post_input)
  have "crAmount demo_request \<le>s MaxAuthorizedAmountCents"
    by (simp add: demo_request_def MaxAuthorizedAmountCents_def go_int_order)
  then show ?thesis
    using post_order_settles [OF demo_inv demo_quiet demo_fresh demo_fields(2) demo_post_input(1) v key, of 300] by auto
qed

text \<open>
  C4. A request that is repeated with the same idempotency key after it succeeded changes nothing and
  answers with the same order (with the creation time as the database rounds it).
\<close>

theorem repeated_request_replays:
  assumes "sys_inv v s" and "quiet s" and "fresh_ids s" and "valid_input i" and "key_used (inIdempotencyKey i) = Some k"
    and "idem_tab s k = None" and "net s = []"
  shows "\<exists>ord s1. run_state (CreateOrder_Execute (sys_create v) i) s = ((Some ord, None), s1) \<and>
    run_state (CreateOrder_Execute (sys_create v) i) s1 = ((Some (ord\<lparr>oCreatedAt := ts_col (wPg v) (wall s)\<rparr>), None), s1)"
  by (rule create_repeated [OF assms])

theorem repeated_request_replays_witness:
  "\<exists>ord s1. run_state (CreateOrder_Execute (sys_create demo_wiring) demo_input) demo_system = ((Some ord, None), s1) \<and>
    snd (run_state (CreateOrder_Execute (sys_create demo_wiring) demo_input) s1) = s1"
  using repeated_request_replays [OF demo_inv demo_quiet demo_fresh demo_valid demo_key demo_fields(2)] by auto

section \<open>When something is lost\<close>

text \<open>
  C12. Over REST, a Pending order whose payment was recorded is settled by repeating the request: the
  payment service answers 409, the use case asks for the payment's status and writes the order's
  final status, once, and answers with it.
\<close>

theorem rest_retry_reconciles:
  assumes "sys_inv v s" and "quiet s" and "net s = []" and "valid_input i" and "key_used (inIdempotencyKey i) = Some k"
    and "idem_tab s k = Some oid" and "orders_tab s oid = Some ord" and "oStatus ord = StatusPending"
    and "payment_of (psys s) oid = Some p" and "oid \<noteq> []" and "TrimSpace oid = oid"
    and "routes_payments match bad base oid" and "length (render (getPaymentResponse p)) \<le> 1048576"
    and "decode (authorize_body oid (oAmount ord) (TrimSpace (inCustomerEmail i))) =
      Some \<lparr>cpOrderID = oid, cpAmount = oAmount ord, cpCustomerEmail = TrimSpace (inCustomerEmail i)\<rparr>"
  shows "\<exists>m. run_state (CreateOrder_Execute (rest_create v decode match base bad) i) s =
    ((Some (ord\<lparr>oStatus := newStatus (pStatus p)\<rparr>), None),
     s\<lparr>orders_tab := (orders_tab s)(oid \<mapsto> ord\<lparr>oStatus := newStatus (pStatus p)\<rparr>), redis := m\<rparr>)"
  by (rule rest_retry_settles [where decode = decode, OF assms])

theorem rest_retry_reconciles_witness:
  "\<exists>m. run_state (CreateOrder_Execute
      (rest_create demo_wiring decode_createPayment demo_match ''http://payment:8081'' (\<lambda>_. None)) demo_input) stuck_system =
    ((Some (stuck_order\<lparr>oStatus := newStatus StatusAuthorized\<rparr>), None),
     stuck_system\<lparr>orders_tab := (orders_tab stuck_system)(demo_uuid 9 \<mapsto> stuck_order\<lparr>oStatus := newStatus StatusAuthorized\<rparr>), redis := m\<rparr>)"
proof -
  have "to_valid (demo_uuid 9) = demo_uuid 9"
    by (rule to_valid_valid, rule ascii_valid) (simp add: demo_uuid_def byte_def)
  moreover have "TrimSpace (inCustomerEmail demo_input) = ''ann@example.com''" by (simp add: demo_input_def demo_trims)
  moreover have "to_valid ''ann@example.com'' = ''ann@example.com''" by (rule demo_valids)
  ultimately have d: "decode_createPayment (authorize_body (demo_uuid 9) (oAmount stuck_order) (TrimSpace (inCustomerEmail demo_input))) =
      Some \<lparr>cpOrderID = demo_uuid 9, cpAmount = oAmount stuck_order, cpCustomerEmail = TrimSpace (inCustomerEmail demo_input)\<rparr>"
    by (simp add: authorize_body_read)
  from rest_retry_reconciles [where decode = decode_createPayment, OF stuck_inv stuck_state(1,2) demo_valid demo_key(1) stuck_state(3-6) demo_uuid_not_Nil demo_trim(2)
      demo_routes demo_payment_body d]
  show ?thesis by (simp add: stuck_payment_def)
qed



text \<open>
  C14. Such orders exist: the payment is saved before its event is published, so when the broker
  refuses the event the customer is told that the payment service is unavailable and the order stays
  Pending, while an authorized payment for it is recorded.
\<close>

theorem refused_event_leaves_pending:
  assumes "sys_inv v s" and "faults s = []" and "pay_up s" and "net s = []" and "faults (psys s) = []"
    and "confirms (psys s) = []" and "confirm_events (psys s) = [InTime False]"
    and "fresh_ids s" and "valid_input i" and "key_free s (inIdempotencyKey i)"
    and "inAmount i \<le>s MaxAuthorizedAmountCents" and "wUrl v \<noteq> []"
  shows "\<exists>ord s' p. run_state (CreateOrder_Execute (sys_create v) i) s =
      ((Some ord, Some (Sentinel ErrPaymentUnavailable)), s') \<and>
    orders_tab s' (oID ord) = Some ord \<and> oStatus ord = StatusPending \<and> oAmount ord = inAmount i \<and>
    payment_of (psys s') (oID ord) = Some p \<and> pStatus p = StatusAuthorized \<and> pAmount p = inAmount i"
  by (rule create_refused [OF assms])

theorem refused_event_leaves_pending_witness:
  "\<exists>ord s'. run_state (CreateOrder_Execute (sys_create demo_wiring) demo_input) refusing_system =
      ((Some ord, Some (Sentinel ErrPaymentUnavailable)), s') \<and> oStatus ord = StatusPending"
proof -
  have s: "faults refusing_system = []" "pay_up refusing_system" "net refusing_system = []" "faults (psys refusing_system) = []"
    "confirms (psys refusing_system) = []" "confirm_events (psys refusing_system) = [InTime False]"
    by (simp_all add: refusing_system_def demo_system_def demo_pay_def)
  from refused_event_leaves_pending [OF refusing_ok(1) s refusing_ok(2) demo_valid refusing_ok(3) demo_fields(7,6)]
  show ?thesis by blast
qed

text \<open>
  C15. When the answer to an authorization is lost (an unavailable connection or an expired deadline),
  the order becomes Failed for good, although the payment is recorded as if it had been answered and
  its event is published.
\<close>

theorem lost_answer_fails_order:
  assumes "sys_inv v s" and "quiet s" and "fresh_ids s" and "valid_input i" and "key_free s (inIdempotencyKey i)"
    and "next_net s = AnswerLost c m" and "c \<noteq> InvalidArgument" and "c \<noteq> Internal"
  shows "\<exists>ord s'. run_state (CreateOrder_Execute (sys_create v) i) s =
      ((Some ord, Some (Wrapf ''payment authorization failed: '' (Status c m) [])), s') \<and>
    oID ord = uuid_seq s (uuid_pos s) \<and> orders_tab s' (oID ord) = Some ord \<and> oStatus ord = StatusFailed \<and>
    (\<exists>p. payment_of (psys s') (oID ord) = Some p \<and> pAmount p = inAmount i \<and> pStatus p = authorize_status (inAmount i)) \<and>
    published (psys s') = published (psys s) @
      events_of (wUrl v) (next_payment (psys s) (oID ord) (inAmount i)) (inCustomerEmail i)"
  by (rule create_answer_lost [OF assms])

theorem lost_answer_fails_order_witness:
  "\<exists>ord s' e. run_state (CreateOrder_Execute (sys_create demo_wiring) demo_input) losing_system = ((Some ord, Some e), s') \<and>
    oStatus ord = StatusFailed \<and> payment_of (psys s') (oID ord) \<noteq> None"
  using lost_answer_fails_order [OF losing_ok(1-3) demo_valid losing_ok(4,5)] by fastforce

text \<open>
  C16. While the payment service is down, a new order becomes Failed, with an error other than
  \<open>ErrPaymentUnavailable\<close>; the payment service's state is untouched.
\<close>

theorem order_while_payment_down:
  assumes "sys_inv v s" and "faults s = []" and "\<not> pay_up s" and "net s = []" and "fresh_ids s" and "valid_input i"
    and "key_free s (inIdempotencyKey i)"
  shows "\<exists>ord err s'. run_state (CreateOrder_Execute (sys_create v) i) s = ((Some ord, Some err), s') \<and>
    err \<noteq> Sentinel ErrPaymentUnavailable \<and> orders_tab s' (oID ord) = Some ord \<and> oStatus ord = StatusFailed \<and>
    psys s' = psys s"
  by (rule create_down [OF assms])

theorem order_while_payment_down_witness:
  "\<exists>ord err s'. run_state (CreateOrder_Execute (sys_create demo_wiring) demo_input) (demo_system\<lparr>pay_up := False\<rparr>) =
    ((Some ord, Some err), s') \<and> oStatus ord = StatusFailed"
proof -
  let ?s = "demo_system\<lparr>pay_up := False\<rparr>"
  have s: "sys_inv demo_wiring ?s" "faults ?s = []" "\<not> pay_up ?s" "net ?s = []" "fresh_ids ?s" "key_free ?s (inIdempotencyKey demo_input)"
    by (simp_all add: sys_inv_def order_inv_def pay_inv_def demo_wiring_def demo_system_def demo_pay_def
        fresh_ids_def pay_fresh_def key_free_def split: option.splits)
  from order_while_payment_down [OF s(1-5) demo_valid s(6)] show ?thesis by blast
qed

text \<open>
  C17. \<open>GetPaymentStatus\<close> for an order without a payment dereferences nil: the handler panics, the
  payment process ends, and the client sees a broken connection instead of \<open>NotFound\<close>.
\<close>

theorem status_of_unpaid_kills:
  assumes "pay_up s" and "net s = []" and "faults (psys s) = []" and "i \<noteq> []" and "payment_of (psys s) i = None"
  shows "fst (run_state (Server_GetPaymentStatus tsn (payment_server ppg url) \<lparr>gsqOrderId = i\<rparr>) (psys s)) = Panic \<and>
    (\<exists>l. run_state (stubGetPaymentStatus (grpc_stub tsn ppg url) \<lparr>gsqOrderId = i\<rparr>) s =
      (Inl (StatusErr Unavailable ''error reading from server: EOF''), s\<lparr>plog := l, pay_up := False\<rparr>))"
  using status_kills [OF assms] run_status [OF assms(3,4)] assms(5) by simp

theorem status_of_unpaid_kills_witness:
  "\<exists>l. run_state (stubGetPaymentStatus (grpc_stub (\<lambda>_. (0, 0)) standard_pg ''amqp://rabbitmq'') \<lparr>gsqOrderId = demo_uuid 1\<rparr>) demo_system =
    (Inl (StatusErr Unavailable ''error reading from server: EOF''), demo_system\<lparr>plog := l, pay_up := False\<rparr>)"
proof -
  have p: "faults (psys demo_system) = []" "payment_of (psys demo_system) (demo_uuid 1) = None"
    by (simp_all add: demo_fields demo_pay_def payment_of_def)
  from status_of_unpaid_kills [OF demo_fields(3,2) p(1) demo_uuid_not_Nil p(2)] show ?thesis by blast
qed

end
